(* ===== verification/Gateway_Prelude.thy ===== *)
theory Gateway_Prelude
  imports Main "HOL-Library.Word"
begin

unbundle bit_operations_syntax

text \<open>
  Shared ground of the development: the widths of the C integers, the result type of
  operations that can fail, array access with its bounds, and the lemma collections
  the component theories extend.

  A C operation that can stop abnormally returns \<open>fault + 'a\<close>. \<open>Inl\<close> stands for an
  execution the C program does not survive or does not define: a failing
  \<^verbatim>\<open>ASSERT\<close>, a call through a null function pointer, an array access out of its
  bounds, a division by zero, an object used at the wrong type. \<open>Inr\<close> carries the
  value. Error codes the C code returns are ordinary values and stay in \<open>Inr\<close>.
\<close>

section \<open>Machine integers\<close>

type_synonym u8 = "8 word"
type_synonym u16 = "16 word"
type_synonym u32 = "32 word"
type_synonym u64 = "64 word"

lemma unat_u8_less [simp]: "unat (w :: u8) < 256"
  using unsigned_less [of w] by simp

lemma unat_u8_le: "unat (w :: u8) \<le> 255"
  using unat_u8_less [of w] by linarith

lemma unat_of_nat_u8 [simp]: "n < 256 \<Longrightarrow> unat (of_nat n :: u8) = n"
  by (simp add: unat_of_nat)

section \<open>Faults and their sequencing\<close>

datatype fault =
    Assert_Failed
  | Null_Call
  | Out_Of_Bounds
  | Div_By_Zero
  | Type_Confusion
  | Use_After_Free

type_synonym 'a res = "fault + 'a"

fun bind_res :: "'a res \<Rightarrow> ('a \<Rightarrow> 'b res) \<Rightarrow> 'b res" where
  "bind_res (Inl f) k = Inl f"
| "bind_res (Inr x) k = k x"

definition assert_that :: "bool \<Rightarrow> 'a res \<Rightarrow> 'a res" where
  "assert_that b k = (if b then k else Inl Assert_Failed)"

named_theorems res_simps \<open>characterisations of operations by their results\<close>
named_theorems wf_intros \<open>introduction rules of the well-formedness predicates\<close>

lemma bind_res_Inr_iff [res_simps]:
  "bind_res m k = Inr y \<longleftrightarrow> (\<exists>x. m = Inr x \<and> k x = Inr y)"
  by (cases m) auto

lemma bind_res_Inl_iff:
  "bind_res m k = Inl f \<longleftrightarrow> m = Inl f \<or> (\<exists>x. m = Inr x \<and> k x = Inl f)"
  by (cases m) auto

lemma bind_res_assoc: "bind_res (bind_res m k) h = bind_res m (\<lambda>x. bind_res (k x) h)"
  by (cases m) auto

lemma bind_res_cong [fundef_cong]:
  "m = m' \<Longrightarrow> (\<And>x. m' = Inr x \<Longrightarrow> k x = k' x) \<Longrightarrow> bind_res m k = bind_res m' k'"
  by (cases m') auto

lemma bind_res_case:
  "bind_res m k = (case m of Inl f \<Rightarrow> Inl f | Inr x \<Rightarrow> k x)"
  by (cases m) auto

lemma assert_that_True [simp]: "assert_that True k = k"
  by (simp add: assert_that_def)

lemma assert_that_False [simp]: "assert_that False k = Inl Assert_Failed"
  by (simp add: assert_that_def)

lemma assert_that_Inr_iff [res_simps]:
  "assert_that b k = Inr y \<longleftrightarrow> b \<and> k = Inr y"
  by (simp add: assert_that_def)

lemma assert_that_bind: "bind_res (assert_that b m) k = assert_that b (bind_res m k)"
  by (simp add: assert_that_def)

section \<open>Arrays\<close>

text \<open>
  A C array of fixed length is a list. A read or write whose index is not below the
  length is undefined behaviour in C and a fault here.
\<close>

definition arr_get :: "'a list \<Rightarrow> nat \<Rightarrow> 'a res" where
  "arr_get xs i = (if i < length xs then Inr (xs ! i) else Inl Out_Of_Bounds)"

definition arr_put :: "'a list \<Rightarrow> nat \<Rightarrow> 'a \<Rightarrow> 'a list res" where
  "arr_put xs i x = (if i < length xs then Inr (xs[i := x]) else Inl Out_Of_Bounds)"

definition arr_update :: "'a list \<Rightarrow> nat \<Rightarrow> ('a \<Rightarrow> 'a) \<Rightarrow> 'a list res" where
  "arr_update xs i f = bind_res (arr_get xs i) (\<lambda>x. arr_put xs i (f x))"

lemma arr_get_ok [simp]: "i < length xs \<Longrightarrow> arr_get xs i = Inr (xs ! i)"
  by (simp add: arr_get_def)

lemma arr_get_oob [simp]: "\<not> i < length xs \<Longrightarrow> arr_get xs i = Inl Out_Of_Bounds"
  by (simp add: arr_get_def)

lemma arr_get_Inr_iff [res_simps]: "arr_get xs i = Inr x \<longleftrightarrow> i < length xs \<and> x = xs ! i"
  by (auto simp: arr_get_def)

lemma arr_put_ok [simp]: "i < length xs \<Longrightarrow> arr_put xs i x = Inr (xs[i := x])"
  by (simp add: arr_put_def)

lemma arr_put_oob [simp]: "\<not> i < length xs \<Longrightarrow> arr_put xs i x = Inl Out_Of_Bounds"
  by (simp add: arr_put_def)

lemma arr_put_Inr_iff [res_simps]:
  "arr_put xs i x = Inr ys \<longleftrightarrow> i < length xs \<and> ys = xs[i := x]"
  by (auto simp: arr_put_def)

lemma arr_update_ok [simp]: "i < length xs \<Longrightarrow> arr_update xs i f = Inr (xs[i := f (xs ! i)])"
  by (simp add: arr_update_def)

lemma arr_update_oob [simp]: "\<not> i < length xs \<Longrightarrow> arr_update xs i f = Inl Out_Of_Bounds"
  by (simp add: arr_update_def)

lemma arr_update_Inr_iff [res_simps]:
  "arr_update xs i f = Inr ys \<longleftrightarrow> i < length xs \<and> ys = xs[i := f (xs ! i)]"
  by (auto simp: arr_update_def res_simps)

section \<open>Null pointers\<close>

text \<open>A pointer that may be \<^verbatim>\<open>NULL\<close> is an option; calling through it needs it set.\<close>

definition deref :: "'a option \<Rightarrow> 'a res" where
  "deref p = (case p of None \<Rightarrow> Inl Null_Call | Some x \<Rightarrow> Inr x)"

lemma deref_simps [simp]: "deref None = Inl Null_Call" "deref (Some x) = Inr x"
  by (simp_all add: deref_def)

lemma deref_Inr_iff [res_simps]: "deref p = Inr x \<longleftrightarrow> p = Some x"
  by (cases p) auto

section \<open>Modular arithmetic of ring indices\<close>

lemma Suc_mod_less [simp]: "0 < m \<Longrightarrow> Suc i mod m < (m :: nat)"
  by simp

lemma Suc_mod_cases:
  "i < m \<Longrightarrow> Suc i mod m = (if Suc i = m then 0 else Suc i)" for m :: nat
  by (simp add: mod_Suc)

lemma add_mod_cases:
  "i < m \<Longrightarrow> k \<le> m \<Longrightarrow> (i + k) mod m = (if i + k < m then i + k else i + k - m)" for m :: nat
  by (auto simp: mod_if)

end
