(* ===== verification/Ports.thy ===== *)
theory Ports
  imports Gateway_Prelude
begin

text \<open>
  The enumerations of \<^verbatim>\<open>lib/secure_gateway.h\<close>: error codes, port kinds, source and sink
  types with their display names. The code uses enumerators as array indices; here the
  conversion is a function, and the enumerator that closes an enumeration
  (\<^verbatim>\<open>MAX_SOURCES\<close>, \<^verbatim>\<open>MAX_SINKS\<close>) is the number of the others.
\<close>

datatype sec_gateway_error_code =
    SUCC
  | SEC_GATEWAY_INVALID_PARAM
  | SEC_GATEWAY_INVALID_STATE
  | SEC_GATEWAY_INVALID_INDEX
  | SEC_GATEWAY_IO_FAULT
  | SEC_GATEWAY_NO_CLIENT
  | SEC_GATEWAY_NO_MEMORY
  | SEC_GATEWAY_NO_RESOURCE
  | SEC_GATEWAY_THREAD_ERROR

fun error_code :: "sec_gateway_error_code \<Rightarrow> int" where
  "error_code SUCC = 0"
| "error_code SEC_GATEWAY_INVALID_PARAM = 1"
| "error_code SEC_GATEWAY_INVALID_STATE = 2"
| "error_code SEC_GATEWAY_INVALID_INDEX = 3"
| "error_code SEC_GATEWAY_IO_FAULT = 4"
| "error_code SEC_GATEWAY_NO_CLIENT = 5"
| "error_code SEC_GATEWAY_NO_MEMORY = 6"
| "error_code SEC_GATEWAY_NO_RESOURCE = 7"
| "error_code SEC_GATEWAY_THREAD_ERROR = 8"

datatype port_type = PORT_TYPE_SOURCE | PORT_TYPE_SINK

datatype source_type =
    SOURCE_TYPE_NULL
  | SOURCE_TYPE_VMC
  | SOURCE_TYPE_LEGACY
  | SOURCE_TYPE_ENCLAVE

fun source_index :: "source_type \<Rightarrow> nat" where
  "source_index SOURCE_TYPE_NULL = 0"
| "source_index SOURCE_TYPE_VMC = 1"
| "source_index SOURCE_TYPE_LEGACY = 2"
| "source_index SOURCE_TYPE_ENCLAVE = 3"

definition MAX_SOURCES :: nat where
  "MAX_SOURCES = 4"

definition source_name :: "nat \<Rightarrow> string" where
  "source_name src =
     (if src = source_index SOURCE_TYPE_NULL then ''null''
      else if src = source_index SOURCE_TYPE_VMC then ''vmc''
      else if src = source_index SOURCE_TYPE_LEGACY then ''legacy''
      else ''enclave'')"

datatype sink_type =
    SINK_TYPE_DISCARD
  | SINK_TYPE_VMC
  | SINK_TYPE_ENCLAVE
  | SINK_TYPE_LEGACY

fun sink_index :: "sink_type \<Rightarrow> nat" where
  "sink_index SINK_TYPE_DISCARD = 0"
| "sink_index SINK_TYPE_VMC = 1"
| "sink_index SINK_TYPE_ENCLAVE = 2"
| "sink_index SINK_TYPE_LEGACY = 3"

definition MAX_SINKS :: nat where
  "MAX_SINKS = 4"

definition sink_name :: "nat \<Rightarrow> string" where
  "sink_name sink_id =
     (if sink_id = sink_index SINK_TYPE_DISCARD then ''discard''
      else if sink_id = sink_index SINK_TYPE_VMC then ''vmc''
      else if sink_id = sink_index SINK_TYPE_ENCLAVE then ''enclave''
      else if sink_id = sink_index SINK_TYPE_LEGACY then ''legacy''
      else ''invalid'')"

text \<open>Enumerators are ordered by their value, as the comparison in the policies needs.\<close>

instantiation source_type :: linorder
begin

definition less_eq_source_type :: "source_type \<Rightarrow> source_type \<Rightarrow> bool" where
  "less_eq_source_type a b \<longleftrightarrow> source_index a \<le> source_index b"

definition less_source_type :: "source_type \<Rightarrow> source_type \<Rightarrow> bool" where
  "less_source_type a b \<longleftrightarrow> source_index a < source_index b"

instance
proof
  fix a b :: source_type
  show "a \<le> b \<Longrightarrow> b \<le> a \<Longrightarrow> a = b"
    by (cases a; cases b) (simp_all add: less_eq_source_type_def)
qed (auto simp: less_eq_source_type_def less_source_type_def)

end

instantiation sink_type :: linorder
begin

definition less_eq_sink_type :: "sink_type \<Rightarrow> sink_type \<Rightarrow> bool" where
  "less_eq_sink_type a b \<longleftrightarrow> sink_index a \<le> sink_index b"

definition less_sink_type :: "sink_type \<Rightarrow> sink_type \<Rightarrow> bool" where
  "less_sink_type a b \<longleftrightarrow> sink_index a < sink_index b"

instance
proof
  fix a b :: sink_type
  show "a \<le> b \<Longrightarrow> b \<le> a \<Longrightarrow> a = b"
    by (cases a; cases b) (simp_all add: less_eq_sink_type_def)
qed (auto simp: less_eq_sink_type_def less_sink_type_def)

end

lemma max_ports [simp]: "MAX_SOURCES = 4" "MAX_SINKS = 4"
  by (simp_all add: MAX_SOURCES_def MAX_SINKS_def)

lemma source_index_less [simp]: "source_index s < 4"
  by (cases s) simp_all

lemma sink_index_less [simp]: "sink_index s < 4"
  by (cases s) simp_all

lemma source_index_inject [simp]: "source_index a = source_index b \<longleftrightarrow> a = b"
  by (cases a; cases b) simp_all

lemma sink_index_inject [simp]: "sink_index a = sink_index b \<longleftrightarrow> a = b"
  by (cases a; cases b) simp_all

lemma source_index_cases:
  assumes "i < 4" obtains s where "i = source_index s"
proof -
  have "i = 0 \<or> i = 1 \<or> i = 2 \<or> i = 3" using assms by linarith
  then show ?thesis
    using that by (metis source_index.simps)
qed

lemma upt_4 [simp]: "[0 ..< 4] = [0, 1, 2, 3]"
  by (simp add: upt_rec)

end
