(* ===== verification/Bitmap.thy ===== *)
theory Bitmap
  imports Gateway_Prelude
begin

text \<open>
  The sink bitmap of \<^verbatim>\<open>lib/secure_gateway.h\<close>: \<^verbatim>\<open>struct bitmap_t\<close>, an array of
  \<^verbatim>\<open>BITMAP_MAX_LEN / 64 + 1\<close> 64-bit words, and its five inline operations. Read as the
  set of its bits, the operations are the set operations; the return type of
  \<^verbatim>\<open>bitmap_test\<close> drops the upper half of each word.
\<close>

definition BITMAP_MAX_LEN :: nat where
  "BITMAP_MAX_LEN = 64"

definition BITMAP_WORDS :: nat where
  "BITMAP_WORDS = BITMAP_MAX_LEN div 64 + 1"

record bitmap =
  bitmap_data :: "u64 list"

definition bit_of :: "nat \<Rightarrow> u64" where
  "bit_of index = push_bit (index mod 64) 1"

definition bitmap_const :: "u64 \<Rightarrow> bitmap" where
  "bitmap_const w = \<lparr>bitmap_data = w # replicate (BITMAP_WORDS - 1) 0\<rparr>"

definition bitmap_clear :: "bitmap \<Rightarrow> bitmap" where
  "bitmap_clear b = b\<lparr>bitmap_data := replicate (length (bitmap_data b)) 0\<rparr>"

definition bitmap_set :: "bitmap \<Rightarrow> nat \<Rightarrow> bitmap res" where
  "bitmap_set b index =
     bind_res (arr_update (bitmap_data b) (index div 64) (\<lambda>w. w OR push_bit (index mod 64) 1))
       (\<lambda>d. Inr (b\<lparr>bitmap_data := d\<rparr>))"

definition bitmap_unset :: "bitmap \<Rightarrow> nat \<Rightarrow> bitmap res" where
  "bitmap_unset b index =
     bind_res (arr_update (bitmap_data b) (index div 64) (\<lambda>w. w AND NOT (push_bit (index mod 64) 1)))
       (\<lambda>d. Inr (b\<lparr>bitmap_data := d\<rparr>))"

definition bitmap_toggle :: "bitmap \<Rightarrow> nat \<Rightarrow> bitmap res" where
  "bitmap_toggle b index =
     bind_res (arr_update (bitmap_data b) (index div 64) (\<lambda>w. w XOR push_bit (index mod 64) 1))
       (\<lambda>d. Inr (b\<lparr>bitmap_data := d\<rparr>))"

text \<open>The cast to \<^verbatim>\<open>int\<close> keeps the low 32 bits of the 64-bit value.\<close>

definition bitmap_test :: "bitmap \<Rightarrow> nat \<Rightarrow> u32 res" where
  "bitmap_test b index =
     bind_res (arr_get (bitmap_data b) (index div 64))
       (\<lambda>w. Inr (ucast (w AND push_bit (index mod 64) 1)))"

section \<open>The bitmap as a set\<close>

definition bitmap_wf :: "bitmap \<Rightarrow> bool" where
  "bitmap_wf b \<longleftrightarrow> length (bitmap_data b) = BITMAP_WORDS"

definition bits :: "bitmap \<Rightarrow> nat set" where
  "bits b = {i. i div 64 < length (bitmap_data b) \<and> bit (bitmap_data b ! (i div 64)) (i mod 64)}"

lemmas bitmap_ops_def =
  bitmap_clear_def bitmap_set_def bitmap_unset_def bitmap_toggle_def bitmap_test_def

lemma bitmap_words [simp]: "BITMAP_WORDS = 2"
  by (simp add: BITMAP_WORDS_def BITMAP_MAX_LEN_def)

lemma bit_single_iff: "bit ((2 :: u64) ^ k) n \<longleftrightarrow> n = k \<and> n < 64"
  by (auto simp: bit_simps)

lemma div_mod_64_eq_iff: "i div 64 = k div 64 \<and> i mod 64 = k mod 64 \<longleftrightarrow> i = (k :: nat)"
  by (metis div_mult_mod_eq)

lemma index_in_range [simp]: "index < 128 \<Longrightarrow> index div 64 < (2 :: nat)"
  by simp

text \<open>One lemma covers the three operations that rewrite a single word.\<close>

lemma bits_update_word:
  assumes "index div 64 < length (bitmap_data b)"
    and "\<And>n. n < 64 \<Longrightarrow> n \<noteq> index mod 64 \<Longrightarrow> bit (f (bitmap_data b ! (index div 64))) n
           \<longleftrightarrow> bit (bitmap_data b ! (index div 64)) n"
    and "bit (f (bitmap_data b ! (index div 64))) (index mod 64) \<longleftrightarrow> v"
  shows "bits (b\<lparr>bitmap_data := (bitmap_data b)[index div 64 := f (bitmap_data b ! (index div 64))]\<rparr>)
           = (if v then insert index (bits b) else bits b - {index})"
proof -
  have "i \<in> bits (b\<lparr>bitmap_data := (bitmap_data b)[index div 64 := f (bitmap_data b ! (index div 64))]\<rparr>)
          \<longleftrightarrow> (if i = index then v else i \<in> bits b)" for i
  proof (cases "i div 64 = index div 64")
    case True
    then have "i = index \<longleftrightarrow> i mod 64 = index mod 64"
      using div_mod_64_eq_iff by blast
    with True assms show ?thesis
      by (auto simp: bits_def)
  next
    case False
    then show ?thesis by (auto simp: bits_def)
  qed
  note iff = this
  show ?thesis by (rule set_eqI) (simp add: iff)
qed

lemma bits_subset: "bitmap_wf b \<Longrightarrow> bits b \<subseteq> {..<128}"
  by (auto simp: bits_def bitmap_wf_def)

lemma bits_bitmap_clear: "bits (bitmap_clear b) = {}"
  by (auto simp: bits_def bitmap_clear_def)

lemma bits_update_word_wf:
  assumes wf: "bitmap_wf b" and i: "index < 128"
    and other: "\<And>w :: u64. \<And>n. n < 64 \<Longrightarrow> n \<noteq> index mod 64 \<Longrightarrow> bit (f w) n \<longleftrightarrow> bit w n"
    and this_bit: "bit (f (bitmap_data b ! (index div 64))) (index mod 64) \<longleftrightarrow> v"
  shows "\<exists>b'. bind_res (arr_update (bitmap_data b) (index div 64) f)
             (\<lambda>d. Inr (b\<lparr>bitmap_data := d\<rparr>)) = Inr b'
           \<and> bitmap_wf b' \<and> bits b' = (if v then insert index (bits b) else bits b - {index})"
proof -
  have len: "index div 64 < length (bitmap_data b)"
    using wf i by (simp add: bitmap_wf_def)
  show ?thesis
    using len wf bits_update_word [of index b f v, OF len other this_bit]
    by (auto simp: bitmap_wf_def)
qed

lemma bitmap_set_refines:
  assumes "bitmap_wf b" and "index < 128"
  shows "\<exists>b'. bitmap_set b index = Inr b' \<and> bitmap_wf b' \<and> bits b' = insert index (bits b)"
  unfolding bitmap_set_def
  using bits_update_word_wf [OF assms, of "\<lambda>w. w OR push_bit (index mod 64) 1" True]
  by (simp add: bit_or_iff bit_single_iff)

lemma bitmap_unset_refines:
  assumes "bitmap_wf b" and "index < 128"
  shows "\<exists>b'. bitmap_unset b index = Inr b' \<and> bitmap_wf b' \<and> bits b' = bits b - {index}"
  unfolding bitmap_unset_def
  using bits_update_word_wf [OF assms, of "\<lambda>w. w AND NOT (push_bit (index mod 64) 1)" False]
  by (simp add: bit_and_iff bit_not_iff bit_single_iff)

lemma bitmap_toggle_refines:
  assumes "bitmap_wf b" and "index < 128"
  shows "\<exists>b'. bitmap_toggle b index = Inr b' \<and> bitmap_wf b'
           \<and> bits b' = (if index \<in> bits b then bits b - {index} else insert index (bits b))"
proof -
  have "index \<in> bits b \<longleftrightarrow> bit (bitmap_data b ! (index div 64)) (index mod 64)"
    using assms by (simp add: bits_def bitmap_wf_def)
  then show ?thesis
    unfolding bitmap_toggle_def
    using bits_update_word_wf [OF assms, of "\<lambda>w. w XOR push_bit (index mod 64) 1" "index \<notin> bits b"]
    by (simp add: bit_xor_iff bit_single_iff split: if_splits)
qed

lemma ucast_single_eq_0_iff:
  "k < 64 \<Longrightarrow> (ucast (w AND 2 ^ k :: u64) :: u32) = 0 \<longleftrightarrow> 32 \<le> k \<or> \<not> bit w k"
proof -
  assume k: "k < 64"
  have "(ucast (w AND 2 ^ k :: u64) :: u32) = 0 \<longleftrightarrow>
      (\<forall>n < 32. \<not> bit (w AND 2 ^ k :: u64) n)"
    by (auto simp: bit_eq_iff bit_ucast_iff bit_imp_le_length)
  also have "\<dots> \<longleftrightarrow> 32 \<le> k \<or> \<not> bit w k"
    using k by (auto simp: bit_and_iff bit_single_iff not_le)
  finally show ?thesis .
qed

lemma bitmap_test_refines:
  assumes "bitmap_wf b" and "index < 128"
  shows "\<exists>v. bitmap_test b index = Inr v \<and> (v \<noteq> 0 \<longleftrightarrow> index \<in> bits b \<and> index mod 64 < 32)"
  using assms
  by (auto simp: bitmap_test_def bitmap_wf_def bits_def ucast_single_eq_0_iff)

section \<open>The interface of a bounded index set\<close>

text \<open>
  What the pipeline relies on: the operations act on the abstract set, and a test on an
  index below \<open>tested\<close> decides membership.
\<close>

locale index_set =
  fixes clear :: "'b \<Rightarrow> 'b"
    and set_at :: "'b \<Rightarrow> nat \<Rightarrow> 'b res"
    and unset_at :: "'b \<Rightarrow> nat \<Rightarrow> 'b res"
    and toggle_at :: "'b \<Rightarrow> nat \<Rightarrow> 'b res"
    and test_at :: "'b \<Rightarrow> nat \<Rightarrow> u32 res"
    and elems :: "'b \<Rightarrow> nat set"
    and invar :: "'b \<Rightarrow> bool"
    and cap :: nat
    and tested :: "nat \<Rightarrow> bool"
  assumes invar_clear: "invar b \<Longrightarrow> invar (clear b)"
    and elems_clear: "invar b \<Longrightarrow> elems (clear b) = {}"
    and set_ok: "invar b \<Longrightarrow> i < cap \<Longrightarrow>
      \<exists>b'. set_at b i = Inr b' \<and> invar b' \<and> elems b' = insert i (elems b)"
    and unset_ok: "invar b \<Longrightarrow> i < cap \<Longrightarrow>
      \<exists>b'. unset_at b i = Inr b' \<and> invar b' \<and> elems b' = elems b - {i}"
    and toggle_ok: "invar b \<Longrightarrow> i < cap \<Longrightarrow>
      \<exists>b'. toggle_at b i = Inr b' \<and> invar b'
        \<and> elems b' = (if i \<in> elems b then elems b - {i} else insert i (elems b))"
    and test_ok: "invar b \<Longrightarrow> i < cap \<Longrightarrow> tested i \<Longrightarrow>
      \<exists>v. test_at b i = Inr v \<and> (v \<noteq> 0 \<longleftrightarrow> i \<in> elems b)"
begin

fun set_all :: "'b \<Rightarrow> nat list \<Rightarrow> 'b res" where
  "set_all b [] = Inr b"
| "set_all b (i # is) = bind_res (set_at b i) (\<lambda>b'. set_all b' is)"

lemma set_all_ok:
  "invar b \<Longrightarrow> \<forall>i \<in> set is. i < cap \<Longrightarrow>
     \<exists>b'. set_all b is = Inr b' \<and> invar b' \<and> elems b' = elems b \<union> set is"
proof (induction "is" arbitrary: b)
  case Nil
  then show ?case by simp
next
  case (Cons i "is")
  then obtain b1 where b1: "set_at b i = Inr b1" "invar b1" "elems b1 = insert i (elems b)"
    using set_ok [of b i] by auto
  with Cons.IH [of b1] Cons.prems show ?case by auto
qed

lemma set_then_test:
  assumes "invar b" "i < cap" "k < cap" "tested k"
  shows "\<exists>b' v. set_at b i = Inr b' \<and> test_at b' k = Inr v \<and> (v \<noteq> 0 \<longleftrightarrow> k = i \<or> k \<in> elems b)"
  using set_ok [OF assms(1,2)] test_ok [of _ k] assms(3,4) by fastforce

end

interpretation bm: index_set bitmap_clear bitmap_set bitmap_unset bitmap_toggle bitmap_test
  bits bitmap_wf 128 "\<lambda>i. i mod 64 < 32"
proof unfold_locales
  fix b i assume "bitmap_wf b" "i < (128 :: nat)" "i mod 64 < 32"
  then show "\<exists>v. bitmap_test b i = Inr v \<and> (v \<noteq> 0 \<longleftrightarrow> i \<in> bits b)"
    using bitmap_test_refines by blast
qed (simp_all add: bits_bitmap_clear bitmap_set_refines bitmap_unset_refines bitmap_toggle_refines,
     simp add: bitmap_wf_def bitmap_clear_def)

section \<open>Properties\<close>

text \<open>
  C27. The operations of a bitmap implement those of a set of indices below 128: they do
  not fault, and those that write keep the shape of the array and change exactly the bit
  they name, a toggle from clear to set and from set to clear. A test, though, succeeds exactly on the set bits in the lower half of each
  word: the conversion of the masked word to \<^verbatim>\<open>int\<close> loses bits 32 to 63, so a set bit there
  tests as clear.
\<close>

theorem bitmap_refines_set:
  assumes "bitmap_wf b" and "i < 128"
  shows "bits (bitmap_clear b) = {} \<and> bitmap_wf (bitmap_clear b)
    \<and> (\<exists>b'. bitmap_set b i = Inr b' \<and> bitmap_wf b' \<and> bits b' = insert i (bits b))
    \<and> (\<exists>b'. bitmap_unset b i = Inr b' \<and> bitmap_wf b' \<and> bits b' = bits b - {i})
    \<and> (\<exists>b'. bitmap_toggle b i = Inr b' \<and> bitmap_wf b'
         \<and> bits b' = (if i \<in> bits b then bits b - {i} else insert i (bits b)))
    \<and> (\<exists>v. bitmap_test b i = Inr v \<and> (v \<noteq> 0 \<longleftrightarrow> i \<in> bits b \<and> i mod 64 < 32))"
  by (intro conjI bm.elems_clear [OF assms(1)] bm.invar_clear [OF assms(1)] bm.set_ok [OF assms] bm.unset_ok [OF assms]
      bm.toggle_ok [OF assms] bitmap_test_refines [OF assms])

theorem bitmap_refines_set_witness:
  "(\<exists>b'. bitmap_set (bitmap_const 5) 70 = Inr b' \<and> bitmap_wf b' \<and> bits b' = insert 70 (bits (bitmap_const 5)))
    \<and> (\<exists>b'. bitmap_toggle (bitmap_const (push_bit 40 1)) 40 = Inr b'
         \<and> bits b' = bits (bitmap_const (push_bit 40 1)) - {40})
    \<and> bitmap_test (bitmap_const (push_bit 40 1)) 40 = Inr 0 \<and> 40 \<in> bits (bitmap_const (push_bit 40 1))"
proof -
  have wf: "bitmap_wf (bitmap_const x)" for x
    by (simp add: bitmap_wf_def bitmap_const_def)
  have "40 \<in> bits (bitmap_const (push_bit 40 1))"
    by (simp add: bits_def bitmap_const_def bit_simps)
  with bitmap_refines_set [OF wf, of 40 "push_bit 40 1"] bitmap_refines_set [OF wf, of 70 5] show ?thesis by auto
qed

end
