(* ===== verification/Message.thy ===== *)
theory Message
  imports Bitmap
begin

text \<open>
  Messages: \<^verbatim>\<open>struct message_t\<close> and \<^verbatim>\<open>mavlink_msg_length\<close> of
  \<^verbatim>\<open>lib/secure_gateway.h\<close>, and the MAVLink library as the gateway sees it.

  The MAVLink headers are generated and not part of the repository. Of
  \<^verbatim>\<open>mavlink_message_t\<close> the model has the fields the gateway reads or writes; what else
  the struct holds is the type parameter \<open>'x\<close>. \<^verbatim>\<open>mavlink_status_t\<close> is the type
  parameter \<open>'s\<close>, the parser's own per-channel state is \<open>'c\<close>. The library's functions
  and constants are one record, \<open>mavlink_lib\<close>, an argument of every definition that
  calls them; its last three fields are the size of the payload array and the values of
  the opaque types whose bytes are all zero, which \<^verbatim>\<open>memset\<close> writes. What a theorem
  needs of the library is a hypothesis of that theorem.
\<close>

section \<open>The MAVLink library\<close>

text \<open>The payload array is kept as its bytes, the way the gateway accesses it.\<close>

record 'x mavlink_message =
  magic :: u8
  len :: u8
  incompat_flags :: u8
  seq :: u8
  sysid :: u8
  compid :: u8
  msgid :: u32
  payload64 :: "u8 list"
  rest :: 'x

text \<open>Results of \<^verbatim>\<open>mavlink_parse_char\<close>, as \<^verbatim>\<open>pipeline_spin\<close> tells them apart.\<close>

datatype framing =
    MAVLINK_FRAMING_INCOMPLETE
  | MAVLINK_FRAMING_OK
  | MAVLINK_FRAMING_OTHER int

text \<open>The decoded messages the policies look at; a C float is its 32 bits.\<close>

type_synonym f32 = u32

record mavlink_command_long =
  command :: u16
  param1 :: f32

record mavlink_param_set =
  param_id :: "u8 list"
  param_value :: f32

record ('x, 's, 'c) mavlink_lib =
  MAVLINK_STX_MAVLINK1 :: u8
  MAVLINK_CORE_HEADER_MAVLINK1_LEN :: nat
  MAVLINK_CORE_HEADER_LEN :: nat
  MAVLINK_IFLAG_SIGNED :: u8
  MAVLINK_SIGNATURE_BLOCK_LEN :: nat
  MAVLINK_NUM_NON_PAYLOAD_BYTES :: nat
  MAVLINK_MAX_PACKET_LEN :: nat
  MAVLINK_MSG_ID_MEMINFO :: u32
  MAVLINK_MSG_ID_COMMAND_LONG :: u32
  MAVLINK_MSG_ID_PARAM_SET :: u32
  MAV_CMD_NAV_WAYPOINT :: u16
  MAV_CMD_DO_FENCE_ENABLE :: u16
  mav_trim_payload :: "u8 list \<Rightarrow> u8 \<Rightarrow> u8"
  mavlink_parse_char :: "nat \<Rightarrow> u8 \<Rightarrow> 'c \<Rightarrow> 'x mavlink_message \<Rightarrow> 's
    \<Rightarrow> framing \<times> 'c \<times> 'x mavlink_message \<times> 's"
  mavlink_finalize_message_buffer :: "'x mavlink_message \<Rightarrow> u8 \<Rightarrow> u8 \<Rightarrow> 's \<Rightarrow> u8 \<Rightarrow> u8 \<Rightarrow> u8
    \<Rightarrow> 'x mavlink_message \<times> 's"
  mavlink_get_crc_extra :: "'x mavlink_message \<Rightarrow> u8"
  mavlink_msg_to_send_buffer :: "'x mavlink_message \<Rightarrow> u8 list"
  mavlink_msg_command_long_decode :: "'x mavlink_message \<Rightarrow> mavlink_command_long"
  mavlink_msg_param_set_decode :: "'x mavlink_message \<Rightarrow> mavlink_param_set"
  payload64_bytes :: nat
  zero_rest :: 'x
  zero_status :: 's

section \<open>The gateway's message\<close>

record ('x, 's) message =
  msg :: "'x mavlink_message"
  status :: 's
  sinks :: bitmap
  source :: nat
  attribute :: u64

text \<open>The message whose bytes are all zero.\<close>

definition zero_message :: "('x, 's, 'c) mavlink_lib \<Rightarrow> ('x, 's) message" where
  "zero_message lib = \<lparr>
     msg = \<lparr>magic = 0, len = 0, incompat_flags = 0, seq = 0, sysid = 0, compid = 0, msgid = 0,
            payload64 = replicate (payload64_bytes lib) 0, rest = zero_rest lib\<rparr>,
     status = zero_status lib, sinks = bitmap_const 0, source = 0, attribute = 0\<rparr>"

definition mavlink_msg_length :: "('x, 's, 'c) mavlink_lib \<Rightarrow> 'x mavlink_message \<Rightarrow> nat" where
  "mavlink_msg_length lib m =
     (if magic m = MAVLINK_STX_MAVLINK1 lib
      then MAVLINK_CORE_HEADER_MAVLINK1_LEN lib + unat (len m) + 3
      else MAVLINK_CORE_HEADER_LEN lib
         + unat (mav_trim_payload lib (payload64 m) (len m))
         + (if incompat_flags m AND MAVLINK_IFLAG_SIGNED lib \<noteq> 0
            then MAVLINK_SIGNATURE_BLOCK_LEN lib else 0)
         + 3)"

text \<open>The documented contract of trimming: it removes trailing zero bytes but not the first byte.\<close>

definition trims_zeros :: "('x, 's, 'c) mavlink_lib \<Rightarrow> bool" where
  "trims_zeros lib \<longleftrightarrow> (\<forall>p n.
     mav_trim_payload lib p n \<le> n
     \<and> (\<forall>i. unat (mav_trim_payload lib p n) \<le> i \<and> i < unat n \<longrightarrow> p ! i = 0)
     \<and> (n \<le> 1 \<longrightarrow> mav_trim_payload lib p n = n)
     \<and> (1 < n \<longrightarrow> p ! (unat n - 1) \<noteq> 0 \<longrightarrow> mav_trim_payload lib p n = n)
     \<and> (1 < n \<longrightarrow> p ! (unat n - 1) = 0 \<longrightarrow> mav_trim_payload lib p n < n))"

text \<open>
  The documented contract of finalising a message under MAVLink 2: the payload bytes stay,
  the length becomes the trimmed length.
\<close>

definition finalizes :: "('x, 's, 'c) mavlink_lib \<Rightarrow> bool" where
  "finalizes lib \<longleftrightarrow> (\<forall>m sys comp st mn n crc.
     payload64 (fst (mavlink_finalize_message_buffer lib m sys comp st mn n crc)) = payload64 m
     \<and> len (fst (mavlink_finalize_message_buffer lib m sys comp st mn n crc))
         = mav_trim_payload lib (payload64 m) n)"

section \<open>A concrete library, for witnesses\<close>

text \<open>
  The constants are those of the MAVLink documentation. Each byte is a whole message whose
  id is the byte; trimming and finalising do what the contracts above say.
\<close>

fun trim_bytes :: "u8 list \<Rightarrow> nat \<Rightarrow> nat" where
  "trim_bytes p 0 = 0"
| "trim_bytes p (Suc n) = (if 0 < n \<and> p ! n = 0 then trim_bytes p n else Suc n)"

definition demo_msg :: "u32 \<Rightarrow> unit mavlink_message" where
  "demo_msg i = \<lparr>magic = 253, len = 3, incompat_flags = 0, seq = 0, sysid = 1, compid = 1,
     msgid = i, payload64 = [1, 2, 3] @ replicate 261 0, rest = ()\<rparr>"

definition demo_lib :: "(unit, unit, unit) mavlink_lib" where
  "demo_lib = \<lparr>
     MAVLINK_STX_MAVLINK1 = 254,
     MAVLINK_CORE_HEADER_MAVLINK1_LEN = 5,
     MAVLINK_CORE_HEADER_LEN = 9,
     MAVLINK_IFLAG_SIGNED = 1,
     MAVLINK_SIGNATURE_BLOCK_LEN = 13,
     MAVLINK_NUM_NON_PAYLOAD_BYTES = 12,
     MAVLINK_MAX_PACKET_LEN = 280,
     MAVLINK_MSG_ID_MEMINFO = 152,
     MAVLINK_MSG_ID_COMMAND_LONG = 76,
     MAVLINK_MSG_ID_PARAM_SET = 23,
     MAV_CMD_NAV_WAYPOINT = 16,
     MAV_CMD_DO_FENCE_ENABLE = 207,
     mav_trim_payload = (\<lambda>p n. of_nat (trim_bytes p (unat n))),
     mavlink_parse_char = (\<lambda>ch b c m s. (MAVLINK_FRAMING_OK, (), demo_msg (ucast b), ())),
     mavlink_finalize_message_buffer =
       (\<lambda>m sys comp st mn n crc. (m\<lparr>len := of_nat (trim_bytes (payload64 m) (unat n))\<rparr>, ())),
     mavlink_get_crc_extra = (\<lambda>m. 0),
     mavlink_msg_to_send_buffer = (\<lambda>m. [ucast (msgid m)]),
     mavlink_msg_command_long_decode = (\<lambda>m. \<lparr>command = 207, param1 = 0\<rparr>),
     mavlink_msg_param_set_decode = (\<lambda>m. \<lparr>param_id = replicate 16 0, param_value = 0\<rparr>),
     payload64_bytes = 264,
     zero_rest = (),
     zero_status = ()\<rparr>"

lemma trim_bytes_le: "trim_bytes p n \<le> n"
  by (induction p n rule: trim_bytes.induct) auto

lemma trim_bytes_zero: "trim_bytes p n \<le> i \<Longrightarrow> i < n \<Longrightarrow> p ! i = 0"
  by (induction p n rule: trim_bytes.induct) (auto simp: less_Suc_eq split: if_splits)

lemma trim_bytes_unat: "unat (of_nat (trim_bytes p (unat n)) :: u8) = trim_bytes p (unat (n :: u8))"
  using trim_bytes_le [of p "unat n"] unat_u8_less [of n]
  by (intro unat_of_nat_u8) linarith

lemma demo_lib_trims: "trims_zeros demo_lib"
proof -
  have keep: "trim_bytes p (unat n) = unat n" if "1 < n" "p ! (unat n - 1) \<noteq> 0" for p and n :: u8
    using that by (cases "unat n") (auto simp: word_less_nat_alt)
  have cut: "trim_bytes p (unat n) < unat n" if "1 < n" "p ! (unat n - 1) = 0" for p and n :: u8
    using that trim_bytes_le [of p "unat n - 1"]
    by (cases "unat n") (auto simp: word_less_nat_alt le_less_Suc_eq less_Suc_eq_le)
  have short: "trim_bytes p (unat n) = unat n" if "n \<le> 1" for p and n :: u8
    using that by (cases "unat n") (auto simp: word_le_nat_alt)
  then have "of_nat (trim_bytes p (unat n)) = n" if "n \<le> 1" for p and n :: u8
    using that by simp
  then show ?thesis
    using trim_bytes_le trim_bytes_zero keep cut
    by (auto simp: trims_zeros_def demo_lib_def word_le_nat_alt word_less_nat_alt trim_bytes_unat)
qed

lemma demo_lib_finalizes: "finalizes demo_lib"
  by (simp add: finalizes_def demo_lib_def)

section \<open>Bounds of the length\<close>

text \<open>
  The length the gateway computes for a message is at least the framing and at most
  header, 255 payload bytes, signature block and the three framing bytes.
\<close>

lemma mavlink_msg_length_bounds:
  assumes "trims_zeros lib"
    and "MAVLINK_CORE_HEADER_MAVLINK1_LEN lib \<le> MAVLINK_CORE_HEADER_LEN lib"
  shows "3 \<le> mavlink_msg_length lib m
    \<and> mavlink_msg_length lib m
        \<le> MAVLINK_CORE_HEADER_LEN lib + 255 + MAVLINK_SIGNATURE_BLOCK_LEN lib + 3"
proof -
  have "unat (mav_trim_payload lib (payload64 m) (len m)) \<le> unat (len m)"
    using assms(1) by (simp add: trims_zeros_def word_le_nat_alt [symmetric])
  moreover have "unat (len m) \<le> 255"
    by (rule unat_u8_le)
  ultimately show ?thesis
    using assms(2) by (auto simp: mavlink_msg_length_def)
qed

end
