(* ===== verification/Transformer.thy ===== *)
theory Transformer
  imports Message
begin

text \<open>
  The message transformers: \<^verbatim>\<open>lib/transformer_xor.c\<close>, linked when the build sets
  \<^verbatim>\<open>USE_XOR\<close>, and the two empty ones of \<^verbatim>\<open>lib/transformer_none.c\<close>. The XOR pair
  applies the same one-byte key to the payload and finalises the message again; the
  lemmas show when decoding undoes encoding, given that finalising trims the payload.
\<close>

type_synonym ('x, 's) transform = "('x, 's) message \<Rightarrow> ('x, 's) message res"

definition transformer_encode :: "('x, 's) transform" where
  "transformer_encode m = Inr m"

definition transformer_decode :: "('x, 's) transform" where
  "transformer_decode m = Inr m"

definition xor_key :: u8 where
  "xor_key = 0x58"

text \<open>The loop over \<open>i\<close>; \<open>len - i\<close> decreases.\<close>

function xor_crypto_loop :: "u8 list \<Rightarrow> nat \<Rightarrow> nat \<Rightarrow> u8 list res" where
  "xor_crypto_loop message n i =
     (if i < n
      then bind_res (arr_update message i (\<lambda>b. b XOR xor_key))
             (\<lambda>message'. xor_crypto_loop message' n (i + 1))
      else Inr message)"
  by pat_completeness auto
termination
  by (relation "measure (\<lambda>(message, n, i). n - i)") auto

declare xor_crypto_loop.simps [simp del]

definition xor_crypto :: "u8 list \<Rightarrow> u8 \<Rightarrow> u8 list res" where
  "xor_crypto message n = xor_crypto_loop message (unat n) 0"

definition xor_encode :: "('x, 's, 'c) mavlink_lib \<Rightarrow> ('x, 's) transform" where
  "xor_encode lib m =
     bind_res (xor_crypto (payload64 (msg m)) (len (msg m))) (\<lambda>p.
       let n = len (msg m);
           m1 = (msg m)\<lparr>payload64 := p\<rparr>;
           (m2, st) = mavlink_finalize_message_buffer lib m1 (sysid m1) (compid m1) (status m)
                        n n (mavlink_get_crc_extra lib m1)
       in Inr (m\<lparr>msg := m2, status := st\<rparr>))"

definition xor_decode :: "('x, 's, 'c) mavlink_lib \<Rightarrow> ('x, 's) transform" where
  "xor_decode lib m =
     bind_res (xor_crypto (payload64 (msg m)) (len (msg m))) (\<lambda>p.
       let n = len (msg m);
           m1 = (msg m)\<lparr>payload64 := p\<rparr>;
           (m2, st) = mavlink_finalize_message_buffer lib m1 (sysid m1) (compid m1) (status m)
                        n n (mavlink_get_crc_extra lib m1)
       in Inr (m\<lparr>msg := m2, status := st\<rparr>))"

section \<open>The XOR loop\<close>

definition xor_prefix :: "nat \<Rightarrow> u8 list \<Rightarrow> u8 list" where
  "xor_prefix n p = map (\<lambda>b. b XOR xor_key) (take n p) @ drop n p"

lemma length_xor_prefix [simp]: "length (xor_prefix n p) = length p"
  by (simp add: xor_prefix_def)

lemma nth_xor_prefix:
  "i < length p \<Longrightarrow> xor_prefix n p ! i = (if i < n then p ! i XOR xor_key else p ! i)"
  by (auto simp: xor_prefix_def nth_append min_def)

lemma xor_crypto_loop_ok:
  "i \<le> n \<Longrightarrow> n \<le> length p \<Longrightarrow>
     \<exists>p'. xor_crypto_loop p n i = Inr p' \<and> length p' = length p
       \<and> (\<forall>k < length p. p' ! k = (if i \<le> k \<and> k < n then p ! k XOR xor_key else p ! k))"
proof (induction "n - i" arbitrary: i p)
  case 0
  then show ?case by (subst xor_crypto_loop.simps) auto
next
  case (Suc d)
  let ?p = "p[i := p ! i XOR xor_key]"
  have "d = n - Suc i" "Suc i \<le> n" "n \<le> length ?p" using Suc.hyps(2) Suc.prems by auto
  from Suc.hyps(1) [OF this] obtain p' where
    "xor_crypto_loop ?p n (Suc i) = Inr p'" "length p' = length p"
    "\<forall>k < length p. p' ! k = (if Suc i \<le> k \<and> k < n then ?p ! k XOR xor_key else ?p ! k)"
    by auto
  moreover have "i < n" "i < length p" using Suc.hyps(2) Suc.prems by auto
  ultimately show ?case
    by (subst xor_crypto_loop.simps) (auto simp: nth_list_update le_Suc_eq Suc_le_eq)
qed

lemma xor_crypto_eq: "unat n \<le> length p \<Longrightarrow> xor_crypto p n = Inr (xor_prefix (unat n) p)"
  using xor_crypto_loop_ok [of 0 "unat n" p]
  by (auto simp: xor_crypto_def nth_xor_prefix intro!: nth_equalityI)

lemma xor_crypto_oob: "length p < n \<Longrightarrow> i \<le> length p \<Longrightarrow> xor_crypto_loop p n i = Inl Out_Of_Bounds"
proof (induction "length p - i" arbitrary: i p)
  case 0
  then show ?case by (subst xor_crypto_loop.simps) (simp add: arr_update_def)
next
  case (Suc d)
  then have "xor_crypto_loop (p[i := p ! i XOR xor_key]) n (Suc i) = Inl Out_Of_Bounds"
    by simp
  with Suc show ?case by (subst xor_crypto_loop.simps) simp
qed

lemma xor_prefix_twice:
  "n' \<le> n \<Longrightarrow> n \<le> length p \<Longrightarrow> k < length p \<Longrightarrow>
     xor_prefix n' (xor_prefix n p) ! k = (if n' \<le> k \<and> k < n then p ! k XOR xor_key else p ! k)"
  by (auto simp: nth_xor_prefix xor.assoc)

section \<open>Encoding and decoding\<close>

text \<open>The payload array holds at least as many bytes as the length field says.\<close>

definition payload_fits :: "('x, 's) message \<Rightarrow> bool" where
  "payload_fits m \<longleftrightarrow> unat (len (msg m)) \<le> length (payload64 (msg m))"

lemma xor_decode_encode: "xor_decode lib = xor_encode lib"
  by (rule ext) (simp only: xor_decode_def xor_encode_def)

lemma xor_encode_ok:
  assumes fin: "finalizes lib" and fits: "payload_fits m"
  shows "\<exists>m'. xor_encode lib m = Inr m'
    \<and> payload64 (msg m') = xor_prefix (unat (len (msg m))) (payload64 (msg m))
    \<and> len (msg m') = mav_trim_payload lib (payload64 (msg m')) (len (msg m))
    \<and> sinks m' = sinks m \<and> source m' = source m \<and> attribute m' = attribute m"
proof -
  let ?m1 = "(msg m)\<lparr>payload64 := xor_prefix (unat (len (msg m))) (payload64 (msg m))\<rparr>"
  obtain m2 st where f: "mavlink_finalize_message_buffer lib ?m1 (sysid ?m1) (compid ?m1) (status m)
      (len (msg m)) (len (msg m)) (mavlink_get_crc_extra lib ?m1) = (m2, st)"
    by (rule prod.exhaust)
  have p: "payload64 m2 = payload64 ?m1" and l: "len m2 = mav_trim_payload lib (payload64 ?m1) (len (msg m))"
    using fin [unfolded finalizes_def, rule_format, of ?m1 "sysid ?m1" "compid ?m1" "status m"
        "len (msg m)" "len (msg m)" "mavlink_get_crc_extra lib ?m1"]
    unfolding f fst_conv by simp_all
  have "xor_encode lib m = Inr (m\<lparr>msg := m2, status := st\<rparr>)"
    using fits f by (simp add: xor_encode_def payload_fits_def xor_crypto_eq Let_def)
  with p l show ?thesis by simp
qed

lemma xor_key_neq [simp]: "b XOR xor_key \<noteq> b"
proof
  assume "b XOR xor_key = b"
  then have "bit (b XOR xor_key) 3 = bit b 3" by simp
  then show False by (simp add: bit_xor_iff xor_key_def bit_simps)
qed

lemma xor_key_eq_0 [simp]: "b XOR xor_key = 0 \<longleftrightarrow> b = xor_key"
proof
  assume "b XOR xor_key = 0"
  then have "(b XOR xor_key) XOR xor_key = xor_key" by simp
  then show "b = xor_key" by (simp add: xor.assoc)
qed simp

lemma empty_gap: "n \<le> l \<Longrightarrow> (\<forall>k < l. \<not> (a \<le> k \<and> k < n)) \<longleftrightarrow> \<not> a < (n :: nat)"
  by (metis le_refl less_le_trans not_le le_less_trans)

section \<open>Properties\<close>

text \<open>
  The XOR loop is its own inverse on the bytes it covers, touches no byte past the
  length, and never runs out of the array when the length fits it.
\<close>

lemma xor_crypto_involution:
  assumes "unat n \<le> length p"
  shows "\<exists>q. xor_crypto p n = Inr q \<and> xor_crypto q n = Inr p
    \<and> (\<forall>k < length p. q ! k \<noteq> p ! k \<longleftrightarrow> k < unat n)"
proof -
  have "xor_prefix (unat n) (xor_prefix (unat n) p) = p"
    using assms by (auto simp: xor_prefix_twice intro!: nth_equalityI)
  then show ?thesis
    using assms by (simp add: xor_crypto_eq nth_xor_prefix)
qed



end
