(* ===== verification/Perf.thy ===== *)
theory Perf
  imports Ports Message
begin

text \<open>
  Performance accounting of \<^verbatim>\<open>lib/secure_gateway.h\<close> and \<^verbatim>\<open>lib/secure_gateway.c\<close>: counters per
  port and for the loop, their update per message, the windowed queries and the periodic
  report \<^verbatim>\<open>perf_show\<close>. All counters are 64-bit words and wrap. The lemmas show what the
  drop counter measures, that queries partition the totals, and that the report divides
  by zero on no reachable state.
\<close>

section \<open>State\<close>

datatype perf_port_unit_type = PERF_PORT_UNIT_TYPE_SOURCE | PERF_PORT_UNIT_TYPE_SINK

fun perf_unit_index :: "perf_port_unit_type \<Rightarrow> nat" where
  "perf_unit_index PERF_PORT_UNIT_TYPE_SOURCE = 0"
| "perf_unit_index PERF_PORT_UNIT_TYPE_SINK = 1"

definition MAX_PERF_PORT_UNIT_TYPES :: nat where
  "MAX_PERF_PORT_UNIT_TYPES = 2"

definition MAX_PERF_PORT_UNITS :: nat where
  "MAX_PERF_PORT_UNITS = 4"

record perf_port_unit_result =
  r_duration :: u64
  r_succ_count :: u64
  r_drop_count :: u64
  r_succ_bytes :: u64

record perf_port_unit =
  prev_seq :: u8
  succ_count :: u64
  drop_count :: u64
  succ_bytes :: u64
  last_succ_count :: u64
  last_drop_count :: u64
  last_succ_bytes :: u64
  last_query :: u64

record perf_exec_unit_result =
  x_duration :: u64
  x_count :: u64
  x_load_us :: u64

record perf_exec_unit =
  total :: u64
  load_us :: u64
  last_total :: u64
  last_load_us :: u64
  exec_last_query :: u64

record perf_result =
  select :: "bool list list"
  res_port_units :: "perf_port_unit_result list list"
  res_exec_unit :: perf_exec_unit_result

record perf =
  port_units :: "perf_port_unit list list"
  exec_unit :: perf_exec_unit

section \<open>Operations\<close>

definition zero_port_unit :: perf_port_unit where
  "zero_port_unit = \<lparr>prev_seq = 0, succ_count = 0, drop_count = 0, succ_bytes = 0,
     last_succ_count = 0, last_drop_count = 0, last_succ_bytes = 0, last_query = 0\<rparr>"

definition zero_exec_unit :: perf_exec_unit where
  "zero_exec_unit = \<lparr>total = 0, load_us = 0, last_total = 0, last_load_us = 0, exec_last_query = 0\<rparr>"

definition perf_init :: perf where
  "perf_init = \<lparr>port_units = replicate MAX_PERF_PORT_UNIT_TYPES
                  (replicate MAX_PERF_PORT_UNITS zero_port_unit),
                exec_unit = zero_exec_unit\<rparr>"

text \<open>The lvalue \<^verbatim>\<open>perf->port_units[unit][id]\<close>.\<close>

definition port_unit_get :: "perf \<Rightarrow> nat \<Rightarrow> nat \<Rightarrow> perf_port_unit res" where
  "port_unit_get p j i = bind_res (arr_get (port_units p) j) (\<lambda>row. arr_get row i)"

definition port_unit_put :: "perf \<Rightarrow> nat \<Rightarrow> nat \<Rightarrow> perf_port_unit \<Rightarrow> perf res" where
  "port_unit_put p j i u =
     bind_res (arr_get (port_units p) j) (\<lambda>row.
     bind_res (arr_put row i u) (\<lambda>row'.
     bind_res (arr_put (port_units p) j row') (\<lambda>rows. Inr (p\<lparr>port_units := rows\<rparr>))))"

text \<open>
  The two branches of the update. \<open>drop_count\<close> is a C \<^verbatim>\<open>int\<close>: the 8-bit sequence numbers
  are promoted before the subtraction, and the result is added to a 64-bit counter.
\<close>

definition seq_drops :: "u8 \<Rightarrow> u8 \<Rightarrow> int" where
  "seq_drops new_seq prev =
     (let drops = uint new_seq - uint prev - 1 in if drops < 0 then 256 + drops else drops)"

definition update_source_unit ::
  "('x, 's, 'c) mavlink_lib \<Rightarrow> ('x, 's) message \<Rightarrow> perf_port_unit \<Rightarrow> perf_port_unit" where
  "update_source_unit lib m u =
     (let drops = (if compid (msg m) = 1 then seq_drops (seq (msg m)) (prev_seq u) else 0);
          u1 = (if compid (msg m) = 1 then u\<lparr>prev_seq := seq (msg m)\<rparr> else u)
      in u1\<lparr>succ_count := succ_count u1 + 1,
            drop_count := drop_count u1 + of_int drops,
            succ_bytes := succ_bytes u1
              + (ucast (len (msg m)) + of_nat (MAVLINK_NUM_NON_PAYLOAD_BYTES lib))\<rparr>)"

definition update_sink_unit ::
  "('x, 's, 'c) mavlink_lib \<Rightarrow> ('x, 's) message \<Rightarrow> perf_port_unit \<Rightarrow> perf_port_unit" where
  "update_sink_unit lib m u =
     u\<lparr>succ_count := succ_count u + 1,
       succ_bytes := succ_bytes u
         + (ucast (len (msg m)) + of_nat (MAVLINK_NUM_NON_PAYLOAD_BYTES lib))\<rparr>"

definition perf_port_unit_update ::
  "('x, 's, 'c) mavlink_lib \<Rightarrow> perf \<Rightarrow> perf_port_unit_type \<Rightarrow> nat \<Rightarrow> ('x, 's) message \<Rightarrow> perf res" where
  "perf_port_unit_update lib p unit i m =
     (case unit of
        PERF_PORT_UNIT_TYPE_SOURCE \<Rightarrow> assert_that (i \<le> MAX_SOURCES)
          (bind_res (port_unit_get p (perf_unit_index unit) i) (\<lambda>u.
             port_unit_put p (perf_unit_index unit) i (update_source_unit lib m u)))
      | PERF_PORT_UNIT_TYPE_SINK \<Rightarrow> assert_that (i \<le> MAX_SINKS)
          (bind_res (port_unit_get p (perf_unit_index unit) i) (\<lambda>u.
             port_unit_put p (perf_unit_index unit) i (update_sink_unit lib m u))))"

definition query_unit :: "u64 \<Rightarrow> perf_port_unit \<Rightarrow> perf_port_unit_result \<times> perf_port_unit" where
  "query_unit now u =
     (\<lparr>r_duration = now - last_query u,
       r_succ_count = succ_count u - last_succ_count u,
       r_drop_count = drop_count u - last_drop_count u,
       r_succ_bytes = succ_bytes u - last_succ_bytes u\<rparr>,
      u\<lparr>last_query := now,
        last_succ_count := succ_count u,
        last_drop_count := drop_count u,
        last_succ_bytes := succ_bytes u\<rparr>)"

definition perf_port_unit_query ::
  "perf \<Rightarrow> nat \<Rightarrow> nat \<Rightarrow> u64 \<Rightarrow> (perf_port_unit_result \<times> perf) res" where
  "perf_port_unit_query p j i now =
     bind_res (port_unit_get p j i) (\<lambda>u.
     bind_res (port_unit_put p j i (snd (query_unit now u))) (\<lambda>p'.
       Inr (fst (query_unit now u), p')))"

definition update_exec :: "u64 \<Rightarrow> bool \<Rightarrow> perf_exec_unit \<Rightarrow> perf_exec_unit" where
  "update_exec duration has_load e =
     (let e1 = e\<lparr>total := total e + 1\<rparr>
      in if has_load then e1\<lparr>load_us := load_us e1 + duration\<rparr> else e1)"

definition perf_exec_unit_update :: "perf \<Rightarrow> u64 \<Rightarrow> bool \<Rightarrow> perf" where
  "perf_exec_unit_update p duration has_load =
     p\<lparr>exec_unit := update_exec duration has_load (exec_unit p)\<rparr>"

definition query_exec :: "u64 \<Rightarrow> perf_exec_unit \<Rightarrow> perf_exec_unit_result \<times> perf_exec_unit" where
  "query_exec now e =
     (\<lparr>x_duration = now - exec_last_query e,
       x_count = total e - last_total e,
       x_load_us = load_us e - last_load_us e\<rparr>,
      e\<lparr>exec_last_query := now, last_total := total e, last_load_us := load_us e\<rparr>)"

definition perf_exec_unit_query :: "perf \<Rightarrow> u64 \<Rightarrow> perf_exec_unit_result \<times> perf" where
  "perf_exec_unit_query p now =
     (fst (query_exec now (exec_unit p)),
      p\<lparr>exec_unit := snd (query_exec now (exec_unit p))\<rparr>)"

section \<open>The periodic report\<close>

text \<open>
  The report's static data: the time of the last report and the results of the queries.
  What \<^verbatim>\<open>pipeline_log_printf\<close> prints is a list of lines holding the printed values.
\<close>

record perf_show_state =
  show_last :: u64
  perf_results :: perf_result

datatype perf_line =
    Port_Line string string u64 u64 u64 u64 u64 u64
  | Gateway_Line u64 u64 u64

definition zero_port_result :: perf_port_unit_result where
  "zero_port_result = \<lparr>r_duration = 0, r_succ_count = 0, r_drop_count = 0, r_succ_bytes = 0\<rparr>"

definition perf_results_init :: perf_result where
  "perf_results_init = \<lparr>
     select = [(replicate MAX_PERF_PORT_UNITS False)[source_index SOURCE_TYPE_VMC := True],
               (replicate MAX_PERF_PORT_UNITS False)[sink_index SINK_TYPE_VMC := True]],
     res_port_units = replicate MAX_PERF_PORT_UNIT_TYPES (replicate MAX_PERF_PORT_UNITS zero_port_result),
     res_exec_unit = \<lparr>x_duration = 0, x_count = 0, x_load_us = 0\<rparr>\<rparr>"

definition perf_show_init :: perf_show_state where
  "perf_show_init = \<lparr>show_last = 0, perf_results = perf_results_init\<rparr>"

definition udiv :: "u64 \<Rightarrow> u64 \<Rightarrow> u64 res" where
  "udiv a b = (if b = 0 then Inl Div_By_Zero else Inr (a div b))"

definition get2 :: "'a list list \<Rightarrow> nat \<Rightarrow> nat \<Rightarrow> 'a res" where
  "get2 a j i = bind_res (arr_get a j) (\<lambda>row. arr_get row i)"

definition put2 :: "'a list list \<Rightarrow> nat \<Rightarrow> nat \<Rightarrow> 'a \<Rightarrow> 'a list list res" where
  "put2 a j i x = bind_res (arr_get a j) (\<lambda>row.
     bind_res (arr_put row i x) (\<lambda>row'. arr_put a j row'))"

text \<open>The visiting order of both loops: units outside, unit types inside.\<close>

definition show_order :: "(nat \<times> nat) list" where
  "show_order = concat (map (\<lambda>i. map (\<lambda>j. (i, j)) [0 ..< MAX_PERF_PORT_UNIT_TYPES])
                         [0 ..< MAX_PERF_PORT_UNITS])"

fun show_queries :: "u64 \<Rightarrow> (nat \<times> nat) list \<Rightarrow> perf \<Rightarrow> perf_result \<Rightarrow> (perf \<times> perf_result) res" where
  "show_queries now [] p r = Inr (p, r)"
| "show_queries now ((i, j) # ijs) p r =
     bind_res (get2 (select r) j i) (\<lambda>selected.
       if \<not> selected then show_queries now ijs p r
       else bind_res (perf_port_unit_query p j i now) (\<lambda>(q, p').
            bind_res (put2 (res_port_units r) j i q) (\<lambda>rs.
              show_queries now ijs p' (r\<lparr>res_port_units := rs\<rparr>))))"

definition port_line :: "perf \<Rightarrow> perf_result \<Rightarrow> nat \<Rightarrow> nat \<Rightarrow> perf_line res" where
  "port_line p r j i =
     bind_res (get2 (res_port_units r) j i) (\<lambda>q.
     bind_res (port_unit_get p j i) (\<lambda>u.
     bind_res (get2 (select r) 0 i) (\<lambda>selected.
       let total_count = r_succ_count q + r_drop_count q;
           duration = r_duration q
       in bind_res (udiv (r_succ_count q * 1000000) duration) (\<lambda>rate.
          bind_res (udiv (r_succ_bytes q * 1000000) duration) (\<lambda>brate.
          bind_res (if total_count = 0 then Inr 0 else udiv (r_drop_count q * 100) total_count) (\<lambda>loss.
          bind_res (if total_count = 0 then Inr 0 else udiv (r_drop_count q * 10000) total_count) (\<lambda>loss100.
            Inr (Port_Line
              (if j = perf_unit_index PERF_PORT_UNIT_TYPE_SOURCE then source_name i
               else if selected then [] else sink_name i)
              (if j = perf_unit_index PERF_PORT_UNIT_TYPE_SOURCE then ''down'' else ''up'')
              (succ_count u) (drop_count u) rate brate loss (loss100 mod 100)))))))))"

fun show_lines :: "(nat \<times> nat) list \<Rightarrow> perf \<Rightarrow> perf_result \<Rightarrow> perf_line list res" where
  "show_lines [] p r = Inr []"
| "show_lines ((i, j) # ijs) p r =
     bind_res (get2 (select r) j i) (\<lambda>selected.
       if \<not> selected then show_lines ijs p r
       else bind_res (port_line p r j i) (\<lambda>l.
            bind_res (show_lines ijs p r) (\<lambda>ls. Inr (l # ls))))"

definition gateway_line :: "perf_result \<Rightarrow> perf_line res" where
  "gateway_line r =
     (let q = res_exec_unit r
      in bind_res (udiv (x_count q * 1000000) (x_duration q)) (\<lambda>lps.
         bind_res (udiv (x_load_us q * 100) (x_duration q)) (\<lambda>load.
         bind_res (udiv (x_load_us q * 100000) (x_duration q)) (\<lambda>load1000.
           Inr (Gateway_Line lps load (load1000 mod 1000))))))"

definition perf_show ::
  "perf \<Rightarrow> perf_show_state \<Rightarrow> u64 \<Rightarrow> (perf_line list \<times> perf \<times> perf_show_state) res" where
  "perf_show p st now =
     (if now - show_last st < 5000000 then Inr ([], p, st)
      else bind_res (show_queries now show_order p (perf_results st)) (\<lambda>(p1, r1).
        let (x, p2) = perf_exec_unit_query p1 now;
            r2 = r1\<lparr>res_exec_unit := x\<rparr>
        in bind_res (show_lines show_order p2 r2) (\<lambda>lines.
           bind_res (gateway_line r2) (\<lambda>l.
             Inr (lines @ [l], p2, \<lparr>show_last = now, perf_results = r2\<rparr>)))))"

section \<open>Windowed counters\<close>

text \<open>
  A counter with a mark: a query reports the distance from the mark and moves the mark;
  other updates leave the mark alone. The reports of any run of updates (\<open>Inl\<close>) and
  queries (\<open>Inr\<close>) then partition the counter.
\<close>

fun run_windows ::
  "(u64 \<Rightarrow> 's \<Rightarrow> 'r \<times> 's) \<Rightarrow> ('e \<Rightarrow> 's \<Rightarrow> 's) \<Rightarrow> ('e + u64) list \<Rightarrow> 's \<Rightarrow> 'r list \<times> 's" where
  "run_windows query update [] s = ([], s)"
| "run_windows query update (Inl e # es) s = run_windows query update es (update e s)"
| "run_windows query update (Inr now # es) s =
     (fst (query now s) # fst (run_windows query update es (snd (query now s))),
      snd (run_windows query update es (snd (query now s))))"

locale windowed_counter =
  fixes cur :: "'s \<Rightarrow> u64"
    and mark :: "'s \<Rightarrow> u64"
    and report :: "'r \<Rightarrow> u64"
    and query :: "u64 \<Rightarrow> 's \<Rightarrow> 'r \<times> 's"
    and update :: "'e \<Rightarrow> 's \<Rightarrow> 's"
  assumes report_query: "report (fst (query now s)) = cur s - mark s"
    and mark_query: "mark (snd (query now s)) = cur s"
    and cur_query: "cur (snd (query now s)) = cur s"
    and mark_update: "mark (update e s) = mark s"
begin

lemma reports_partition:
  "sum_list (map report (fst (run_windows query update es s))) + mark s
     = mark (snd (run_windows query update es s))"
proof (induction es arbitrary: s)
  case (Cons e es)
  show ?case
  proof (cases e)
    case (Inl a)
    then show ?thesis using Cons.IH [of "update a s"] by (simp add: mark_update)
  next
    case (Inr now)
    then show ?thesis
      using Cons.IH [of "snd (query now s)"] by (simp add: mark_query report_query algebra_simps)
  qed
qed simp

lemma closed_window:
  "mark (snd (run_windows query update (es @ [Inr now]) s))
     = cur (snd (run_windows query update (es @ [Inr now]) s))"
proof (induction es arbitrary: s)
  case (Cons e es)
  then show ?case by (cases e) simp_all
qed (simp add: mark_query cur_query)

lemma reports_total:
  "sum_list (map report (fst (run_windows query update (es @ [Inr now]) s))) + mark s
     = cur (snd (run_windows query update (es @ [Inr now]) s))"
  by (simp only: reports_partition closed_window)

end

interpretation succ_w: windowed_counter succ_count last_succ_count r_succ_count query_unit
  "update_source_unit lib"
  by unfold_locales (simp_all add: query_unit_def update_source_unit_def Let_def)

interpretation drop_w: windowed_counter drop_count last_drop_count r_drop_count query_unit
  "update_source_unit lib"
  by unfold_locales (simp_all add: query_unit_def update_source_unit_def Let_def)

interpretation bytes_w: windowed_counter succ_bytes last_succ_bytes r_succ_bytes query_unit
  "update_source_unit lib"
  by unfold_locales (simp_all add: query_unit_def update_source_unit_def Let_def)

interpretation sink_succ_w: windowed_counter succ_count last_succ_count r_succ_count query_unit
  "update_sink_unit lib"
  by unfold_locales (simp_all add: query_unit_def update_sink_unit_def)

interpretation exec_w: windowed_counter load_us last_load_us x_load_us query_exec
  "\<lambda>(duration, has_load). update_exec duration has_load"
  by unfold_locales (auto simp: query_exec_def update_exec_def Let_def)

section \<open>The drop counter\<close>

lemma wrap_difference:
  assumes "0 \<le> a" "a < 256" "0 \<le> b" "b < (256 :: int)"
  shows "(a - b - 1) mod 256 = (if a - b - 1 < 0 then 256 + (a - b - 1) else a - b - 1)"
proof (cases "a - b - 1 < 0")
  case True
  have "(a - b - 1) mod 256 = (256 + (a - b - 1)) mod 256" by (simp only: mod_add_self1)
  also have "\<dots> = 256 + (a - b - 1)"
    using assms True by (intro mod_pos_pos_trivial) auto
  finally show ?thesis using True by simp
next
  case False
  then show ?thesis using assms by (simp add: mod_pos_pos_trivial)
qed

lemma drop_as_word: "(of_int (seq_drops s p) :: u64) = ucast (s - p - 1)"
proof -
  have "uint (s - p - 1) = (uint s - uint p - 1) mod 256"
    by (simp add: uint_word_ariths mod_simps)
  also have "\<dots> = seq_drops s p"
    unfolding seq_drops_def Let_def
    using unsigned_less [of s, where 'a = int] unsigned_less [of p, where 'a = int]
    by (intro wrap_difference) simp_all
  finally have eq: "uint (s - p - 1) = seq_drops s p" .
  show ?thesis unfolding eq [symmetric] by (simp only: ucast_eq)
qed

lemma low_byte: "x mod 18446744073709551616 mod 256 = x mod (256 :: int)"
  by (rule mod_mod_cancel) simp

text \<open>Truncation to eight bits is additive.\<close>

lemma ucast_u8_add: "(ucast (a + b :: u64) :: u8) = ucast a + ucast b"
proof -
  have "(x mod 18446744073709551616 + y mod 18446744073709551616) mod 256 = (x + y) mod 256"
    for x y :: int
    by (metis (no_types) low_byte mod_add_eq)
  then show ?thesis by transfer (simp add: take_bit_eq_mod mod_simps mod_mod_cancel)
qed

lemma ucast_u8_u64 [simp]: "(ucast (ucast w :: u64) :: u8) = w" for w :: u8
  by transfer simp

lemma update_source_unit_simps:
  "succ_count (update_source_unit lib m u) = succ_count u + 1"
  "prev_seq (update_source_unit lib m u) = (if compid (msg m) = 1 then seq (msg m) else prev_seq u)"
  "drop_count (update_source_unit lib m u)
     = (if compid (msg m) = 1 then drop_count u + ucast (seq (msg m) - prev_seq u - 1) else drop_count u)"
  by (simp_all add: update_source_unit_def Let_def drop_as_word)

lemma drop_step:
  "compid (msg m) = 1 \<Longrightarrow>
     ucast (succ_count (update_source_unit lib m u) + drop_count (update_source_unit lib m u))
       - prev_seq (update_source_unit lib m u)
     = (ucast (succ_count u + drop_count u) - prev_seq u :: u8)"
  by (simp add: update_source_unit_simps ucast_u8_add)

lemma drop_run:
  "\<forall>m \<in> set ms. compid (msg m) = 1 \<Longrightarrow>
     ucast (succ_count (fold (update_source_unit lib) ms u)
          + drop_count (fold (update_source_unit lib) ms u))
       - prev_seq (fold (update_source_unit lib) ms u)
     = (ucast (succ_count u + drop_count u) - prev_seq u :: u8)"
  by (induction ms arbitrary: u) (simp_all add: drop_step)

section \<open>Shape of the tables\<close>

definition perf_wf :: "perf \<Rightarrow> bool" where
  "perf_wf p \<longleftrightarrow> length (port_units p) = MAX_PERF_PORT_UNIT_TYPES
     \<and> (\<forall>row \<in> set (port_units p). length row = MAX_PERF_PORT_UNITS)"

lemma perf_sizes [simp]: "MAX_PERF_PORT_UNIT_TYPES = 2" "MAX_PERF_PORT_UNITS = 4"
  by (simp_all add: MAX_PERF_PORT_UNIT_TYPES_def MAX_PERF_PORT_UNITS_def)

lemma perf_unit_index_less [simp]: "perf_unit_index j < 2"
  by (cases j) simp_all

lemma perf_wf_init [wf_intros]: "perf_wf perf_init"
  by (simp add: perf_wf_def perf_init_def)

lemma port_unit_put_wf:
  assumes "perf_wf p" "j < 2" "i < 4"
  shows "port_unit_put p j i u = Inr (p\<lparr>port_units := (port_units p)[j := (port_units p ! j)[i := u]]\<rparr>)"
    and "perf_wf (p\<lparr>port_units := (port_units p)[j := (port_units p ! j)[i := u]]\<rparr>)"
  using assms by (auto simp: port_unit_put_def perf_wf_def dest!: set_update_subset_insert [THEN subsetD])

lemma port_unit_get_wf:
  "perf_wf p \<Longrightarrow> j < 2 \<Longrightarrow> i < 4 \<Longrightarrow> port_unit_get p j i = Inr (port_units p ! j ! i)"
  by (simp add: port_unit_get_def perf_wf_def)

lemma port_unit_get_oob:
  "perf_wf p \<Longrightarrow> j < 2 \<Longrightarrow> 4 \<le> i \<Longrightarrow> port_unit_get p j i = Inl Out_Of_Bounds"
  by (simp add: port_unit_get_def perf_wf_def)

lemma perf_port_unit_update_ok:
  "perf_wf p \<Longrightarrow> i < 4 \<Longrightarrow>
     \<exists>p'. perf_port_unit_update lib p unit i m = Inr p' \<and> perf_wf p' \<and> exec_unit p' = exec_unit p"
  by (cases unit) (simp_all add: perf_port_unit_update_def port_unit_get_wf port_unit_put_wf)

lemma perf_exec_unit_update_wf [wf_intros]: "perf_wf p \<Longrightarrow> perf_wf (perf_exec_unit_update p d b)"
  by (simp add: perf_wf_def perf_exec_unit_update_def)

section \<open>Safety of the report\<close>

text \<open>
  What holds between the static data of \<^verbatim>\<open>perf_show\<close> and the counters: the selection is the
  initial one, and the units it queries were last queried when the last report was made.
\<close>

definition perf_show_ok :: "perf \<Rightarrow> perf_show_state \<Rightarrow> bool" where
  "perf_show_ok p st \<longleftrightarrow> perf_wf p
     \<and> select (perf_results st) = select perf_results_init
     \<and> length (res_port_units (perf_results st)) = 2
     \<and> (\<forall>row \<in> set (res_port_units (perf_results st)). length row = 4)
     \<and> last_query (port_units p ! 0 ! 1) = show_last st
     \<and> last_query (port_units p ! 1 ! 1) = show_last st
     \<and> exec_last_query (exec_unit p) = show_last st"

lemma perf_show_ok_init: "perf_show_ok perf_init perf_show_init"
proof -
  have "last_query (port_units perf_init ! 0 ! 1) = 0" "last_query (port_units perf_init ! 1 ! 1) = 0"
    "exec_last_query (exec_unit perf_init) = 0"
    by (simp_all add: perf_init_def zero_port_unit_def zero_exec_unit_def)
  then show ?thesis
    by (simp add: perf_show_ok_def perf_wf_init perf_show_init_def perf_results_init_def)
qed

lemma perf_show_ok_update:
  assumes "perf_show_ok p st" "i < 4"
  shows "\<exists>p'. perf_port_unit_update lib p unit i m = Inr p' \<and> perf_show_ok p' st"
proof -
  have wf: "perf_wf p" using assms(1) by (simp add: perf_show_ok_def)
  have len: "length (port_units p) = 2" "length (port_units p ! 0) = 4" "length (port_units p ! 1) = 4"
    using wf by (auto simp: perf_wf_def)
  have [simp]: "last_query (update_source_unit lib m u) = last_query u"
      "last_query (update_sink_unit lib m u) = last_query u" for u
    by (simp_all add: update_source_unit_def update_sink_unit_def Let_def)
  show ?thesis
  proof (cases unit)
    case PERF_PORT_UNIT_TYPE_SOURCE
    with assms wf len port_unit_put_wf(2) [OF wf, of 0 i] show ?thesis
      by (auto simp: perf_port_unit_update_def port_unit_get_wf port_unit_put_wf(1) perf_show_ok_def
          nth_list_update)
  next
    case PERF_PORT_UNIT_TYPE_SINK
    with assms wf len port_unit_put_wf(2) [OF wf, of 1 i] show ?thesis
      by (auto simp: perf_port_unit_update_def port_unit_get_wf port_unit_put_wf(1) perf_show_ok_def
          nth_list_update)
  qed
qed

lemma perf_show_ok_exec_update: "perf_show_ok p st \<Longrightarrow> perf_show_ok (perf_exec_unit_update p d b) st"
  by (simp add: perf_show_ok_def perf_wf_def perf_exec_unit_update_def update_exec_def Let_def)

lemma show_order_eq:
  "show_order = [(0, 0), (0, 1), (1, 0), (1, 1), (2, 0), (2, 1), (3, 0), (3, 1)]"
  by (simp add: show_order_def upt_rec)

lemma get2_select:
  "select r = select perf_results_init \<Longrightarrow> i < 4 \<Longrightarrow> j < 2 \<Longrightarrow> get2 (select r) j i = Inr (i = 1)"
  by (auto simp: get2_def perf_results_init_def less_Suc_eq numeral_2_eq_2 nth_Cons'
      nth_list_update split: if_splits)

lemma perf_port_unit_query_ok:
  assumes "perf_wf p" "j < 2"
  shows "perf_port_unit_query p j 1 now
    = Inr (fst (query_unit now (port_units p ! j ! 1)),
           p\<lparr>port_units := (port_units p)[j := (port_units p ! j)[1 := snd (query_unit now (port_units p ! j ! 1))]]\<rparr>)"
  using assms by (simp add: perf_port_unit_query_def port_unit_get_wf port_unit_put_wf(1))

lemma put2_ok:
  "length rs = 2 \<Longrightarrow> \<forall>row \<in> set rs. length row = 4 \<Longrightarrow> j < 2 \<Longrightarrow>
     put2 rs j 1 q = Inr (rs[j := (rs ! j)[1 := q]])"
  by (simp add: put2_def)

definition queried :: "u64 \<Rightarrow> nat \<Rightarrow> perf \<Rightarrow> perf" where
  "queried now j p =
     p\<lparr>port_units := (port_units p)[j := (port_units p ! j)[1 := snd (query_unit now (port_units p ! j ! 1))]]\<rparr>"

lemma perf_wf_queried [wf_intros]: "perf_wf p \<Longrightarrow> j < 2 \<Longrightarrow> perf_wf (queried now j p)"
  using port_unit_put_wf(2) [of p j 1] by (simp add: queried_def)

lemma port_units_queried:
  "perf_wf p \<Longrightarrow> j < 2 \<Longrightarrow> k < 2 \<Longrightarrow>
     port_units (queried now j p) ! k ! 1
       = (if k = j then snd (query_unit now (port_units p ! j ! 1)) else port_units p ! k ! 1)"
  by (auto simp: queried_def perf_wf_def nth_list_update)

lemma show_queries_ok:
  fixes now :: u64
  assumes ok: "perf_show_ok p st"
  defines "p1 \<equiv> queried now 0 p"
  defines "p2 \<equiv> queried now 1 p1"
  defines "rs \<equiv> res_port_units (perf_results st)"
  defines "rs1 \<equiv> rs[0 := (rs ! 0)[1 := fst (query_unit now (port_units p ! 0 ! 1))]]"
  defines "rs2 \<equiv> rs1[1 := (rs1 ! 1)[1 := fst (query_unit now (port_units p1 ! 1 ! 1))]]"
  shows "show_queries now show_order p (perf_results st)
      = Inr (p2, (perf_results st)\<lparr>res_port_units := rs2\<rparr>)
    \<and> length rs2 = 2 \<and> (\<forall>row \<in> set rs2. length row = 4)
    \<and> rs2 ! 0 ! 1 = fst (query_unit now (port_units p ! 0 ! 1))
    \<and> rs2 ! 1 ! 1 = fst (query_unit now (port_units p ! 1 ! 1))"
proof -
  have wf: "perf_wf p" and sel: "select (perf_results st) = select perf_results_init"
    and rs: "length rs = 2" "\<forall>row \<in> set rs. length row = 4"
    using ok by (simp_all add: perf_show_ok_def rs_def)
  have wf1: "perf_wf p1" using wf by (simp add: p1_def perf_wf_queried)
  have rs1: "length rs1 = 2" "\<forall>row \<in> set rs1. length row = 4"
    using rs by (auto simp: rs1_def dest!: set_update_subset_insert [THEN subsetD])
  have rs2: "length rs2 = 2" "\<forall>row \<in> set rs2. length row = 4"
    using rs1 by (auto simp: rs2_def dest!: set_update_subset_insert [THEN subsetD])
  have sel': "\<And>r'. get2 (select ((perf_results st)\<lparr>res_port_units := r'\<rparr>)) j i = Inr (i = 1)"
    and sel0: "get2 (select (perf_results st)) j i = Inr (i = 1)" if "i < 4" "j < 2" for i j
    using sel that by (simp_all add: get2_select)
  have q0: "perf_port_unit_query p 0 1 now = Inr (fst (query_unit now (port_units p ! 0 ! 1)), p1)"
    and q1: "perf_port_unit_query p1 1 1 now = Inr (fst (query_unit now (port_units p1 ! 1 ! 1)), p2)"
    using perf_port_unit_query_ok [OF wf, of 0] perf_port_unit_query_ok [OF wf1, of 1]
    by (simp_all add: p1_def p2_def queried_def)
  have w0: "put2 rs 0 1 (fst (query_unit now (port_units p ! 0 ! 1))) = Inr rs1"
    and w1: "put2 rs1 1 1 (fst (query_unit now (port_units p1 ! 1 ! 1))) = Inr rs2"
    using put2_ok [OF rs, of 0] put2_ok [OF rs1, of 1] by (simp_all add: rs1_def rs2_def)
  have "show_queries now show_order p (perf_results st)
      = Inr (p2, (perf_results st)\<lparr>res_port_units := rs2\<rparr>)"
    using q0 q1 w0 w1
    by (simp add: show_order_eq sel' sel0 flip: rs_def)
  moreover have "rs2 ! 0 ! 1 = fst (query_unit now (port_units p ! 0 ! 1))"
    "rs2 ! 1 ! 1 = fst (query_unit now (port_units p ! 1 ! 1))"
    using rs rs1 port_units_queried [OF wf, of 0 1 now] by (auto simp: rs1_def rs2_def p1_def)
  ultimately show ?thesis using rs2 by blast
qed

lemma udiv_ok [simp]: "b \<noteq> 0 \<Longrightarrow> udiv a b = Inr (a div b)"
  by (simp add: udiv_def)

lemma port_line_ok:
  assumes "perf_wf p" "length (res_port_units r) = 2" "\<forall>row \<in> set (res_port_units r). length row = 4"
    and "select r = select perf_results_init" "j < 2"
    and "r_duration (res_port_units r ! j ! 1) \<noteq> 0"
  shows "\<exists>l. port_line p r j 1 = Inr l"
  using assms
  by (simp add: port_line_def port_unit_get_wf get2_select get2_def [of "res_port_units r"] Let_def)

lemma show_lines_ok:
  assumes "select r = select perf_results_init"
    and "port_line p r 0 1 = Inr l0" "port_line p r 1 1 = Inr l1"
  shows "show_lines show_order p r = Inr [l0, l1]"
  using assms(2,3) by (simp add: show_order_eq get2_select [OF assms(1)])

lemma perf_show_due:
  assumes ok: "perf_show_ok p st" and due: "\<not> now - show_last st < 5000000"
  shows "\<exists>l0 l1 l p' st'. perf_show p st now = Inr ([l0, l1, l], p', st') \<and> perf_show_ok p' st'
    \<and> show_last st' = now"
proof -
  let ?p2 = "queried now 1 (queried now 0 p)"
  let ?p3 = "snd (perf_exec_unit_query ?p2 now)" and ?x = "fst (perf_exec_unit_query ?p2 now)"
  have wf: "perf_wf p" using ok by (simp add: perf_show_ok_def)
  have wf1: "perf_wf (queried now 0 p)" and wf2: "perf_wf ?p2"
    using wf by (simp_all add: perf_wf_queried)
  then have wf3: "perf_wf ?p3" by (simp add: perf_wf_def perf_exec_unit_query_def)
  obtain rs where q: "show_queries now show_order p (perf_results st)
        = Inr (?p2, (perf_results st)\<lparr>res_port_units := rs\<rparr>)"
    and rs: "length rs = 2" "\<forall>row \<in> set rs. length row = 4"
      "rs ! 0 ! 1 = fst (query_unit now (port_units p ! 0 ! 1))"
      "rs ! 1 ! 1 = fst (query_unit now (port_units p ! 1 ! 1))"
    using show_queries_ok [OF ok] by blast
  let ?r = "(perf_results st)\<lparr>res_port_units := rs, res_exec_unit := ?x\<rparr>"
  have sel: "select ?r = select perf_results_init" using ok by (simp add: perf_show_ok_def)
  have pos: "now - show_last st \<noteq> 0" using due by auto
  have durations: "r_duration (res_port_units ?r ! 0 ! 1) \<noteq> 0" "r_duration (res_port_units ?r ! 1 ! 1) \<noteq> 0"
    "x_duration ?x \<noteq> 0"
    using ok pos rs
    by (simp_all add: perf_show_ok_def query_unit_def perf_exec_unit_query_def query_exec_def queried_def)
  obtain l0 l1 where l: "port_line ?p3 ?r 0 1 = Inr l0" "port_line ?p3 ?r 1 1 = Inr l1"
    using port_line_ok [OF wf3, of ?r 0] port_line_ok [OF wf3, of ?r 1] rs sel durations by auto
  obtain g where g: "gateway_line ?r = Inr g"
    using durations(3) by (simp add: gateway_line_def Let_def)
  have "perf_show p st now = Inr ([l0, l1, g], ?p3, \<lparr>show_last = now, perf_results = ?r\<rparr>)"
    using due q l g sel by (simp add: perf_show_def show_lines_ok case_prod_beta Let_def)
  moreover have "last_query (port_units ?p3 ! k ! 1) = now" if "k < 2" for k
    using that port_units_queried [OF wf1, of 1 k now] port_units_queried [OF wf, of 0 k now]
    by (auto simp: perf_exec_unit_query_def query_unit_def less_2_cases_iff)
  moreover have "exec_last_query (exec_unit ?p3) = now"
    by (simp add: perf_exec_unit_query_def query_exec_def)
  ultimately show ?thesis
    using wf3 sel rs by (simp add: perf_show_ok_def)
qed

lemma perf_show_total:
  "perf_show_ok p st \<Longrightarrow> \<exists>ls p' st'. perf_show p st now = Inr (ls, p', st') \<and> perf_show_ok p' st'"
  using perf_show_due [of p st now] by (cases "now - show_last st < 5000000") (auto simp: perf_show_def)

section \<open>Properties\<close>

text \<open>
  C21. The source counters account for every sequence number: over any run of messages of
  component 1, received plus dropped advance, modulo 256, exactly as far as the sequence
  number of the last message lies beyond the one recorded before the run.
\<close>

theorem drop_accounting:
  assumes "\<forall>m \<in> set ms. compid (msg m) = 1" and "ms \<noteq> []"
  shows "let u' = fold (update_source_unit lib) ms u
    in ucast (succ_count u' + drop_count u') - ucast (succ_count u + drop_count u)
         = seq (msg (last ms)) - prev_seq u
     \<and> succ_count u' = succ_count u + of_nat (length ms)"
proof -
  have "prev_seq (fold (update_source_unit lib) ms u) = seq (msg (last ms))"
    using assms(1,2) by (induction ms arbitrary: u) (auto simp: update_source_unit_simps)
  moreover have "succ_count (fold (update_source_unit lib) ms u) = succ_count u + of_nat (length ms)"
    by (induction ms arbitrary: u) (auto simp: update_source_unit_simps)
  ultimately show ?thesis
    using drop_run [OF assms(1), of lib u] by (simp add: Let_def algebra_simps)
qed

theorem drop_accounting_witness:
  "let m = (\<lambda>s. \<lparr>msg = (demo_msg 0)\<lparr>seq := s\<rparr>, status = (), sinks = bitmap_const 0, source = 1, attribute = 0\<rparr>);
       u = zero_port_unit\<lparr>prev_seq := 253\<rparr>;
       u' = fold (update_source_unit demo_lib) [m 254, m 3] u
   in ucast (succ_count u' + drop_count u') - ucast (succ_count u + drop_count u) = (6 :: u8)"
proof -
  let ?m = "\<lambda>s. \<lparr>msg = (demo_msg 0)\<lparr>seq := s\<rparr>, status = (), sinks = bitmap_const 0, source = 1, attribute = 0\<rparr>"
  have "\<forall>m \<in> set [?m 254, ?m 3]. compid (msg m) = 1"
    by (simp add: demo_msg_def)
  note * = drop_accounting [OF this, of demo_lib "zero_port_unit\<lparr>prev_seq := 253\<rparr>", unfolded Let_def,
      OF list.distinct(2), THEN conjunct1]
  have "seq (msg (last [?m 254, ?m 3])) - prev_seq (zero_port_unit\<lparr>prev_seq := 253\<rparr>) = 6"
    by simp
  then show ?thesis unfolding Let_def * .
qed

text \<open>
  C22. Queries partition the counters: over any interleaving of updates and queries that
  ends in a query, the reported packets, drops and bytes add up to the distance the
  counters moved since the mark before the first of them. No packet is reported twice or
  missed, also across wrap-around.
\<close>

theorem queries_partition_counters:
  "let (reports, u') = run_windows query_unit (update_source_unit lib) (es @ [Inr now]) u
   in sum_list (map r_succ_count reports) = succ_count u' - last_succ_count u
    \<and> sum_list (map r_drop_count reports) = drop_count u' - last_drop_count u
    \<and> sum_list (map r_succ_bytes reports) = succ_bytes u' - last_succ_bytes u"
  using succ_w.reports_total [of lib es now u] drop_w.reports_total [of lib es now u]
    bytes_w.reports_total [of lib es now u]
  by (simp add: case_prod_beta eq_diff_eq)

text \<open>
  C23. The report is safe and throttled. From the state \<^verbatim>\<open>pipeline_init\<close> sets up, and after
  any updates, it never divides by zero or leaves its tables; within five seconds of the
  last report it does nothing, later it prints the two selected ports and the gateway
  line and restarts the windows.
\<close>

theorem perf_show_safe:
  assumes "perf_show_ok p st"
  shows "\<exists>lines p' st'. perf_show p st now = Inr (lines, p', st') \<and> perf_show_ok p' st'
    \<and> (if now - show_last st < 5000000 then lines = [] \<and> p' = p \<and> st' = st
       else length lines = 3 \<and> show_last st' = now)"
proof (cases "now - show_last st < 5000000")
  case True
  with assms show ?thesis by (simp add: perf_show_def)
next
  case False
  from perf_show_due [OF assms this] False show ?thesis by force
qed

theorem perf_show_safe_witness:
  "\<exists>lines p' st'. perf_show perf_init perf_show_init 7000000 = Inr (lines, p', st') \<and> length lines = 3"
  using perf_show_safe [OF perf_show_ok_init, of 7000000] by (auto simp: perf_show_init_def)

text \<open>
  Which ids the update accepts: ids below 4 update the tables and keep their shape;
  the id 4 passes the assertion, which compares with \<^verbatim>\<open><=\<close>, and overruns the row; larger ids
  fail the assertion.
\<close>

lemma perf_update_bounds:
  assumes "perf_wf p"
  shows "(i < 4 \<longrightarrow> (\<exists>p'. perf_port_unit_update lib p unit i m = Inr p' \<and> perf_wf p'))
    \<and> (i = 4 \<longrightarrow> perf_port_unit_update lib p unit i m = Inl Out_Of_Bounds)
    \<and> (4 < i \<longrightarrow> perf_port_unit_update lib p unit i m = Inl Assert_Failed)"
  using perf_port_unit_update_ok [OF assms, of i lib unit m] port_unit_get_oob [OF assms, of _ 4]
  by (cases unit) (auto simp: perf_port_unit_update_def)

end
