(* ===== verification/Pipeline.thy ===== *)
theory Pipeline
  imports Ports Transformer Perf
begin

text \<open>
  The pipeline's data of \<^verbatim>\<open>lib/secure_gateway.h\<close> (sources, sinks, policies, route table)
  and the operations of \<^verbatim>\<open>lib/secure_gateway.c\<close> that set it up: allocation, lookup,
  registration, connect, disconnect and \<^verbatim>\<open>add_transformer\<close>.

  A function pointer is an optional HOL function. The operations of a port act on the
  world \<open>'w\<close> behind it (devices, threads, operating system); they get the port's
  \<^verbatim>\<open>opaque\<close> pointer, an address. A \<^verbatim>\<open>void*\<close> handed to \<^verbatim>\<open>init\<close> or \<^verbatim>\<open>cleanup\<close> says what
  it really points to: the code passes the port itself there, not its \<^verbatim>\<open>opaque\<close>.
\<close>

section \<open>Callbacks\<close>

text \<open>
  The object behind a \<^verbatim>\<open>void*\<close>. A source or sink starts with its \<^verbatim>\<open>bool is_connected\<close>;
  the constructor carries the value of that first member, which is what code reads that
  takes the object for a device whose first member is \<^verbatim>\<open>bool initialized\<close>.
\<close>

datatype obj =
    Source_Obj bool
  | Sink_Obj bool
  | Device_Obj nat

type_synonym 'w has_more_t = "nat option \<Rightarrow> 'w \<Rightarrow> (int \<times> 'w) res"
type_synonym 'w read_byte_t = "nat option \<Rightarrow> 'w \<Rightarrow> (u8 \<times> 'w) res"
type_synonym ('w, 'x, 's) route_t = "nat option \<Rightarrow> ('x, 's) message \<Rightarrow> 'w \<Rightarrow> (int \<times> 'w) res"
type_synonym 'w init_t = "obj \<Rightarrow> 'w \<Rightarrow> (int \<times> 'w) res"
type_synonym 'w cleanup_t = "obj \<Rightarrow> 'w \<Rightarrow> 'w res"

section \<open>Ports, policies and the pipeline\<close>

record ('w, 'x, 's) source_t =
  src_is_connected :: bool
  src_source_id :: nat
  src_cur :: "('x, 's) message"
  src_opaque :: "nat option"
  src_has_more :: "'w has_more_t option"
  src_read_byte :: "'w read_byte_t option"
  src_transform :: "('x, 's) transform option"
  src_init :: "'w init_t option"
  src_cleanup :: "'w cleanup_t option"

record ('w, 'x, 's) sink_t =
  snk_is_connected :: bool
  snk_opaque :: "nat option"
  snk_route :: "('w, 'x, 's) route_t option"
  snk_transform :: "('x, 's) transform option"
  snk_init :: "'w init_t option"
  snk_cleanup :: "'w cleanup_t option"

text \<open>A policy's callbacks get the policy; of it they could read the id. \<open>check\<close> returns its
  verdict and the value it leaves in the attribute it was given.\<close>

record ('x, 's) security_policy_t =
  policy_id :: nat
  match :: "(nat \<Rightarrow> ('x, 's) message \<Rightarrow> bool) option"
  check :: "(nat \<Rightarrow> ('x, 's) message \<Rightarrow> u64 \<Rightarrow> bool \<times> u64) option"

definition MAX_POLICIES :: nat where
  "MAX_POLICIES = 16"

record ('x, 's) security_policy_mgmt_t =
  policies :: "('x, 's) security_policy_t list"
  count :: nat

record ('w, 'x, 's) pipeline_t =
  terminated :: bool
  policy_enabled :: bool
  transform_enabled :: bool
  sources :: "('w, 'x, 's) source_t list"
  snks :: "('w, 'x, 's) sink_t list"
  route_table :: "bitmap list"
  policy_mgmt :: "('x, 's) security_policy_mgmt_t"

text \<open>What \<^verbatim>\<open>memset\<close> and static storage leave in a port or policy.\<close>

definition zero_source :: "('x, 's, 'c) mavlink_lib \<Rightarrow> ('w, 'x, 's) source_t" where
  "zero_source lib = \<lparr>src_is_connected = False, src_source_id = 0, src_cur = zero_message lib,
     src_opaque = None, src_has_more = None, src_read_byte = None, src_transform = None,
     src_init = None, src_cleanup = None\<rparr>"

definition zero_sink :: "('w, 'x, 's) sink_t" where
  "zero_sink = \<lparr>snk_is_connected = False, snk_opaque = None, snk_route = None,
     snk_transform = None, snk_init = None, snk_cleanup = None\<rparr>"

definition zero_policy :: "('x, 's) security_policy_t" where
  "zero_policy = \<lparr>policy_id = 0, match = None, check = None\<rparr>"

text \<open>The global \<^verbatim>\<open>secure_gateway_pipeline\<close> before \<^verbatim>\<open>pipeline_init\<close>: static storage.\<close>

definition static_pipeline :: "('x, 's, 'c) mavlink_lib \<Rightarrow> ('w, 'x, 's) pipeline_t" where
  "static_pipeline lib = \<lparr>terminated = False, policy_enabled = False, transform_enabled = False,
     sources = replicate MAX_SOURCES (zero_source lib), snks = replicate MAX_SINKS zero_sink,
     route_table = replicate MAX_SOURCES (bitmap_const 0),
     policy_mgmt = \<lparr>policies = replicate MAX_POLICIES zero_policy, count = 0\<rparr>\<rparr>"

section \<open>Allocation and lookup\<close>

text \<open>
  \<^verbatim>\<open>source_allocate\<close> resets the port and hands out its address, through which the hooks
  then set its fields; here the hook's assignments are the function \<open>fill\<close>.
\<close>

definition source_allocate ::
  "('w, 'x, 's) pipeline_t \<Rightarrow> nat \<Rightarrow> (('w, 'x, 's) source_t \<Rightarrow> ('w, 'x, 's) source_t)
     \<Rightarrow> ('w, 'x, 's) pipeline_t res" where
  "source_allocate p source_id fill =
     assert_that (source_id < MAX_SOURCES)
       (bind_res (arr_update (sources p) source_id (\<lambda>src.
          fill (src\<lparr>src_source_id := source_id, src_has_more := None, src_read_byte := None,
                    src_transform := None, src_is_connected := True\<rparr>)))
        (\<lambda>ss. Inr (p\<lparr>sources := ss\<rparr>)))"

definition sink_allocate ::
  "('w, 'x, 's) pipeline_t \<Rightarrow> nat \<Rightarrow> (('w, 'x, 's) sink_t \<Rightarrow> ('w, 'x, 's) sink_t)
     \<Rightarrow> ('w, 'x, 's) pipeline_t res" where
  "sink_allocate p type fill =
     bind_res (arr_update (snks p) type (\<lambda>snk.
       fill (snk\<lparr>snk_route := None, snk_transform := None, snk_is_connected := True\<rparr>)))
     (\<lambda>ss. Inr (p\<lparr>snks := ss\<rparr>))"

definition source_get :: "('w, 'x, 's) pipeline_t \<Rightarrow> nat \<Rightarrow> ('w, 'x, 's) source_t res" where
  "source_get p source_id = assert_that (source_id < MAX_SOURCES) (arr_get (sources p) source_id)"

definition sink_get :: "('w, 'x, 's) pipeline_t \<Rightarrow> nat \<Rightarrow> ('w, 'x, 's) sink_t res" where
  "sink_get p type = assert_that (type < MAX_SINKS) (arr_get (snks p) type)"

definition pipeline_get_sink :: "('w, 'x, 's) pipeline_t \<Rightarrow> nat \<Rightarrow> ('w, 'x, 's) sink_t res" where
  "pipeline_get_sink p type = sink_get p type"

text \<open>A write through the pointer \<^verbatim>\<open>sink_get\<close> returns.\<close>

definition sink_modify ::
  "('w, 'x, 's) pipeline_t \<Rightarrow> nat \<Rightarrow> (('w, 'x, 's) sink_t \<Rightarrow> ('w, 'x, 's) sink_t)
     \<Rightarrow> ('w, 'x, 's) pipeline_t res" where
  "sink_modify p type f =
     bind_res (sink_get p type) (\<lambda>snk.
     bind_res (arr_put (snks p) type (f snk)) (\<lambda>ss. Inr (p\<lparr>snks := ss\<rparr>)))"

definition policy_register ::
  "('x, 's) security_policy_mgmt_t \<Rightarrow> nat \<Rightarrow> (nat \<Rightarrow> ('x, 's) message \<Rightarrow> bool)
     \<Rightarrow> (nat \<Rightarrow> ('x, 's) message \<Rightarrow> u64 \<Rightarrow> bool \<times> u64)
     \<Rightarrow> (int \<times> ('x, 's) security_policy_mgmt_t) res" where
  "policy_register pm i m c =
     assert_that (count pm < MAX_POLICIES)
       (bind_res (arr_put (policies pm) (count pm) \<lparr>policy_id = i, match = Some m, check = Some c\<rparr>)
         (\<lambda>ps. Inr (0, pm\<lparr>policies := ps, count := count pm + 1\<rparr>)))"

definition add_transformer ::
  "('w, 'x, 's) pipeline_t \<Rightarrow> port_type \<Rightarrow> nat \<Rightarrow> ('x, 's) transform \<Rightarrow> ('w, 'x, 's) pipeline_t res" where
  "add_transformer p type i transform =
     (case type of
        PORT_TYPE_SOURCE \<Rightarrow> assert_that (i \<le> MAX_SOURCES)
          (bind_res (arr_update (sources p) i (\<lambda>src. src\<lparr>src_transform := Some transform\<rparr>))
            (\<lambda>ss. Inr (p\<lparr>sources := ss\<rparr>)))
      | PORT_TYPE_SINK \<Rightarrow> assert_that (i \<le> MAX_SINKS)
          (sink_modify p i (\<lambda>snk. snk\<lparr>snk_transform := Some transform\<rparr>)))"

section \<open>Connect and disconnect\<close>

text \<open>Both walk the sources, then the sinks, and pass the port itself to its callback.\<close>

fun connect_sources :: "('w, 'x, 's) source_t list \<Rightarrow> 'w \<Rightarrow> 'w res" where
  "connect_sources [] w = Inr w"
| "connect_sources (src # srcs) w =
     (if src_is_connected src \<and> src_init src \<noteq> None
      then bind_res (the (src_init src) (Source_Obj (src_is_connected src)) w)
             (\<lambda>(_, w'). connect_sources srcs w')
      else connect_sources srcs w)"

fun connect_sinks :: "('w, 'x, 's) sink_t list \<Rightarrow> 'w \<Rightarrow> 'w res" where
  "connect_sinks [] w = Inr w"
| "connect_sinks (snk # ss) w =
     (if snk_is_connected snk \<and> snk_init snk \<noteq> None
      then bind_res (the (snk_init snk) (Sink_Obj (snk_is_connected snk)) w)
             (\<lambda>(_, w'). connect_sinks ss w')
      else connect_sinks ss w)"

definition pipeline_connect :: "('w, 'x, 's) pipeline_t \<Rightarrow> 'w \<Rightarrow> 'w res" where
  "pipeline_connect p w = bind_res (connect_sources (sources p) w) (connect_sinks (snks p))"

fun disconnect_sources :: "('w, 'x, 's) source_t list \<Rightarrow> 'w \<Rightarrow> 'w res" where
  "disconnect_sources [] w = Inr w"
| "disconnect_sources (src # srcs) w =
     (if src_is_connected src \<and> src_cleanup src \<noteq> None
      then bind_res (the (src_cleanup src) (Source_Obj (src_is_connected src)) w)
             (\<lambda>w'. disconnect_sources srcs w')
      else disconnect_sources srcs w)"

fun disconnect_sinks :: "('w, 'x, 's) sink_t list \<Rightarrow> 'w \<Rightarrow> 'w res" where
  "disconnect_sinks [] w = Inr w"
| "disconnect_sinks (snk # ss) w =
     (if snk_is_connected snk \<and> snk_cleanup snk \<noteq> None
      then bind_res (the (snk_cleanup snk) (Sink_Obj (snk_is_connected snk)) w)
             (\<lambda>w'. disconnect_sinks ss w')
      else disconnect_sinks ss w)"

definition pipeline_disconnect :: "('w, 'x, 's) pipeline_t \<Rightarrow> 'w \<Rightarrow> 'w res" where
  "pipeline_disconnect p w = bind_res (disconnect_sources (sources p) w) (disconnect_sinks (snks p))"

end
