(* ===== verification/Security_Policies.thy ===== *)
theory Security_Policies
  imports Pipeline
begin

text \<open>
  The policies of \<^verbatim>\<open>lib/security_policies.c\<close>: which messages a policy looks at
  (\<^verbatim>\<open>match\<close>), what it says of them (\<^verbatim>\<open>check\<close>), and their registration. The decoders and
  message ids come from the MAVLink library. The lemmas reduce the three registered
  policies to one predicate, \<open>forbidden\<close>, on the message.
\<close>

section \<open>C strings and floats\<close>

text \<open>
  \<^verbatim>\<open>strncmp\<close> over arrays of bytes; a string literal ends in a zero byte, which reading
  past the end of the list stands for. The arrays compared here are longer than the bound.
\<close>

fun strncmp :: "u8 list \<Rightarrow> u8 list \<Rightarrow> nat \<Rightarrow> int" where
  "strncmp s t 0 = 0"
| "strncmp s t (Suc n) =
     (let a = (case s of [] \<Rightarrow> 0 | x # _ \<Rightarrow> x); b = (case t of [] \<Rightarrow> 0 | y # _ \<Rightarrow> y)
      in if a \<noteq> b then uint a - uint b else if a = 0 then 0 else strncmp (tl s) (tl t) n)"

definition c_string :: "string \<Rightarrow> u8 list" where
  "c_string s = map of_char s"

text \<open>A float compares equal to 0 when it is positive or negative zero.\<close>

definition f32_is_zero :: "f32 \<Rightarrow> bool" where
  "f32_is_zero x \<longleftrightarrow> x = 0 \<or> x = 0x80000000"

section \<open>Matching\<close>

definition security_policy_match_all :: "nat \<Rightarrow> ('x, 's) message \<Rightarrow> bool" where
  "security_policy_match_all policy m = True"

definition security_policy_match_vmc :: "nat \<Rightarrow> ('x, 's) message \<Rightarrow> bool" where
  "security_policy_match_vmc policy m \<longleftrightarrow> source m = source_index SOURCE_TYPE_VMC"

definition security_policy_match_mmc :: "nat \<Rightarrow> ('x, 's) message \<Rightarrow> bool" where
  "security_policy_match_mmc policy m \<longleftrightarrow>
     source m = source_index SOURCE_TYPE_LEGACY \<or> source_index SOURCE_TYPE_ENCLAVE \<le> source m"

section \<open>Checks\<close>

definition security_policy_check_reject :: "nat \<Rightarrow> ('x, 's) message \<Rightarrow> u64 \<Rightarrow> bool \<times> u64" where
  "security_policy_check_reject policy m a = (False, a)"

definition security_policy_check_accept :: "nat \<Rightarrow> ('x, 's) message \<Rightarrow> u64 \<Rightarrow> bool \<times> u64" where
  "security_policy_check_accept policy m a = (True, a)"

definition security_policy_reject_mavlink_cmd_meminfo ::
  "('x, 's, 'c) mavlink_lib \<Rightarrow> nat \<Rightarrow> ('x, 's) message \<Rightarrow> u64 \<Rightarrow> bool \<times> u64" where
  "security_policy_reject_mavlink_cmd_meminfo lib policy m a =
     (if msgid (msg m) = MAVLINK_MSG_ID_MEMINFO lib then (False, a) else (True, a))"

definition security_policy_reject_mavlink_cmd_waypoint ::
  "('x, 's, 'c) mavlink_lib \<Rightarrow> nat \<Rightarrow> ('x, 's) message \<Rightarrow> u64 \<Rightarrow> bool \<times> u64" where
  "security_policy_reject_mavlink_cmd_waypoint lib policy m a =
     (if msgid (msg m) \<noteq> MAVLINK_MSG_ID_COMMAND_LONG lib then (True, a)
      else let cmd = mavlink_msg_command_long_decode lib (msg m)
           in if command cmd \<noteq> MAV_CMD_NAV_WAYPOINT lib then (True, a) else (False, a))"

definition security_policy_reject_mavlink_cmd_disable_geofence ::
  "('x, 's, 'c) mavlink_lib \<Rightarrow> nat \<Rightarrow> ('x, 's) message \<Rightarrow> u64 \<Rightarrow> bool \<times> u64" where
  "security_policy_reject_mavlink_cmd_disable_geofence lib policy m a =
     (if msgid (msg m) = MAVLINK_MSG_ID_COMMAND_LONG lib
      then let cmd = mavlink_msg_command_long_decode lib (msg m)
           in if command cmd = MAV_CMD_DO_FENCE_ENABLE lib \<and> f32_is_zero (param1 cmd)
              then (False, a) else (True, a)
      else if msgid (msg m) = MAVLINK_MSG_ID_PARAM_SET lib
      then let param = mavlink_msg_param_set_decode lib (msg m)
           in if strncmp (param_id param) (c_string ''FENCE_ENABLE'') 12 = 0
                \<and> f32_is_zero (param_value param)
              then (False, a) else (True, a)
      else (True, a))"

section \<open>Registration\<close>

datatype policy_id_t =
    POLICY_ID_ACCEPT_VMC
  | POLICY_ID_REJECT_NAV_WAYPOINT
  | POLICY_ID_REJECT_DISABLE_GEOFENCE
  | POLICY_ID_REJECT_MEMINFO

fun policy_index :: "policy_id_t \<Rightarrow> nat" where
  "policy_index POLICY_ID_ACCEPT_VMC = 0"
| "policy_index POLICY_ID_REJECT_NAV_WAYPOINT = 1"
| "policy_index POLICY_ID_REJECT_DISABLE_GEOFENCE = 2"
| "policy_index POLICY_ID_REJECT_MEMINFO = 3"

definition security_policy_init ::
  "('x, 's, 'c) mavlink_lib \<Rightarrow> ('w, 'x, 's) pipeline_t \<Rightarrow> ('w, 'x, 's) pipeline_t res" where
  "security_policy_init lib p =
     bind_res (policy_register (policy_mgmt p) (policy_index POLICY_ID_ACCEPT_VMC)
                 security_policy_match_vmc security_policy_check_accept) (\<lambda>(_, pm1).
     bind_res (policy_register pm1 (policy_index POLICY_ID_REJECT_DISABLE_GEOFENCE)
                 security_policy_match_mmc
                 (security_policy_reject_mavlink_cmd_disable_geofence lib)) (\<lambda>(_, pm2).
     bind_res (policy_register pm2 (policy_index POLICY_ID_REJECT_MEMINFO)
                 security_policy_match_mmc
                 (security_policy_reject_mavlink_cmd_meminfo lib)) (\<lambda>(_, pm3).
       Inr (p\<lparr>policy_mgmt := pm3\<rparr>))))"

section \<open>What the checks say\<close>

lemma strncmp_eq_0_iff:
  "n \<le> length s \<Longrightarrow> n \<le> length t \<Longrightarrow> 0 \<notin> set (take n t) \<Longrightarrow>
     strncmp s t n = 0 \<longleftrightarrow> take n s = take n t"
proof (induction n arbitrary: s t)
  case 0
  then show ?case by simp
next
  case (Suc n)
  then obtain a s' b t' where st: "s = a # s'" "t = b # t'"
    by (metis Suc_le_length_iff)
  from Suc st show ?case by (auto simp: Let_def word_uint_eq_iff)
qed

lemma fence_enable_bytes [simp]:
  "c_string ''FENCE_ENABLE'' = [70, 69, 78, 67, 69, 95, 69, 78, 65, 66, 76, 69]"
  by (simp add: c_string_def of_char_def)

lemma strncmp_fence_enable:
  "length s = 16 \<Longrightarrow> strncmp s (c_string ''FENCE_ENABLE'') 12 = 0 \<longleftrightarrow> take 12 s = c_string ''FENCE_ENABLE''"
  by (subst strncmp_eq_0_iff) simp_all

text \<open>Commands that switch the geofence off, as the policy recognises them.\<close>

definition disables_geofence :: "('x, 's, 'c) mavlink_lib \<Rightarrow> ('x, 's) message \<Rightarrow> bool" where
  "disables_geofence lib m \<longleftrightarrow>
     (msgid (msg m) = MAVLINK_MSG_ID_COMMAND_LONG lib
        \<and> command (mavlink_msg_command_long_decode lib (msg m)) = MAV_CMD_DO_FENCE_ENABLE lib
        \<and> f32_is_zero (param1 (mavlink_msg_command_long_decode lib (msg m))))
   \<or> (msgid (msg m) = MAVLINK_MSG_ID_PARAM_SET lib
        \<and> msgid (msg m) \<noteq> MAVLINK_MSG_ID_COMMAND_LONG lib
        \<and> strncmp (param_id (mavlink_msg_param_set_decode lib (msg m))) (c_string ''FENCE_ENABLE'') 12 = 0
        \<and> f32_is_zero (param_value (mavlink_msg_param_set_decode lib (msg m))))"

definition from_mission_computer :: "('x, 's) message \<Rightarrow> bool" where
  "from_mission_computer m \<longleftrightarrow> source_index SOURCE_TYPE_LEGACY \<le> source m"

definition forbidden :: "('x, 's, 'c) mavlink_lib \<Rightarrow> ('x, 's) message \<Rightarrow> bool" where
  "forbidden lib m \<longleftrightarrow> from_mission_computer m
     \<and> (disables_geofence lib m \<or> msgid (msg m) = MAVLINK_MSG_ID_MEMINFO lib)"

lemma match_mmc_iff: "security_policy_match_mmc i m \<longleftrightarrow> from_mission_computer m"
  by (auto simp: security_policy_match_mmc_def from_mission_computer_def)

lemma check_geofence_eq:
  "security_policy_reject_mavlink_cmd_disable_geofence lib i m a = (\<not> disables_geofence lib m, a)"
  by (auto simp: security_policy_reject_mavlink_cmd_disable_geofence_def disables_geofence_def Let_def)

lemma check_meminfo_eq:
  "security_policy_reject_mavlink_cmd_meminfo lib i m a
     = (msgid (msg m) \<noteq> MAVLINK_MSG_ID_MEMINFO lib, a)"
  by (simp add: security_policy_reject_mavlink_cmd_meminfo_def)

text \<open>The table after registration into an empty, full-length array.\<close>

definition default_policies :: "('x, 's, 'c) mavlink_lib \<Rightarrow> ('x, 's) security_policy_t list" where
  "default_policies lib =
     [\<lparr>policy_id = 0, match = Some security_policy_match_vmc,
       check = Some security_policy_check_accept\<rparr>,
      \<lparr>policy_id = 2, match = Some security_policy_match_mmc,
       check = Some (security_policy_reject_mavlink_cmd_disable_geofence lib)\<rparr>,
      \<lparr>policy_id = 3, match = Some security_policy_match_mmc,
       check = Some (security_policy_reject_mavlink_cmd_meminfo lib)\<rparr>]"

definition has_default_policies ::
  "('x, 's, 'c) mavlink_lib \<Rightarrow> ('x, 's) security_policy_mgmt_t \<Rightarrow> bool" where
  "has_default_policies lib pm \<longleftrightarrow>
     count pm = 3 \<and> length (policies pm) = MAX_POLICIES \<and> take 3 (policies pm) = default_policies lib"

lemma list_update_front:
  assumes "3 \<le> length xs"
  shows "take (Suc (Suc (Suc 0))) (xs[0 := a, Suc 0 := b, Suc (Suc 0) := c]) = [a, b, c]"
proof -
  obtain x y z ys where "xs = x # y # z # ys"
    using assms by (metis Suc_le_length_iff numeral_3_eq_3)
  then show ?thesis by simp
qed

lemma security_policy_init_ok:
  assumes "count (policy_mgmt p) = 0" "length (policies (policy_mgmt p)) = MAX_POLICIES"
  shows "\<exists>pm. security_policy_init lib p = Inr (p\<lparr>policy_mgmt := pm\<rparr>) \<and> has_default_policies lib pm"
proof -
  let ?new = "default_policies lib"
  let ?pm = "(policy_mgmt p)\<lparr>policies := (policies (policy_mgmt p))
      [0 := ?new ! 0, Suc 0 := ?new ! 1, Suc (Suc 0) := ?new ! 2], count := Suc (Suc (Suc 0))\<rparr>"
  have "security_policy_init lib p = Inr (p\<lparr>policy_mgmt := ?pm\<rparr>)"
    using assms
    by (simp add: security_policy_init_def policy_register_def MAX_POLICIES_def default_policies_def)
  moreover have "has_default_policies lib ?pm"
    using assms
    by (simp add: has_default_policies_def MAX_POLICIES_def numeral_3_eq_3 list_update_front
        default_policies_def)
  ultimately show ?thesis by blast
qed

section \<open>Properties\<close>

text \<open>
  C12. The geofence policy rejects exactly the messages that switch the fence off: a
  fence-enable command whose parameter is zero of either sign, or a parameter write of
  value zero to a name whose first twelve bytes are \<^verbatim>\<open>FENCE_ENABLE\<close>, whatever follows.
  It never changes the attribute.
\<close>

theorem geofence_policy_decides:
  assumes "MAVLINK_MSG_ID_PARAM_SET lib \<noteq> MAVLINK_MSG_ID_COMMAND_LONG lib"
    and "length (param_id (mavlink_msg_param_set_decode lib (msg m))) = 16"
  shows "security_policy_reject_mavlink_cmd_disable_geofence lib i m a = (accepts, a)
    \<longleftrightarrow> accepts = (\<not> (msgid (msg m) = MAVLINK_MSG_ID_COMMAND_LONG lib
            \<and> command (mavlink_msg_command_long_decode lib (msg m)) = MAV_CMD_DO_FENCE_ENABLE lib
            \<and> param1 (mavlink_msg_command_long_decode lib (msg m)) \<in> {0, 0x80000000}
          \<or> msgid (msg m) = MAVLINK_MSG_ID_PARAM_SET lib
            \<and> take 12 (param_id (mavlink_msg_param_set_decode lib (msg m))) = c_string ''FENCE_ENABLE''
            \<and> param_value (mavlink_msg_param_set_decode lib (msg m)) \<in> {0, 0x80000000}))"
  using assms strncmp_fence_enable [OF assms(2)]
  by (auto simp: check_geofence_eq disables_geofence_def f32_is_zero_def simp del: fence_enable_bytes)

theorem geofence_policy_decides_witness:
  "security_policy_reject_mavlink_cmd_disable_geofence
     (demo_lib\<lparr>mavlink_msg_param_set_decode := \<lambda>m.
        \<lparr>param_id = c_string ''FENCE_ENABLE'' @ [50, 0, 0, 0], param_value = 0x80000000\<rparr>\<rparr>) 2
     \<lparr>msg = demo_msg 23, status = (), sinks = bitmap_const 0, source = 2, attribute = 9\<rparr> 9 = (False, 9)"
proof -
  let ?lib = "demo_lib\<lparr>mavlink_msg_param_set_decode := \<lambda>m.
        \<lparr>param_id = c_string ''FENCE_ENABLE'' @ [50, 0, 0, 0], param_value = 0x80000000\<rparr>\<rparr>"
  let ?m = "\<lparr>msg = demo_msg 23, status = (), sinks = bitmap_const 0, source = 2, attribute = 9\<rparr>"
  have "MAVLINK_MSG_ID_PARAM_SET ?lib \<noteq> MAVLINK_MSG_ID_COMMAND_LONG ?lib"
    "length (param_id (mavlink_msg_param_set_decode ?lib (msg ?m))) = 16"
    by (simp_all add: demo_lib_def)
  from geofence_policy_decides [OF this, of 2 9 False] show ?thesis
    by (simp add: demo_lib_def demo_msg_def)
qed

end
