(* ===== verification/Pipeline_Push.thy ===== *)
theory Pipeline_Push
  imports Security_Policies
begin

text \<open>
  Routing, inspection and delivery: \<^verbatim>\<open>lib/route_table.c\<close>, and \<^verbatim>\<open>pipeline_init\<close>,
  \<^verbatim>\<open>route_table_route\<close>, \<^verbatim>\<open>pipeline_inspect\<close> and \<^verbatim>\<open>pipeline_push\<close> of
  \<^verbatim>\<open>lib/secure_gateway.c\<close>, over the gateway's whole state. An abstract reference monitor
  (a verdict, then delivery to a sorted list of sinks) specifies a push; the lemmas show
  that the code implements it.
\<close>

section \<open>The gateway's state\<close>

text \<open>
  The globals and static variables of the program: the pipeline, the counters, the static
  data of \<^verbatim>\<open>perf_show\<close>, the parser's channels, the byte counter of \<^verbatim>\<open>pipeline_spin\<close>, the
  console's clock, and the world behind the ports. \<open>log\<close> holds what the report printed.
\<close>

record ('w, 'x, 's, 'c) gateway =
  pipe :: "('w, 'x, 's) pipeline_t"
  perf_secure_gateway :: perf
  show_state :: perf_show_state
  chan :: 'c
  total_bytes :: u64
  console_last_time :: u64
  log :: "perf_line list"
  world :: 'w

text \<open>Compile-time switches.\<close>

record build =
  DEBUG :: bool
  USE_CONSOLE :: bool
  USE_XOR :: bool

section \<open>The route table and initialisation\<close>

definition default_route_table :: "bitmap list" where
  "default_route_table =
     (replicate MAX_SOURCES (bitmap_const 0))
       [source_index SOURCE_TYPE_NULL := bitmap_const 0,
        source_index SOURCE_TYPE_VMC :=
          bitmap_const (bit_of (sink_index SINK_TYPE_LEGACY) OR bit_of (sink_index SINK_TYPE_ENCLAVE)),
        source_index SOURCE_TYPE_LEGACY := bitmap_const (bit_of (sink_index SINK_TYPE_VMC)),
        source_index SOURCE_TYPE_ENCLAVE := bitmap_const (bit_of (sink_index SINK_TYPE_VMC))]"

text \<open>\<^verbatim>\<open>transform_enabled\<close> is not written.\<close>

definition pipeline_init ::
  "('x, 's, 'c) mavlink_lib \<Rightarrow> ('w, 'x, 's, 'c) gateway \<Rightarrow> ('w, 'x, 's, 'c) gateway res" where
  "pipeline_init lib g =
     (let p1 = (pipe g)\<lparr>sources := replicate MAX_SOURCES (zero_source lib),
                        snks := replicate MAX_SINKS zero_sink,
                        terminated := False,
                        policy_enabled := True,
                        policy_mgmt := (policy_mgmt (pipe g))\<lparr>count := 0\<rparr>,
                        route_table := default_route_table\<rparr>
      in bind_res (security_policy_init lib p1) (\<lambda>p2.
           Inr (g\<lparr>pipe := p2, perf_secure_gateway := perf_init\<rparr>)))"

section \<open>Routing and inspection\<close>

definition route_table_route :: "bitmap list \<Rightarrow> ('x, 's) message \<Rightarrow> (int \<times> ('x, 's) message) res" where
  "route_table_route rt m =
     assert_that (source m < MAX_SOURCES)
       (bind_res (arr_get rt (source m)) (\<lambda>b. Inr (0, m\<lparr>sinks := b\<rparr>)))"

text \<open>The loop over the registered policies, by the list of indices still to visit.\<close>

fun inspect_loop ::
  "('x, 's) security_policy_mgmt_t \<Rightarrow> nat list \<Rightarrow> ('x, 's) message \<Rightarrow> ('x, 's) message res" where
  "inspect_loop pm [] m = Inr m"
| "inspect_loop pm (i # is) m =
     bind_res (arr_get (policies pm) i) (\<lambda>policy.
     bind_res (deref (match policy)) (\<lambda>matches.
       if \<not> matches (policy_id policy) m then inspect_loop pm is m
       else bind_res (deref (check policy)) (\<lambda>chk.
         let (is_secure, attr) = chk (policy_id policy) m (attribute m);
             m1 = m\<lparr>attribute := attribute m OR attr\<rparr>
         in if \<not> is_secure
            then bind_res (bitmap_set (sinks m1) (sink_index SINK_TYPE_DISCARD))
                   (\<lambda>b. Inr (m1\<lparr>sinks := b\<rparr>))
            else inspect_loop pm is m1)))"

definition pipeline_inspect ::
  "('w, 'x, 's) pipeline_t \<Rightarrow> ('x, 's) message \<Rightarrow> ('x, 's) message res" where
  "pipeline_inspect p m =
     (if policy_enabled p = False then Inr m
      else inspect_loop (policy_mgmt p) [0 ..< count (policy_mgmt p)] m)"

section \<open>Delivery\<close>

definition apply_transform ::
  "bool \<Rightarrow> ('x, 's) transform option \<Rightarrow> ('x, 's) message \<Rightarrow> ('x, 's) message res" where
  "apply_transform enabled t m =
     (case t of None \<Rightarrow> Inr m | Some f \<Rightarrow> if enabled then f m else Inr m)"

fun deliver_loop ::
  "('x, 's, 'c) mavlink_lib \<Rightarrow> nat list \<Rightarrow> ('x, 's) message \<Rightarrow> ('w, 'x, 's, 'c) gateway
     \<Rightarrow> (('x, 's) message \<times> ('w, 'x, 's, 'c) gateway) res" where
  "deliver_loop lib [] m g = Inr (m, g)"
| "deliver_loop lib (i # is) m g =
     bind_res (bitmap_test (sinks m) i) (\<lambda>bit.
       if bit = 0 then deliver_loop lib is m g
       else bind_res (pipeline_get_sink (pipe g) i) (\<lambda>snk.
         case snk_route snk of
           None \<Rightarrow> deliver_loop lib is m g
         | Some route \<Rightarrow>
             bind_res (apply_transform (transform_enabled (pipe g)) (snk_transform snk) m) (\<lambda>m1.
             bind_res (route (snk_opaque snk) m1 (world g)) (\<lambda>(_, w).
             bind_res (perf_port_unit_update lib (perf_secure_gateway g) PERF_PORT_UNIT_TYPE_SINK i m1) (\<lambda>pf.
               deliver_loop lib is m1 (g\<lparr>world := w, perf_secure_gateway := pf\<rparr>))))))"

text \<open>In a debug build a discarded message goes to the route of the discard sink, if any.\<close>

definition route_discarded ::
  "('x, 's) message \<Rightarrow> ('w, 'x, 's, 'c) gateway \<Rightarrow> ('w, 'x, 's, 'c) gateway res" where
  "route_discarded m g =
     bind_res (pipeline_get_sink (pipe g) (sink_index SINK_TYPE_DISCARD)) (\<lambda>snk.
       case snk_route snk of
         None \<Rightarrow> Inr g
       | Some route \<Rightarrow> bind_res (route (snk_opaque snk) m (world g)) (\<lambda>(_, w). Inr (g\<lparr>world := w\<rparr>)))"

definition pipeline_push ::
  "('x, 's, 'c) mavlink_lib \<Rightarrow> build \<Rightarrow> ('x, 's) message \<Rightarrow> ('w, 'x, 's, 'c) gateway
     \<Rightarrow> (int \<times> ('x, 's) message \<times> ('w, 'x, 's, 'c) gateway) res" where
  "pipeline_push lib b m g =
     bind_res (route_table_route (route_table (pipe g)) m) (\<lambda>(rv, m1).
     bind_res (pipeline_inspect (pipe g) m1) (\<lambda>m2.
     bind_res (bitmap_test (sinks m2) (sink_index SINK_TYPE_DISCARD)) (\<lambda>discard.
       if discard \<noteq> 0
       then bind_res (if DEBUG b then route_discarded m2 g else Inr g) (\<lambda>g1. Inr (rv, m2, g1))
       else bind_res (deliver_loop lib [0 ..< MAX_SINKS] m2 g) (\<lambda>(m3, g1). Inr (rv, m3, g1)))))"

section \<open>Well-formed pipelines\<close>

definition policies_wf :: "('x, 's) security_policy_mgmt_t \<Rightarrow> bool" where
  "policies_wf pm \<longleftrightarrow> length (policies pm) = MAX_POLICIES \<and> count pm \<le> MAX_POLICIES
     \<and> (\<forall>policy \<in> set (take (count pm) (policies pm)). match policy \<noteq> None \<and> check policy \<noteq> None)"

definition keeps_sinks :: "('x, 's) transform option \<Rightarrow> bool" where
  "keeps_sinks t \<longleftrightarrow> (\<forall>f m m'. t = Some f \<longrightarrow> f m = Inr m' \<longrightarrow> sinks m' = sinks m)"

definition pipeline_wf :: "('w, 'x, 's) pipeline_t \<Rightarrow> bool" where
  "pipeline_wf p \<longleftrightarrow> length (sources p) = MAX_SOURCES \<and> length (snks p) = MAX_SINKS
     \<and> length (route_table p) = MAX_SOURCES \<and> (\<forall>b \<in> set (route_table p). bitmap_wf b)
     \<and> policies_wf (policy_mgmt p) \<and> (\<forall>snk \<in> set (snks p). keeps_sinks (snk_transform snk))"

definition gateway_wf :: "('w, 'x, 's, 'c) gateway \<Rightarrow> bool" where
  "gateway_wf g \<longleftrightarrow> pipeline_wf (pipe g) \<and> perf_show_ok (perf_secure_gateway g) (show_state g)"

lemma pipeline_get_sink_ok: "pipeline_wf p \<Longrightarrow> i < 4 \<Longrightarrow> pipeline_get_sink p i = Inr (snks p ! i)"
  by (simp add: pipeline_get_sink_def sink_get_def pipeline_wf_def)

section \<open>The reference monitor\<close>

text \<open>The verdict of a list of policies, with the message as the accepting ones annotate it.\<close>

fun monitor :: "('x, 's) security_policy_t list \<Rightarrow> ('x, 's) message \<Rightarrow> bool \<times> ('x, 's) message" where
  "monitor [] m = (True, m)"
| "monitor (policy # ps) m =
     (if \<not> the (match policy) (policy_id policy) m then monitor ps m
      else let (is_secure, attr) = the (check policy) (policy_id policy) m (attribute m);
               m1 = m\<lparr>attribute := attribute m OR attr\<rparr>
           in if is_secure then monitor ps m1 else (False, m1))"

definition active_policies :: "('w, 'x, 's) pipeline_t \<Rightarrow> ('x, 's) security_policy_t list" where
  "active_policies p =
     (if policy_enabled p then take (count (policy_mgmt p)) (policies (policy_mgmt p)) else [])"

lemma monitor_frame:
  "sinks (snd (monitor ps m)) = sinks m \<and> msg (snd (monitor ps m)) = msg m
     \<and> source (snd (monitor ps m)) = source m \<and> status (snd (monitor ps m)) = status m"
  by (induction ps m rule: monitor.induct) (auto simp: Let_def split: prod.splits)

lemma and_or_mono: "(a OR b) AND c = a OR b \<Longrightarrow> a AND c = a" for a b c :: u64
proof -
  assume "(a OR b) AND c = a OR b"
  then have "a AND ((a OR b) AND c) = a AND (a OR b)" by simp
  then show ?thesis by (simp add: and.assoc [symmetric])
qed

lemma monitor_attribute: "attribute m AND attribute (snd (monitor ps m)) = attribute m"
proof (induction ps arbitrary: m)
  case Nil
  then show ?case by simp
next
  case (Cons policy ps)
  obtain ok a where chk: "the (check policy) (policy_id policy) m (attribute m) = (ok, a)"
    by (rule prod.exhaust)
  show ?case
    using Cons.IH [of m] chk
      and_or_mono [of "attribute m" a, OF Cons.IH [of "m\<lparr>attribute := attribute m OR a\<rparr>", simplified]]
    by (simp add: Let_def)
qed

text \<open>Inspection is the monitor, followed by the discard mark on a rejected message.\<close>

definition mark_discard :: "('x, 's) message \<Rightarrow> ('x, 's) message res" where
  "mark_discard m = bind_res (bitmap_set (sinks m) (sink_index SINK_TYPE_DISCARD))
     (\<lambda>b. Inr (m\<lparr>sinks := b\<rparr>))"

lemma inspect_loop_monitor:
  assumes "policies_wf pm" "i \<le> count pm"
  shows "inspect_loop pm [i ..< count pm] m =
    (case monitor (drop i (take (count pm) (policies pm))) m of
       (ok, m') \<Rightarrow> if ok then Inr m' else mark_discard m')"
  using assms
proof (induction "count pm - i" arbitrary: i m)
  case 0
  then show ?case by simp
next
  case (Suc n)
  then have i: "i < count pm" "i < length (policies pm)"
    by (auto simp: policies_wf_def)
  let ?p = "policies pm ! i"
  have "?p \<in> set (take (count pm) (policies pm))"
    using i by (metis in_set_conv_nth length_take min_less_iff_conj nth_take)
  then obtain mt ck where fns: "match ?p = Some mt" "check ?p = Some ck"
    using Suc.prems(1) by (auto simp: policies_wf_def)
  have drop: "drop i (take (count pm) (policies pm))
      = ?p # drop (Suc i) (take (count pm) (policies pm))"
    using i by (simp flip: Cons_nth_drop_Suc)
  have IH: "inspect_loop pm [Suc i ..< count pm] m' =
      (case monitor (drop (Suc i) (take (count pm) (policies pm))) m' of
         (ok, m'') \<Rightarrow> if ok then Inr m'' else mark_discard m'')" for m'
    using Suc.hyps(1) [of "Suc i" m'] Suc.hyps(2) Suc.prems i by simp
  show ?case
    unfolding drop upt_conv_Cons [OF i(1)]
    using i fns by (auto simp: IH Let_def mark_discard_def split: prod.splits)
qed

lemma pipeline_inspect_monitor:
  assumes "pipeline_wf p"
  shows "pipeline_inspect p m =
    (case monitor (active_policies p) m of (ok, m') \<Rightarrow> if ok then Inr m' else mark_discard m')"
  using assms inspect_loop_monitor [of "policy_mgmt p" 0 m]
  by (simp add: pipeline_inspect_def active_policies_def pipeline_wf_def)

section \<open>Delivery to a list of sinks\<close>

fun deliver_to ::
  "('x, 's, 'c) mavlink_lib \<Rightarrow> nat list \<Rightarrow> ('x, 's) message \<Rightarrow> ('w, 'x, 's, 'c) gateway
     \<Rightarrow> (('x, 's) message \<times> ('w, 'x, 's, 'c) gateway) res" where
  "deliver_to lib [] m g = Inr (m, g)"
| "deliver_to lib (i # is) m g =
     (case snk_route (snks (pipe g) ! i) of
        None \<Rightarrow> deliver_to lib is m g
      | Some route \<Rightarrow>
          bind_res (apply_transform (transform_enabled (pipe g)) (snk_transform (snks (pipe g) ! i)) m) (\<lambda>m1.
          bind_res (route (snk_opaque (snks (pipe g) ! i)) m1 (world g)) (\<lambda>(_, w).
          bind_res (perf_port_unit_update lib (perf_secure_gateway g) PERF_PORT_UNIT_TYPE_SINK i m1) (\<lambda>pf.
            deliver_to lib is m1 (g\<lparr>world := w, perf_secure_gateway := pf\<rparr>)))))"

definition destinations :: "bitmap \<Rightarrow> nat list" where
  "destinations b = filter (\<lambda>i. i \<in> bits b) [0 ..< MAX_SINKS]"

lemma apply_transform_sinks:
  "keeps_sinks t \<Longrightarrow> apply_transform e t m = Inr m' \<Longrightarrow> sinks m' = sinks m"
  by (auto simp: apply_transform_def keeps_sinks_def split: option.splits if_splits)

lemma deliver_loop_deliver_to:
  assumes "pipeline_wf (pipe g)" "bitmap_wf (sinks m)" "\<forall>i \<in> set is. i < 4"
  shows "deliver_loop lib is m g = deliver_to lib (filter (\<lambda>i. i \<in> bits (sinks m)) is) m g"
  using assms
proof (induction "is" arbitrary: m g)
  case Nil
  then show ?case by simp
next
  case (Cons i "is")
  then have i: "i < 4" by simp
  have "\<exists>v. bitmap_test (sinks m) i = Inr v \<and> (v \<noteq> 0 \<longleftrightarrow> i \<in> bits (sinks m))"
    using bm.test_ok [OF Cons.prems(2), of i] i by simp
  then obtain v where v: "bitmap_test (sinks m) i = Inr v" "v \<noteq> 0 \<longleftrightarrow> i \<in> bits (sinks m)"
    by blast
  have keeps: "keeps_sinks (snk_transform (snks (pipe g) ! i))"
    using Cons.prems(1) i by (simp add: pipeline_wf_def)
  show ?case
  proof (cases "i \<in> bits (sinks m)")
    case False
    with v Cons show ?thesis by simp
  next
    case True
    have IH: "deliver_loop lib is m1 g1 = deliver_to lib (filter (\<lambda>i. i \<in> bits (sinks m)) is) m1 g1"
      if "sinks m1 = sinks m" "pipe g1 = pipe g" for m1 g1
      using Cons.IH [of g1 m1] Cons.prems that by simp
    from True v IH apply_transform_sinks [OF keeps] i show ?thesis
      by (auto simp: pipeline_get_sink_ok [OF Cons.prems(1)] split: option.splits intro!: bind_res_cong)
  qed
qed

section \<open>A push, abstractly\<close>

text \<open>
  The verdict of the active policies decides; an accepted message whose route does not
  include the discard sink is handed to the sinks of its route in increasing order.
\<close>

definition abstract_push ::
  "('x, 's, 'c) mavlink_lib \<Rightarrow> ('x, 's) message \<Rightarrow> ('w, 'x, 's, 'c) gateway
     \<Rightarrow> (int \<times> ('w, 'x, 's, 'c) gateway) res" where
  "abstract_push lib m g =
     (let b = route_table (pipe g) ! source m;
          (ok, m1) = monitor (active_policies (pipe g)) (m\<lparr>sinks := b\<rparr>)
      in if ok \<and> sink_index SINK_TYPE_DISCARD \<notin> bits b
         then bind_res (deliver_to lib (destinations b) m1 g) (\<lambda>(_, g1). Inr (0, g1))
         else Inr (0, g))"

text \<open>The return code and the gateway after a push, without the message buffer.\<close>

definition observe_push ::
  "(int \<times> ('x, 's) message \<times> ('w, 'x, 's, 'c) gateway) res \<Rightarrow> (int \<times> ('w, 'x, 's, 'c) gateway) res" where
  "observe_push r = bind_res r (\<lambda>(rv, _, g). Inr (rv, g))"

lemma observe_push_simps [simp]:
  "observe_push (Inl f) = Inl f" "observe_push (Inr (rv, m, g)) = Inr (rv, g)"
  by (simp_all add: observe_push_def)

lemma mark_discard_ok:
  assumes "bitmap_wf (sinks m)"
  shows "\<exists>b. mark_discard m = Inr (m\<lparr>sinks := b\<rparr>) \<and> bitmap_wf b \<and> bits b = insert 0 (bits (sinks m))"
  using bm.set_ok [OF assms, of 0] by (auto simp: mark_discard_def)

lemma test_discard:
  assumes "bitmap_wf b"
  shows "\<exists>v. bitmap_test b 0 = Inr v \<and> (v \<noteq> 0 \<longleftrightarrow> 0 \<in> bits b)"
  using bm.test_ok [OF assms, of 0] by simp

text \<open>A discarded message goes nowhere: no debug build, or no route on the discard sink.\<close>

definition discards_quietly :: "build \<Rightarrow> ('w, 'x, 's) pipeline_t \<Rightarrow> bool" where
  "discards_quietly b p \<longleftrightarrow> DEBUG b \<longrightarrow> snk_route (snks p ! sink_index SINK_TYPE_DISCARD) = None"

lemma pipeline_push_rejected:
  assumes wf: "pipeline_wf (pipe g)" and s: "source m < 4" and quiet: "discards_quietly b (pipe g)"
    and no: "\<not> fst (monitor (active_policies (pipe g)) (m\<lparr>sinks := route_table (pipe g) ! source m\<rparr>))
      \<or> 0 \<in> bits (route_table (pipe g) ! source m)"
  shows "\<exists>m'. pipeline_push lib b m g = Inr (0, m', g)"
proof -
  let ?b = "route_table (pipe g) ! source m"
  obtain ok m1 where mon: "monitor (active_policies (pipe g)) (m\<lparr>sinks := ?b\<rparr>) = (ok, m1)"
    by (rule prod.exhaust)
  have b: "bitmap_wf ?b" and len: "length (route_table (pipe g)) = 4"
    using wf s by (simp_all add: pipeline_wf_def)
  have m1: "sinks m1 = ?b" using monitor_frame [of "active_policies (pipe g)" "m\<lparr>sinks := ?b\<rparr>"] mon by simp
  obtain m2 where m2: "pipeline_inspect (pipe g) (m\<lparr>sinks := ?b\<rparr>) = Inr m2" "bitmap_wf (sinks m2)" "0 \<in> bits (sinks m2)"
    using mark_discard_ok [of m1] b m1 no mon
    by (cases ok) (auto simp: pipeline_inspect_monitor [OF wf])
  moreover have "(if DEBUG b then route_discarded m2 g else Inr g) = Inr g"
    using quiet pipeline_get_sink_ok [OF wf, of 0] by (simp add: route_discarded_def discards_quietly_def)
  ultimately show ?thesis
    using test_discard [OF m2(2)] s len
    by (auto simp: pipeline_push_def route_table_route_def simp del: if_split)
qed

lemma pipeline_push_accepted:
  assumes wf: "pipeline_wf (pipe g)" and s: "source m < 4"
    and mon: "monitor (active_policies (pipe g)) (m\<lparr>sinks := route_table (pipe g) ! source m\<rparr>) = (True, m1)"
    and no: "0 \<notin> bits (route_table (pipe g) ! source m)"
  shows "pipeline_push lib b m g
    = bind_res (deliver_to lib (destinations (route_table (pipe g) ! source m)) m1 g)
        (\<lambda>(m2, g1). Inr (0, m2, g1))"
proof -
  let ?b = "route_table (pipe g) ! source m"
  have b: "bitmap_wf ?b" and len: "length (route_table (pipe g)) = 4"
    using wf s by (simp_all add: pipeline_wf_def)
  have m1: "sinks m1 = ?b" using monitor_frame [of "active_policies (pipe g)" "m\<lparr>sinks := ?b\<rparr>"] mon by simp
  have "pipeline_inspect (pipe g) (m\<lparr>sinks := ?b\<rparr>) = Inr m1"
    using mon by (simp add: pipeline_inspect_monitor [OF wf])
  moreover have "deliver_loop lib [0 ..< MAX_SINKS] m1 g = deliver_to lib (destinations ?b) m1 g"
    using deliver_loop_deliver_to [OF wf, of m1 "[0 ..< MAX_SINKS]"] b m1 by (simp add: destinations_def)
  ultimately show ?thesis
    using test_discard [OF b] no s len m1
    by (auto simp: pipeline_push_def route_table_route_def)
qed

section \<open>The configuration the program starts with\<close>

definition default_config :: "('x, 's, 'c) mavlink_lib \<Rightarrow> ('w, 'x, 's) pipeline_t \<Rightarrow> bool" where
  "default_config lib p \<longleftrightarrow> pipeline_wf p \<and> route_table p = default_route_table
     \<and> has_default_policies lib (policy_mgmt p)"

definition default_destinations :: "nat \<Rightarrow> nat list" where
  "default_destinations s =
     (if s = source_index SOURCE_TYPE_VMC then [sink_index SINK_TYPE_ENCLAVE, sink_index SINK_TYPE_LEGACY]
      else if s = source_index SOURCE_TYPE_LEGACY \<or> s = source_index SOURCE_TYPE_ENCLAVE
      then [sink_index SINK_TYPE_VMC] else [])"

lemma bits_bitmap_const: "i < 64 \<Longrightarrow> i \<in> bits (bitmap_const w) \<longleftrightarrow> bit w i"
  by (simp add: bits_def bitmap_const_def)

lemma destinations_const: "destinations (bitmap_const w) = filter (bit w) [0 ..< 4]"
  by (simp add: destinations_def bits_bitmap_const)

lemma default_routes:
  "default_route_table ! 0 = bitmap_const 0"
  "default_route_table ! 1 = bitmap_const 12"
  "default_route_table ! 2 = bitmap_const 2"
  "default_route_table ! 3 = bitmap_const 2"
  "length default_route_table = 4"
  by (simp_all add: default_route_table_def bit_of_def)

lemma default_route_table_wf: "b \<in> set default_route_table \<Longrightarrow> bitmap_wf b"
  by (auto simp: in_set_conv_nth default_route_table_def bitmap_wf_def bitmap_const_def nth_list_update
      less_Suc_eq numeral_eq_Suc split: if_splits)

lemma less_4_cases: "i < 4 \<Longrightarrow> i = 0 \<or> i = 1 \<or> i = 2 \<or> i = (3 :: nat)"
  by linarith

lemma default_destinations_eq:
  "s < 4 \<Longrightarrow> destinations (default_route_table ! s) = default_destinations s"
  by (auto dest!: less_4_cases simp: default_routes destinations_const default_destinations_def
      bit_simps default_routes [simplified])

lemma default_no_discard: "s < 4 \<Longrightarrow> 0 \<notin> bits (default_route_table ! s)"
  by (auto dest!: less_4_cases simp: default_routes bits_bitmap_const default_routes [simplified])

lemma monitor_default: "monitor (default_policies lib) m = (\<not> forbidden lib m, m)"
  by (cases "source m = 1"; cases "from_mission_computer m")
     (auto simp: default_policies_def match_mmc_iff security_policy_match_vmc_def
       security_policy_check_accept_def check_geofence_eq check_meminfo_eq forbidden_def)

lemma active_default:
  "default_config lib p \<Longrightarrow> policy_enabled p \<Longrightarrow> active_policies p = default_policies lib"
  by (simp add: default_config_def has_default_policies_def active_policies_def)

lemma forbidden_sinks [simp]: "forbidden lib (m\<lparr>sinks := b\<rparr>) = forbidden lib m"
  by (simp add: forbidden_def from_mission_computer_def disables_geofence_def)

lemma pipeline_init_ok:
  assumes "length (policies (policy_mgmt (pipe g))) = MAX_POLICIES"
  shows "\<exists>p. pipeline_init lib g = Inr (g\<lparr>pipe := p, perf_secure_gateway := perf_init\<rparr>)
    \<and> default_config lib p \<and> policy_enabled p \<and> \<not> terminated p
    \<and> transform_enabled p = transform_enabled (pipe g)
    \<and> sources p = replicate MAX_SOURCES (zero_source lib) \<and> snks p = replicate MAX_SINKS zero_sink"
proof -
  let ?p = "(pipe g)\<lparr>sources := replicate MAX_SOURCES (zero_source lib),
      snks := replicate MAX_SINKS zero_sink, terminated := False, policy_enabled := True,
      policy_mgmt := (policy_mgmt (pipe g))\<lparr>count := 0\<rparr>, route_table := default_route_table\<rparr>"
  obtain pm where pm: "security_policy_init lib ?p = Inr (?p\<lparr>policy_mgmt := pm\<rparr>)"
      "has_default_policies lib pm"
    using security_policy_init_ok [of ?p lib] assms by auto
  have "policies_wf pm"
    using pm(2) by (auto simp: policies_wf_def has_default_policies_def default_policies_def MAX_POLICIES_def)
  then have "default_config lib (?p\<lparr>policy_mgmt := pm\<rparr>)"
    using pm(2) default_route_table_wf default_routes(5)
    by (simp add: default_config_def pipeline_wf_def keeps_sinks_def zero_sink_def)
  then show ?thesis using pm by (auto simp: pipeline_init_def Let_def)
qed

text \<open>Two gateways that differ in the world and the counters at most.\<close>

definition same_but_world :: "('w, 'x, 's, 'c) gateway \<Rightarrow> ('w, 'x, 's, 'c) gateway \<Rightarrow> bool" where
  "same_but_world g g' \<longleftrightarrow>
     g'\<lparr>world := world g, perf_secure_gateway := perf_secure_gateway g\<rparr> = g"

lemma same_but_world_refl [simp]: "same_but_world g g"
  by (simp add: same_but_world_def)

lemma same_but_world_fields:
  assumes "same_but_world g g'"
  shows "pipe g' = pipe g \<and> show_state g' = show_state g \<and> chan g' = chan g
    \<and> total_bytes g' = total_bytes g \<and> console_last_time g' = console_last_time g \<and> log g' = log g"
  using assms by (cases g; cases g') (simp add: same_but_world_def)

lemma same_but_world_step:
  "same_but_world (g\<lparr>world := w, perf_secure_gateway := pf\<rparr>) g' \<Longrightarrow> same_but_world g g'"
  by (cases g; cases g') (simp add: same_but_world_def)

lemma deliver_to_frame:
  "deliver_to lib is m g = Inr (m', g') \<Longrightarrow> same_but_world g g'"
proof (induction "is" arbitrary: m g)
  case (Cons i "is")
  then show ?case
    by (auto simp: res_simps split: option.splits dest!: Cons.IH intro: same_but_world_step)
qed simp

lemma pipeline_push_frame:
  assumes "pipeline_wf (pipe g)" "source m < 4" "discards_quietly b (pipe g)" "pipeline_push lib b m g = Inr (rv, m', g')"
  shows "rv = 0 \<and> same_but_world g g'"
proof (cases "fst (monitor (active_policies (pipe g)) (m\<lparr>sinks := route_table (pipe g) ! source m\<rparr>))
    \<and> 0 \<notin> bits (route_table (pipe g) ! source m)")
  case False
  then show ?thesis
    using pipeline_push_rejected [OF assms(1-3), of lib] assms(4) by auto
next
  case True
  then obtain m1 where "monitor (active_policies (pipe g)) (m\<lparr>sinks := route_table (pipe g) ! source m\<rparr>) = (True, m1)"
    by (metis prod.collapse)
  then have "pipeline_push lib b m g
      = bind_res (deliver_to lib (destinations (route_table (pipe g) ! source m)) m1 g)
          (\<lambda>(m2, g1). Inr (0, m2, g1))"
    using pipeline_push_accepted [OF assms(1,2), of m1 lib b] True by blast
  with assms(4) have "bind_res (deliver_to lib (destinations (route_table (pipe g) ! source m)) m1 g)
      (\<lambda>(m2, g1). Inr (0, m2, g1)) = Inr (rv, m', g')" by simp
  then show ?thesis by (auto simp: res_simps dest: deliver_to_frame)
qed

section \<open>Ports that do not fault\<close>

definition transform_total :: "('x, 's) transform option \<Rightarrow> bool" where
  "transform_total t \<longleftrightarrow> (\<forall>f m. t = Some f \<longrightarrow> (\<exists>m'. f m = Inr m'))"

text \<open>
  The routes of a pipeline's sinks do not fault in the worlds \<open>ok\<close> holds of, and keep \<open>ok\<close>.
  Nothing is delivered to the discard sink.
\<close>

definition route_total :: "('w \<Rightarrow> bool) \<Rightarrow> ('w, 'x, 's) sink_t \<Rightarrow> bool" where
  "route_total ok snk \<longleftrightarrow> (\<forall>r m w. snk_route snk = Some r \<longrightarrow> ok w \<longrightarrow>
     (\<exists>v w'. r (snk_opaque snk) m w = Inr (v, w') \<and> ok w'))"

definition sinks_total :: "('w \<Rightarrow> bool) \<Rightarrow> ('w, 'x, 's) pipeline_t \<Rightarrow> bool" where
  "sinks_total ok p \<longleftrightarrow>
     (\<forall>i. 0 < i \<and> i < 4 \<longrightarrow> (transform_enabled p \<longrightarrow> transform_total (snk_transform (snks p ! i)))
        \<and> route_total ok (snks p ! i))"

lemma apply_transform_total:
  "(en \<Longrightarrow> transform_total t) \<Longrightarrow> \<exists>m'. apply_transform en t m = Inr m'"
  by (cases t; cases en) (auto simp: apply_transform_def transform_total_def)

lemma destinations_less: "0 \<notin> bits b \<Longrightarrow> \<forall>i \<in> set (destinations b). 0 < i \<and> i < 4"
  by (auto simp: destinations_def intro!: Nat.gr0I)

lemma deliver_to_total:
  assumes "sinks_total ok (pipe g)" "length (snks (pipe g)) = 4"
    "perf_show_ok (perf_secure_gateway g) (show_state g)" "\<forall>i \<in> set is. 0 < i \<and> i < 4" "ok (world g)"
  shows "\<exists>m' g'. deliver_to lib is m g = Inr (m', g') \<and> perf_show_ok (perf_secure_gateway g') (show_state g')
    \<and> ok (world g')"
  using assms
proof (induction "is" arbitrary: m g)
  case Nil
  then show ?case by simp
next
  case (Cons i "is")
  let ?snk = "snks (pipe g) ! i"
  have snk: "transform_enabled (pipe g) \<Longrightarrow> transform_total (snk_transform ?snk)" "route_total ok ?snk"
    using Cons.prems by (auto simp: sinks_total_def)
  show ?case
  proof (cases "snk_route ?snk")
    case None
    with Cons show ?thesis by simp
  next
    case (Some route)
    obtain m1 where m1: "apply_transform (transform_enabled (pipe g)) (snk_transform ?snk) m = Inr m1"
      using apply_transform_total [OF snk(1)] by blast
    obtain v w where w: "route (snk_opaque ?snk) m1 (world g) = Inr (v, w)" "ok w"
      using snk(2) Some Cons.prems(5) by (fastforce simp: route_total_def)
    obtain pf where pf: "perf_port_unit_update lib (perf_secure_gateway g) PERF_PORT_UNIT_TYPE_SINK i m1 = Inr pf"
        "perf_show_ok pf (show_state g)"
      using perf_show_ok_update [OF Cons.prems(3), of i lib PERF_PORT_UNIT_TYPE_SINK m1] Cons.prems(4)
      by auto
    show ?thesis
      using Cons.IH [of "g\<lparr>world := w, perf_secure_gateway := pf\<rparr>" m1] Cons.prems pf Some m1 w
      by simp
  qed
qed

lemma pipeline_push_total:
  assumes wf: "gateway_wf g" and tot: "sinks_total ok (pipe g)" and ok: "ok (world g)"
    and s: "source m < 4" and d: "discards_quietly b (pipe g)"
  shows "\<exists>m' g'. pipeline_push lib b m g = Inr (0, m', g') \<and> gateway_wf g' \<and> same_but_world g g' \<and> ok (world g')"
proof (cases "fst (monitor (active_policies (pipe g)) (m\<lparr>sinks := route_table (pipe g) ! source m\<rparr>))
    \<and> 0 \<notin> bits (route_table (pipe g) ! source m)")
  case False
  then show ?thesis
    using pipeline_push_rejected [of g m b lib] wf s d ok by (auto simp: gateway_wf_def)
next
  case True
  have pwf: "pipeline_wf (pipe g)" using wf by (simp add: gateway_wf_def)
  obtain m1 where "monitor (active_policies (pipe g)) (m\<lparr>sinks := route_table (pipe g) ! source m\<rparr>) = (True, m1)"
    using True by (metis prod.collapse)
  moreover obtain m2 g2 where "deliver_to lib (destinations (route_table (pipe g) ! source m)) m1 g = Inr (m2, g2)"
      "perf_show_ok (perf_secure_gateway g2) (show_state g2)" "ok (world g2)"
    using deliver_to_total [OF tot _ _ destinations_less ok, of "route_table (pipe g) ! source m" lib m1] wf True
    unfolding gateway_wf_def pipeline_wf_def MAX_SINKS_def by blast
  moreover from this(1) have "same_but_world g g2" by (rule deliver_to_frame)
  ultimately show ?thesis
    using pipeline_push_accepted [OF pwf s, of m1 lib b] True pwf
    by (auto simp: gateway_wf_def dest: same_but_world_fields)
qed

section \<open>A push under the default configuration\<close>

lemma default_push_forbidden:
  assumes "default_config lib (pipe g)" "policy_enabled (pipe g)" "source m < 4"
    "discards_quietly b (pipe g)" "forbidden lib m"
  shows "\<exists>m'. pipeline_push lib b m g = Inr (0, m', g)"
proof -
  have wf: "pipeline_wf (pipe g)" and rt: "route_table (pipe g) = default_route_table"
    using assms(1) by (simp_all add: default_config_def)
  have "\<not> fst (monitor (active_policies (pipe g)) (m\<lparr>sinks := route_table (pipe g) ! source m\<rparr>))"
    using assms(5) active_default [OF assms(1,2)] by (simp add: monitor_default)
  then show ?thesis using pipeline_push_rejected [OF wf assms(3,4)] by blast
qed

lemma default_push_allowed:
  assumes "default_config lib (pipe g)" "policy_enabled (pipe g)" "source m < 4" "\<not> forbidden lib m"
  shows "pipeline_push lib b m g
    = bind_res (deliver_to lib (default_destinations (source m))
        (m\<lparr>sinks := default_route_table ! source m\<rparr>) g) (\<lambda>(m', g'). Inr (0, m', g'))"
proof -
  have wf: "pipeline_wf (pipe g)" and rt: "route_table (pipe g) = default_route_table"
    using assms(1) by (simp_all add: default_config_def)
  have "monitor (active_policies (pipe g)) (m\<lparr>sinks := route_table (pipe g) ! source m\<rparr>)
      = (True, m\<lparr>sinks := default_route_table ! source m\<rparr>)"
    using assms(4) rt active_default [OF assms(1,2)] by (simp add: monitor_default)
  from pipeline_push_accepted [OF wf assms(3) this, of lib b] show ?thesis
    using rt default_no_discard [OF assms(3)] default_destinations_eq [OF assms(3)] by simp
qed

section \<open>A gateway with recording ports, for witnesses\<close>

text \<open>The program's state before \<^verbatim>\<open>pipeline_init\<close>.\<close>

definition static_gateway ::
  "('x, 's, 'c) mavlink_lib \<Rightarrow> 'c \<Rightarrow> 'w \<Rightarrow> ('w, 'x, 's, 'c) gateway" where
  "static_gateway lib c w = \<lparr>pipe = static_pipeline lib, perf_secure_gateway = perf_init,
     show_state = perf_show_init, chan = c, total_bytes = 0, console_last_time = 0, log = [], world = w\<rparr>"

type_synonym trace = "(nat \<times> u32) list"

text \<open>A sink that records its number and the id of the message it got.\<close>

definition trace_sink :: "nat \<Rightarrow> (trace, unit, unit) sink_t" where
  "trace_sink i = zero_sink\<lparr>snk_is_connected := True,
     snk_route := Some (\<lambda>_ m w. Inr (0, w @ [(i, msgid (msg m))]))\<rparr>"

definition demo_pipe :: "(trace, unit, unit) pipeline_t" where
  "demo_pipe = (static_pipeline demo_lib)\<lparr>policy_enabled := True,
     snks := [zero_sink, trace_sink 1, trace_sink 2, trace_sink 3],
     route_table := default_route_table,
     policy_mgmt := \<lparr>policies = default_policies demo_lib @ replicate 13 zero_policy, count = 3\<rparr>\<rparr>"

definition demo_gateway :: "(trace, unit, unit, unit) gateway" where
  "demo_gateway = (static_gateway demo_lib () [])\<lparr>pipe := demo_pipe\<rparr>"

definition demo_build :: build where
  "demo_build = \<lparr>DEBUG = False, USE_CONSOLE = False, USE_XOR = False\<rparr>"

definition demo_message :: "nat \<Rightarrow> u32 \<Rightarrow> (unit, unit) message" where
  "demo_message src i = \<lparr>msg = demo_msg i, status = (), sinks = bitmap_const 0, source = src, attribute = 0\<rparr>"

lemma demo_pipe_config: "default_config demo_lib demo_pipe"
  by (auto simp: default_config_def demo_pipe_def pipeline_wf_def policies_wf_def static_pipeline_def
      has_default_policies_def default_policies_def MAX_POLICIES_def keeps_sinks_def zero_sink_def
      trace_sink_def default_routes default_route_table_wf)

lemma demo_gateway_facts [simp]:
  "pipe demo_gateway = demo_pipe" "world demo_gateway = []" "discards_quietly demo_build p"
  "policy_enabled demo_pipe" "source (demo_message src i) = src" "transform_enabled demo_pipe = False"
  "snks demo_pipe = [zero_sink, trace_sink 1, trace_sink 2, trace_sink 3]"
  "perf_secure_gateway demo_gateway = perf_init" "show_state demo_gateway = perf_show_init"
  by (simp_all add: demo_gateway_def demo_message_def demo_pipe_def static_gateway_def static_pipeline_def
      discards_quietly_def demo_build_def)

lemma demo_gateway_wf: "gateway_wf demo_gateway"
  using demo_pipe_config by (simp add: gateway_wf_def perf_show_ok_init default_config_def)

lemma demo_sinks_total: "sinks_total (\<lambda>w. True) demo_pipe"
  by (auto simp: sinks_total_def transform_total_def route_total_def trace_sink_def zero_sink_def demo_pipe_def
      static_pipeline_def less_Suc_eq numeral_eq_Suc)

lemma demo_forbidden: "2 \<le> src \<Longrightarrow> forbidden demo_lib (demo_message src 152)"
  "\<not> forbidden demo_lib (demo_message src 0)"
  by (simp_all add: forbidden_def from_mission_computer_def demo_message_def demo_msg_def demo_lib_def
      disables_geofence_def)

section \<open>Properties\<close>

text \<open>
  C1. A push implements the reference monitor. On a well-formed pipeline the code's
  route lookup, inspection loop and delivery loop return the same code and leave the same
  gateway as the specification: the verdict of the active policies decides, a rejected
  message changes nothing, an accepted one goes to the sinks of its source's route in
  increasing order, each after its own transform.
\<close>

theorem pipeline_push_refines_monitor:
  assumes "pipeline_wf (pipe g)" and "source m < 4" and "discards_quietly b (pipe g)"
  shows "observe_push (pipeline_push lib b m g) = abstract_push lib m g"
proof -
  let ?b = "route_table (pipe g) ! source m"
  obtain ok m1 where mon: "monitor (active_policies (pipe g)) (m\<lparr>sinks := ?b\<rparr>) = (ok, m1)"
    by (rule prod.exhaust)
  show ?thesis
  proof (cases "ok \<and> 0 \<notin> bits ?b")
    case True
    then show ?thesis
      using pipeline_push_accepted [OF assms(1,2), of m1 lib b] mon
      by (auto simp: abstract_push_def observe_push_def bind_res_assoc Let_def intro!: bind_res_cong)
  next
    case False
    then show ?thesis
      using pipeline_push_rejected [OF assms, of lib] mon by (auto simp: abstract_push_def)
  qed
qed

theorem pipeline_push_refines_monitor_witness:
  "observe_push (pipeline_push demo_lib demo_build (demo_message 2 152) demo_gateway)
     = abstract_push demo_lib (demo_message 2 152) demo_gateway"
  using pipeline_push_refines_monitor [of demo_gateway "demo_message 2 152" demo_build demo_lib]
    demo_gateway_wf by (simp add: gateway_wf_def)

text \<open>
  C2. Complete mediation. Under the configuration \<^verbatim>\<open>pipeline_init\<close> sets up, a message from
  the mission computer (legacy or enclave side) that would switch the geofence off, or
  carries memory information, reaches no port: the push returns 0 and leaves the
  gateway, the world behind its ports included, exactly as it was.
\<close>

theorem forbidden_never_delivered:
  assumes "default_config lib (pipe g)" and "policy_enabled (pipe g)"
    and "source m < 4" and "discards_quietly b (pipe g)"
    and "forbidden lib m"
  shows "\<exists>m'. pipeline_push lib b m g = Inr (0, m', g) \<and> sink_index SINK_TYPE_DISCARD \<in> bits (sinks m')"
proof -
  have wf: "pipeline_wf (pipe g)" and rt: "route_table (pipe g) = default_route_table"
    using assms(1) by (simp_all add: default_config_def)
  let ?m = "m\<lparr>sinks := default_route_table ! source m\<rparr>"
  have inspect: "pipeline_inspect (pipe g) ?m = mark_discard ?m"
    using active_default [OF assms(1,2)] assms(5)
    by (simp add: pipeline_inspect_monitor [OF wf] monitor_default)
  have "bitmap_wf (sinks ?m)"
    using assms(3) default_route_table_wf nth_mem [of "source m" default_route_table]
    by (simp add: default_routes)
  from mark_discard_ok [OF this] obtain c where
    c: "mark_discard ?m = Inr (?m\<lparr>sinks := c\<rparr>)" "bitmap_wf c" "0 \<in> bits c" by auto
  have "(if DEBUG b then route_discarded m' g else Inr g) = Inr g" for m'
    using assms(4) pipeline_get_sink_ok [OF wf, of 0] by (simp add: route_discarded_def discards_quietly_def)
  then show ?thesis
    using test_discard [OF c(2)] c assms(3) inspect rt
    by (auto simp: pipeline_push_def route_table_route_def default_routes simp del: if_split)
qed

theorem forbidden_never_delivered_witness:
  "\<exists>m'. pipeline_push demo_lib demo_build (demo_message 3 152) demo_gateway = Inr (0, m', demo_gateway)"
  using forbidden_never_delivered [of demo_lib demo_gateway "demo_message 3 152" demo_build]
    demo_pipe_config demo_forbidden(1) [of 3] by auto

text \<open>
  C8. No over-blocking, and the routes. Every other message is handed, in this order, to
  the enclave and the legacy sink when it comes from the vehicle, to the vehicle when it
  comes from the legacy or enclave side, and to nobody when its source is the null source.
\<close>

theorem allowed_delivered_in_order:
  assumes "default_config lib (pipe g)" and "policy_enabled (pipe g)"
    and "source m < 4" and "\<not> forbidden lib m"
  shows "pipeline_push lib b m g
    = bind_res (deliver_to lib
          (if source m = source_index SOURCE_TYPE_VMC
           then [sink_index SINK_TYPE_ENCLAVE, sink_index SINK_TYPE_LEGACY]
           else if source m = source_index SOURCE_TYPE_NULL then []
           else [sink_index SINK_TYPE_VMC])
          (m\<lparr>sinks := default_route_table ! source m\<rparr>) g)
        (\<lambda>(m', g'). Inr (0, m', g'))"
proof -
  have "default_destinations (source m)
      = (if source m = source_index SOURCE_TYPE_VMC
         then [sink_index SINK_TYPE_ENCLAVE, sink_index SINK_TYPE_LEGACY]
         else if source m = source_index SOURCE_TYPE_NULL then [] else [sink_index SINK_TYPE_VMC])"
    using assms(3) by (auto simp: default_destinations_def dest!: less_4_cases)
  then show ?thesis
    using default_push_allowed [OF assms, of b] by simp
qed

theorem allowed_delivered_in_order_witness:
  "\<exists>m' g'. pipeline_push demo_lib demo_build (demo_message 1 0) demo_gateway = Inr (0, m', g')
     \<and> world g' = [(2, 0), (3, 0)]"
proof -
  have "default_config demo_lib (pipe demo_gateway)" "policy_enabled (pipe demo_gateway)"
      "source (demo_message 1 0) < 4"
    using demo_pipe_config by simp_all
  note push = allowed_delivered_in_order [OF this demo_forbidden(2), of demo_build]
  let ?m = "demo_message 1 0\<lparr>sinks := default_route_table ! source (demo_message 1 0)\<rparr>"
  obtain p1 where p1: "perf_port_unit_update demo_lib perf_init PERF_PORT_UNIT_TYPE_SINK 2 ?m = Inr p1" "perf_wf p1"
    using perf_port_unit_update_ok [OF perf_wf_init, of 2 demo_lib PERF_PORT_UNIT_TYPE_SINK ?m] by auto
  obtain p2 where p2: "perf_port_unit_update demo_lib p1 PERF_PORT_UNIT_TYPE_SINK 3 ?m = Inr p2"
    using perf_port_unit_update_ok [OF p1(2), of 3 demo_lib PERF_PORT_UNIT_TYPE_SINK ?m] by auto
  show ?thesis
    using push p1(1) p2
    by (simp add: trace_sink_def apply_transform_def zero_sink_def demo_message_def demo_msg_def)
qed

text \<open>Two pipelines that agree on the given sinks.\<close>

definition agree_on :: "nat list \<Rightarrow> ('w, 'x, 's) pipeline_t \<Rightarrow> ('w, 'x, 's) pipeline_t \<Rightarrow> bool" where
  "agree_on is p q \<longleftrightarrow> transform_enabled p = transform_enabled q \<and> (\<forall>i \<in> set is. snks p ! i = snks q ! i)"

definition effects ::
  "(int \<times> ('x, 's) message \<times> ('w, 'x, 's, 'c) gateway) res \<Rightarrow> (int \<times> 'w \<times> perf) res" where
  "effects r = bind_res r (\<lambda>(rv, _, g). Inr (rv, world g, perf_secure_gateway g))"

definition deliver_effects ::
  "('x, 's, 'c) mavlink_lib \<Rightarrow> nat list \<Rightarrow> ('x, 's) message \<Rightarrow> ('w, 'x, 's, 'c) gateway \<Rightarrow> (int \<times> 'w \<times> perf) res" where
  "deliver_effects lib is m g =
     bind_res (deliver_to lib is m g) (\<lambda>(_, g'). Inr (0, world g', perf_secure_gateway g'))"

lemma deliver_effects_Cons:
  "deliver_effects lib (i # is) m g =
     (case snk_route (snks (pipe g) ! i) of
        None \<Rightarrow> deliver_effects lib is m g
      | Some route \<Rightarrow>
          bind_res (apply_transform (transform_enabled (pipe g)) (snk_transform (snks (pipe g) ! i)) m) (\<lambda>m1.
          bind_res (route (snk_opaque (snks (pipe g) ! i)) m1 (world g)) (\<lambda>(_, w).
          bind_res (perf_port_unit_update lib (perf_secure_gateway g) PERF_PORT_UNIT_TYPE_SINK i m1) (\<lambda>pf.
            deliver_effects lib is m1 (g\<lparr>world := w, perf_secure_gateway := pf\<rparr>)))))"
  by (auto simp: deliver_effects_def bind_res_assoc split: option.splits intro!: bind_res_cong)

lemma deliver_effects_agree:
  assumes "agree_on is (pipe g) (pipe h)" "world g = world h"
    "perf_secure_gateway g = perf_secure_gateway h"
  shows "deliver_effects lib is m g = deliver_effects lib is m h"
  using assms
proof (induction "is" arbitrary: m g h)
  case Nil
  then show ?case by (simp add: deliver_effects_def)
next
  case (Cons i "is")
  have "snks (pipe g) ! i = snks (pipe h) ! i" "transform_enabled (pipe g) = transform_enabled (pipe h)"
    "agree_on is (pipe g) (pipe h)"
    using Cons.prems(1) by (simp_all add: agree_on_def)
  then show ?case
    using Cons.prems(2,3)
    by (auto simp: deliver_effects_Cons split: option.splits intro!: bind_res_cong Cons.IH)
qed

text \<open>
  C9. Isolation. What a message does to the world and to the counters depends on the
  ports of its own route only: two gateways that differ in every other sink, in their
  sources, the parser and the report behave the same. So no legacy or enclave message
  can be observed at any port but the vehicle's.
\<close>

theorem pipeline_push_isolation:
  assumes "default_config lib (pipe g)" and "default_config lib (pipe h)"
    and "policy_enabled (pipe g)" and "policy_enabled (pipe h)"
    and "discards_quietly b (pipe g)" and "discards_quietly b (pipe h)"
    and "source m < 4" and "agree_on (default_destinations (source m)) (pipe g) (pipe h)"
    and "world g = world h" and "perf_secure_gateway g = perf_secure_gateway h"
  shows "effects (pipeline_push lib b m g) = effects (pipeline_push lib b m h)"
proof -
  let ?m = "m\<lparr>sinks := default_route_table ! source m\<rparr>"
  have push: "effects (pipeline_push lib b m k) =
      (if forbidden lib m then Inr (0, world k, perf_secure_gateway k)
       else deliver_effects lib (default_destinations (source m)) ?m k)"
    if k: "default_config lib (pipe k)" "policy_enabled (pipe k)" "discards_quietly b (pipe k)" for k
  proof (cases "forbidden lib m")
    case True
    then obtain m' where "pipeline_push lib b m k = Inr (0, m', k)"
      using default_push_forbidden [OF k(1,2) assms(7) k(3)] by blast
    with True show ?thesis by (simp add: effects_def)
  next
    case False
    then show ?thesis
      using default_push_allowed [OF k(1,2) assms(7), of b]
      by (auto simp: effects_def deliver_effects_def bind_res_assoc intro!: bind_res_cong)
  qed
  show ?thesis
    using push [OF assms(1,3,5)] push [OF assms(2,4,6)] deliver_effects_agree [OF assms(8-10), of lib ?m]
      assms(9,10) by simp
qed

theorem pipeline_push_isolation_witness:
  "effects (pipeline_push demo_lib demo_build (demo_message 2 0) demo_gateway)
     = effects (pipeline_push demo_lib demo_build (demo_message 2 0)
         (demo_gateway\<lparr>pipe := demo_pipe\<lparr>snks := [trace_sink 9, trace_sink 1, zero_sink, trace_sink 7]\<rparr>\<rparr>))"
proof -
  let ?q = "demo_pipe\<lparr>snks := [trace_sink 9, trace_sink 1, zero_sink, trace_sink 7]\<rparr>"
  have "default_config demo_lib ?q"
    using demo_pipe_config
    by (simp add: default_config_def pipeline_wf_def keeps_sinks_def zero_sink_def trace_sink_def
        default_routes)
  then show ?thesis
    using pipeline_push_isolation [of demo_lib demo_gateway "demo_gateway\<lparr>pipe := ?q\<rparr>" demo_build
        "demo_message 2 0"] demo_pipe_config
    by (simp add: agree_on_def default_destinations_def)
qed

text \<open>
  C11. A push never faults. On a well-formed gateway whose ports do not fault themselves,
  a message of any of the four sources returns 0, and the gateway is well-formed after
  it: no assertion fails, no null callback is called, no table is overrun; and what every
  route keeps of the world, the push keeps. A message that claims a source number of 4 or
  more stops the gateway in an assertion.
\<close>

theorem pipeline_push_no_fault:
  assumes "gateway_wf g" and "sinks_total ok (pipe g)" and "ok (world g)" and "discards_quietly b (pipe g)"
  shows "(source m < 4 \<longrightarrow> (\<exists>m' g'. pipeline_push lib b m g = Inr (0, m', g') \<and> gateway_wf g'
            \<and> pipe g' = pipe g \<and> chan g' = chan g \<and> total_bytes g' = total_bytes g \<and> ok (world g')))
    \<and> (4 \<le> source m \<longrightarrow> pipeline_push lib b m g = Inl Assert_Failed)"
proof (cases "source m < 4")
  case True
  with pipeline_push_total [OF assms(1-3) True assms(4), of lib] show ?thesis
    by (auto dest: same_but_world_fields)
next
  case False
  then show ?thesis by (simp add: pipeline_push_def route_table_route_def)
qed

theorem pipeline_push_no_fault_witness:
  "(\<exists>m' g'. pipeline_push demo_lib demo_build (demo_message 1 76) demo_gateway = Inr (0, m', g'))
   \<and> pipeline_push demo_lib demo_build (demo_message 4 76) demo_gateway = Inl Assert_Failed"
  using pipeline_push_no_fault [of demo_gateway "\<lambda>w. True" demo_build "demo_message 1 76" demo_lib]
    pipeline_push_no_fault [of demo_gateway "\<lambda>w. True" demo_build "demo_message 4 76" demo_lib]
    demo_gateway_wf demo_sinks_total by auto

end
