(* ===== verification/Console.thy ===== *)
theory Console
  imports Pipeline_Push
begin

text \<open>
  The clock of \<^verbatim>\<open>lib/context.h\<close> and the console of \<^verbatim>\<open>lib/plugins/console.c\<close>: reading a key in
  the three builds, the handler table, and \<^verbatim>\<open>console_spin\<close> with its rate limit. The
  operating system's calls are functions on the world, arguments of the definitions. The
  banners the handlers print are not modelled.
\<close>

section \<open>The clock\<close>

text \<open>\<^verbatim>\<open>struct timespec\<close>: seconds and nanoseconds.\<close>

record timespec =
  tv_sec :: u64
  tv_nsec :: u64

definition time_us_of :: "timespec \<Rightarrow> u64" where
  "time_us_of ts = tv_sec ts * 1000000 + tv_nsec ts div 1000"

text \<open>
  What the main loop calls besides the ports: the monotonic clock, and the console's
  \<^verbatim>\<open>read_char\<close>. Whether \<^verbatim>\<open>char\<close> is signed is the implementation's choice.
\<close>

record 'w env =
  clock_gettime :: "'w \<Rightarrow> timespec \<times> 'w"
  read_char :: "'w \<Rightarrow> u8 \<times> 'w"
  char_signed :: bool

definition time_us :: "'w env \<Rightarrow> 'w \<Rightarrow> u64 \<times> 'w" where
  "time_us env w = (let (ts, w') = clock_gettime env w in (time_us_of ts, w'))"

section \<open>Reading a key\<close>

text \<open>
  The calls of the Linux build: \<^verbatim>\<open>tcgetattr\<close> and \<^verbatim>\<open>tcsetattr\<close> together clear \<^verbatim>\<open>ICANON\<close>,
  \<^verbatim>\<open>select\<close> says if stdin is readable, \<^verbatim>\<open>getchar\<close> returns the character or -1. The state is
  the static flag and the world. The other builds: \<^verbatim>\<open>sys_device_control\<close> and \<^verbatim>\<open>sys_gets\<close>
  of CertiKOS, or no console.
\<close>

record 'w stdin_ops =
  clear_icanon :: "'w \<Rightarrow> 'w"
  select_stdin :: "'w \<Rightarrow> bool \<times> 'w"
  getchar :: "'w \<Rightarrow> int \<times> 'w"

definition read_char_libc :: "'w stdin_ops \<Rightarrow> bool \<times> 'w \<Rightarrow> u8 \<times> (bool \<times> 'w)" where
  "read_char_libc ops s =
     (let (initialized, w) = s;
          w1 = (if \<not> initialized then clear_icanon ops w else w);
          (readable, w2) = select_stdin ops w1
      in if readable
         then let (c, w3) = getchar ops w2 in (word_of_int c, (True, w3))
         else (0, (True, w2)))"

record 'w certikos_console =
  set_non_blocking :: "'w \<Rightarrow> 'w"
  sys_gets :: "'w \<Rightarrow> nat \<times> u8 \<times> 'w"

text \<open>The static flag of this build is never set, so the device is configured each time.\<close>

definition read_char_certikos :: "'w certikos_console \<Rightarrow> 'w \<Rightarrow> u8 \<times> 'w" where
  "read_char_certikos ops w =
     (let w1 = set_non_blocking ops w;
          (rv, b, w2) = sys_gets ops w1
      in (if rv = 0 then 0 else b, w2))"

definition read_char_none :: "'w \<Rightarrow> u8 \<times> 'w" where
  "read_char_none w = (0, w)"

section \<open>Handlers\<close>

type_synonym ('w, 'x, 's, 'c) on_key = "('w, 'x, 's, 'c) gateway \<Rightarrow> ('w, 'x, 's, 'c) gateway"

definition to_terminate :: "('w, 'x, 's, 'c) on_key" where
  "to_terminate g = g\<lparr>pipe := (pipe g)\<lparr>terminated := True\<rparr>\<rparr>"

definition to_enable_security_policy :: "('w, 'x, 's, 'c) on_key" where
  "to_enable_security_policy g = g\<lparr>pipe := (pipe g)\<lparr>policy_enabled := True\<rparr>\<rparr>"

definition to_disable_security_policy :: "('w, 'x, 's, 'c) on_key" where
  "to_disable_security_policy g = g\<lparr>pipe := (pipe g)\<lparr>policy_enabled := False\<rparr>\<rparr>"

definition to_enable_transformer :: "('w, 'x, 's, 'c) on_key" where
  "to_enable_transformer g = g\<lparr>pipe := (pipe g)\<lparr>transform_enabled := True\<rparr>\<rparr>"

definition to_disable_transformer :: "('w, 'x, 's, 'c) on_key" where
  "to_disable_transformer g = g\<lparr>pipe := (pipe g)\<lparr>transform_enabled := False\<rparr>\<rparr>"

definition key :: "char \<Rightarrow> nat" where
  "key c = of_char c"

text \<open>The entry for \<^verbatim>\<open>q\<close> is commented out in the source.\<close>

definition console_handlers :: "('w, 'x, 's, 'c) on_key option list" where
  "console_handlers = (replicate 128 None)
     [key (CHR ''e'') := Some to_enable_security_policy,
      key (CHR ''d'') := Some to_disable_security_policy,
      key (CHR ''t'') := Some to_enable_transformer,
      key (CHR ''f'') := Some to_disable_transformer]"

section \<open>The console's turn in the main loop\<close>

definition console_spin :: "'w env \<Rightarrow> ('w, 'x, 's, 'c) gateway \<Rightarrow> ('w, 'x, 's, 'c) gateway res" where
  "console_spin env g =
     (let (cur_time, w1) = time_us env (world g)
      in if cur_time - console_last_time g < 100000 then Inr (g\<lparr>world := w1\<rparr>)
         else let (c, w2) = read_char env w1;
                  g2 = g\<lparr>console_last_time := cur_time, world := w2\<rparr>
              in if c = 0 then Inr g2
                 else assert_that (char_signed env \<longrightarrow> 0 \<le> sint c)
                   (bind_res (arr_get console_handlers (unat c)) (\<lambda>handler.
                      case handler of None \<Rightarrow> Inr g2 | Some h \<Rightarrow> Inr (h g2))))"

section \<open>What a key does\<close>

definition console_key :: "u8 \<Rightarrow> ('w, 'x, 's, 'c) on_key" where
  "console_key c g =
     g\<lparr>pipe := (pipe g)\<lparr>
       policy_enabled := (if c = 101 then True else if c = 100 then False else policy_enabled (pipe g)),
       transform_enabled := (if c = 116 then True else if c = 102 then False else transform_enabled (pipe g))\<rparr>\<rparr>"

lemma console_handlers_nth:
  "i < 128 \<Longrightarrow> console_handlers ! i =
     (if i = 101 then Some to_enable_security_policy
      else if i = 100 then Some to_disable_security_policy
      else if i = 116 then Some to_enable_transformer
      else if i = 102 then Some to_disable_transformer else None)"
  by (simp add: console_handlers_def key_def of_char_def nth_list_update)

lemma length_console_handlers [simp]: "length console_handlers = 128"
  by (simp add: console_handlers_def)

lemma unat_u8_eq: "n < 256 \<Longrightarrow> unat c = n \<longleftrightarrow> c = of_nat n" for c :: u8
  using word_eq_iff_unsigned [of c "of_nat n", where 'a = nat] by simp

lemma console_dispatch:
  assumes "unat c < 128"
  shows "bind_res (arr_get console_handlers (unat c)) (\<lambda>handler.
      case handler of None \<Rightarrow> Inr g | Some h \<Rightarrow> Inr (h g)) = Inr (console_key c g)"
  using assms
  by (auto simp: console_handlers_nth unat_u8_eq console_key_def to_enable_security_policy_def
      to_disable_security_policy_def to_enable_transformer_def to_disable_transformer_def)

lemma sint_u8_nonneg: "0 \<le> sint c \<longleftrightarrow> unat c < 128" for c :: u8
proof -
  have "uint c < 256" using unsigned_less [of c, where 'a = int] by simp
  moreover have "0 \<le> uint c" by simp
  ultimately have "uint c div 128 = (if uint c < 128 then 0 else 1)"
    by (cases "uint c < 128"; simp; linarith)
  then have "bit (uint c) 7 \<longleftrightarrow> \<not> uint c < 128"
    by (auto simp: bit_iff_odd)
  moreover have "unat c < 128 \<longleftrightarrow> uint c < 128"
    using nat_less_iff [of "uint c" 128] by simp
  ultimately show ?thesis
    by (simp add: sint_uint signed_take_bit_nonnegative_iff)
qed

lemma console_spin_cases:
  assumes "time_us env (world g) = (now, w1)" "read_char env w1 = (c, w2)"
  shows "console_spin env g =
    (if now - console_last_time g < 100000 then Inr (g\<lparr>world := w1\<rparr>)
     else if unat c < 128 then Inr (console_key c (g\<lparr>console_last_time := now, world := w2\<rparr>))
     else if char_signed env then Inl Assert_Failed else Inl Out_Of_Bounds)"
proof (cases "c = 0")
  case True
  then show ?thesis using assms by (simp add: console_spin_def console_key_def)
next
  case False
  then show ?thesis
    using assms console_dispatch [of c "g\<lparr>console_last_time := now, world := w2\<rparr>"]
    by (auto simp: console_spin_def sint_u8_nonneg)
qed

lemma console_key_frame:
  "terminated (pipe (console_key c g)) = terminated (pipe g) \<and> sources (pipe (console_key c g)) = sources (pipe g)
   \<and> snks (pipe (console_key c g)) = snks (pipe g) \<and> route_table (pipe (console_key c g)) = route_table (pipe g)
   \<and> policy_mgmt (pipe (console_key c g)) = policy_mgmt (pipe g) \<and> world (console_key c g) = world g
   \<and> perf_secure_gateway (console_key c g) = perf_secure_gateway g
   \<and> show_state (console_key c g) = show_state g"
  by (simp add: console_key_def)

lemma console_spin_frame:
  assumes "console_spin env g = Inr g'"
  shows "terminated (pipe g') = terminated (pipe g) \<and> sources (pipe g') = sources (pipe g)
   \<and> snks (pipe g') = snks (pipe g) \<and> route_table (pipe g') = route_table (pipe g)
   \<and> policy_mgmt (pipe g') = policy_mgmt (pipe g)
   \<and> perf_secure_gateway g' = perf_secure_gateway g \<and> show_state g' = show_state g"
proof -
  obtain now w1 where t: "time_us env (world g) = (now, w1)" by (rule prod.exhaust)
  obtain c w2 where c: "read_char env w1 = (c, w2)" by (rule prod.exhaust)
  show ?thesis
    using assms console_key_frame [of c "g\<lparr>console_last_time := now, world := w2\<rparr>"]
    by (auto simp: console_spin_cases [OF t c] split: if_splits)
qed

section \<open>Properties\<close>

text \<open>A console whose world is the time in microseconds and the keys typed.\<close>

definition demo_env :: "(u64 \<times> u8 list) env" where
  "demo_env = \<lparr>
     clock_gettime = (\<lambda>(t, ks). (\<lparr>tv_sec = 0, tv_nsec = t * 1000\<rparr>, (t, ks))),
     read_char = (\<lambda>(t, ks). case ks of [] \<Rightarrow> (0, (t, [])) | k # ks' \<Rightarrow> (k, (t, ks'))),
     char_signed = True\<rparr>"

text \<open>
  C24. The console's turn. Within 100 ms of the last key it reads nothing. Later it takes
  one key: \<^verbatim>\<open>e\<close> and \<^verbatim>\<open>d\<close> switch the policies on and off, \<^verbatim>\<open>t\<close> and \<^verbatim>\<open>f\<close> the transforms, every
  other ASCII key does nothing; no key ends the program. A byte of 128 or more stops the
  gateway: in the assertion where \<^verbatim>\<open>char\<close> is signed, past the handler table where it is not.
\<close>

theorem console_spin_decides:
  assumes "time_us env (world g) = (now, w1)" and "read_char env w1 = (c, w2)"
  shows "(now - console_last_time g < 100000 \<longrightarrow> console_spin env g = Inr (g\<lparr>world := w1\<rparr>))
    \<and> (\<not> now - console_last_time g < 100000 \<longrightarrow>
        (unat c < 128 \<longrightarrow> console_spin env g = Inr (g\<lparr>console_last_time := now, world := w2,
           pipe := (pipe g)\<lparr>
             policy_enabled := (if c = 101 then True else if c = 100 then False else policy_enabled (pipe g)),
             transform_enabled := (if c = 116 then True else if c = 102 then False else transform_enabled (pipe g))\<rparr>\<rparr>))
      \<and> (128 \<le> unat c \<longrightarrow> console_spin env g = Inl (if char_signed env then Assert_Failed else Out_Of_Bounds)))"
  using console_spin_cases [OF assms] by (auto simp: console_key_def)

theorem console_spin_decides_witness:
  "console_spin demo_env ((static_gateway demo_lib () (500000, [255]))
     :: (u64 \<times> u8 list, unit, unit, unit) gateway) = Inl Assert_Failed"
proof -
  let ?g = "(static_gateway demo_lib () (500000, [255])) :: (u64 \<times> u8 list, unit, unit, unit) gateway"
  have "time_us demo_env (world ?g) = (500000, (500000, [255]))"
    by (simp add: time_us_def time_us_of_def demo_env_def static_gateway_def)
  moreover have "read_char demo_env (500000, [255]) = (255, (500000, []))"
    by (simp add: demo_env_def)
  ultimately show ?thesis
    using console_spin_decides [of demo_env ?g 500000 "(500000, [255])" 255 "(500000, [])"]
    by (simp add: demo_env_def static_gateway_def)
qed

end
