(* ===== verification/Pipeline_Spin.thy ===== *)
theory Pipeline_Spin
  imports Console
begin

text \<open>
  The main loop's body, \<^verbatim>\<open>pipeline_spin\<close> of \<^verbatim>\<open>lib/secure_gateway.c\<close>: every connected source
  is drained in turn, each byte goes through the parser of its channel, a finished
  message is counted, transformed and pushed; then the console and the report run. The
  inner loop ends only when the source says so, hence \<open>None\<close> is a spin that never returns.
  The locale \<open>byte_source\<close> is what the spin needs of a source.
\<close>

section \<open>Runs that may not end\<close>

fun bind_run :: "'a res option \<Rightarrow> ('a \<Rightarrow> 'b res option) \<Rightarrow> 'b res option" where
  "bind_run None k = None"
| "bind_run (Some (Inl f)) k = Some (Inl f)"
| "bind_run (Some (Inr x)) k = k x"

section \<open>One byte\<close>

text \<open>A finished message: counted under its channel, transformed, pushed.\<close>

definition spin_message ::
  "('x, 's, 'c) mavlink_lib \<Rightarrow> build \<Rightarrow> nat \<Rightarrow> ('w, 'x, 's) source_t \<Rightarrow> ('x, 's) message
     \<Rightarrow> ('w, 'x, 's, 'c) gateway \<Rightarrow> (('x, 's) message \<times> ('w, 'x, 's, 'c) gateway) res" where
  "spin_message lib b i src m g =
     (let m1 = m\<lparr>source := src_source_id src\<rparr>
      in bind_res (perf_port_unit_update lib (perf_secure_gateway g) PERF_PORT_UNIT_TYPE_SOURCE i m1) (\<lambda>pf.
         bind_res (apply_transform (transform_enabled (pipe g)) (src_transform src) m1) (\<lambda>m2.
         bind_res (pipeline_push lib b m2 (g\<lparr>perf_secure_gateway := pf\<rparr>)) (\<lambda>(_, m3, g1).
           Inr (m3, g1)))))"

text \<open>The message buffer of a source is part of it; the parser and the push write it in place.\<close>

definition set_cur :: "('w, 'x, 's) pipeline_t \<Rightarrow> nat \<Rightarrow> ('x, 's) message \<Rightarrow> ('w, 'x, 's) pipeline_t" where
  "set_cur p i m = p\<lparr>sources := (sources p)[i := (sources p ! i)\<lparr>src_cur := m\<rparr>]\<rparr>"

text \<open>A byte goes to the parser of the source's channel.\<close>

definition spin_byte ::
  "('x, 's, 'c) mavlink_lib \<Rightarrow> build \<Rightarrow> nat \<Rightarrow> ('w, 'x, 's) source_t \<Rightarrow> u8
     \<Rightarrow> ('w, 'x, 's, 'c) gateway \<Rightarrow> ('w, 'x, 's, 'c) gateway res" where
  "spin_byte lib b i src byte g =
     (let (rv, c, ms, st) = mavlink_parse_char lib i byte (chan g) (msg (src_cur src)) (status (src_cur src));
          m = (src_cur src)\<lparr>msg := ms, status := st\<rparr>;
          g1 = g\<lparr>total_bytes := total_bytes g + 1, chan := c\<rparr>
      in case rv of
           MAVLINK_FRAMING_OK \<Rightarrow> bind_res (spin_message lib b i src m g1) (\<lambda>(m', g2).
             Inr (g2\<lparr>pipe := set_cur (pipe g2) i m'\<rparr>))
         | _ \<Rightarrow> Inr (g1\<lparr>pipe := set_cur (pipe g1) i m\<rparr>))"

text \<open>One turn of the inner loop; the flag says whether there was a byte.\<close>

definition spin_step ::
  "('x, 's, 'c) mavlink_lib \<Rightarrow> build \<Rightarrow> nat \<Rightarrow> ('w, 'x, 's, 'c) gateway
     \<Rightarrow> (bool \<times> ('w, 'x, 's, 'c) gateway) res" where
  "spin_step lib b i g =
     bind_res (arr_get (sources (pipe g)) i) (\<lambda>src.
     bind_res (deref (src_has_more src)) (\<lambda>has_more.
     bind_res (has_more (src_opaque src) (world g)) (\<lambda>(v, w1).
       if v = 0 then Inr (False, g\<lparr>world := w1\<rparr>)
       else bind_res (deref (src_read_byte src)) (\<lambda>read_byte.
            bind_res (read_byte (src_opaque src) w1) (\<lambda>(byte, w2).
            bind_res (spin_byte lib b i src byte (g\<lparr>world := w2\<rparr>)) (\<lambda>g'. Inr (True, g')))))))"

section \<open>The loops\<close>

partial_function (option) spin_loop ::
  "('x, 's, 'c) mavlink_lib \<Rightarrow> build \<Rightarrow> nat \<Rightarrow> bool \<Rightarrow> ('w, 'x, 's, 'c) gateway
     \<Rightarrow> (bool \<times> ('w, 'x, 's, 'c) gateway) res option" where
  "spin_loop lib b i has_load g =
     (case spin_step lib b i g of
        Inl f \<Rightarrow> Some (Inl f)
      | Inr (again, g') \<Rightarrow> if again then spin_loop lib b i True g' else Some (Inr (has_load, g')))"

definition spin_source ::
  "('x, 's, 'c) mavlink_lib \<Rightarrow> build \<Rightarrow> nat \<Rightarrow> bool \<Rightarrow> ('w, 'x, 's, 'c) gateway
     \<Rightarrow> (bool \<times> ('w, 'x, 's, 'c) gateway) res option" where
  "spin_source lib b i has_load g =
     bind_run (Some (arr_get (sources (pipe g)) i)) (\<lambda>src.
       if \<not> src_is_connected src then Some (Inr (has_load, g))
       else if src_has_more src = None \<or> src_read_byte src = None then Some (Inl Assert_Failed)
       else spin_loop lib b i has_load g)"

fun spin_sources ::
  "('x, 's, 'c) mavlink_lib \<Rightarrow> build \<Rightarrow> nat list \<Rightarrow> bool \<Rightarrow> ('w, 'x, 's, 'c) gateway
     \<Rightarrow> (bool \<times> ('w, 'x, 's, 'c) gateway) res option" where
  "spin_sources lib b [] has_load g = Some (Inr (has_load, g))"
| "spin_sources lib b (i # is) has_load g =
     bind_run (spin_source lib b i has_load g) (\<lambda>(has_load', g'). spin_sources lib b is has_load' g')"

text \<open>After the sources: the console, the accounting of the spin's time, and the report.\<close>

definition spin_finish ::
  "build \<Rightarrow> 'w env \<Rightarrow> u64 \<Rightarrow> bool \<Rightarrow> ('w, 'x, 's, 'c) gateway \<Rightarrow> (int \<times> ('w, 'x, 's, 'c) gateway) res" where
  "spin_finish b env tstart has_load g =
     bind_res (if USE_CONSOLE b then console_spin env g else Inr g) (\<lambda>g1.
       let (tend, w1) = time_us env (world g1);
           pf = perf_exec_unit_update (perf_secure_gateway g1) (tend - tstart) has_load;
           (now, w2) = time_us env w1
       in bind_res (perf_show pf (show_state g1) now) (\<lambda>(lines, pf', st).
            Inr (error_code SUCC, g1\<lparr>world := w2, perf_secure_gateway := pf', show_state := st,
                   log := log g1 @ lines\<rparr>)))"

definition pipeline_spin ::
  "('x, 's, 'c) mavlink_lib \<Rightarrow> build \<Rightarrow> 'w env \<Rightarrow> ('w, 'x, 's, 'c) gateway
     \<Rightarrow> (int \<times> ('w, 'x, 's, 'c) gateway) res option" where
  "pipeline_spin lib b env g =
     (let (tstart, w0) = time_us env (world g)
      in bind_run (spin_sources lib b [0 ..< MAX_SOURCES] False (g\<lparr>world := w0\<rparr>)) (\<lambda>(has_load, g1).
           Some (spin_finish b env tstart has_load g1)))"

section \<open>What a spin needs of a source\<close>

text \<open>Up to \<open>n\<close> turns of asking and reading.\<close>

fun read_n ::
  "'w has_more_t \<Rightarrow> 'w read_byte_t \<Rightarrow> nat option \<Rightarrow> nat \<Rightarrow> 'w \<Rightarrow> (u8 list \<times> 'w) res" where
  "read_n has_more read_byte opq 0 w = Inr ([], w)"
| "read_n has_more read_byte opq (Suc n) w =
     bind_res (has_more opq w) (\<lambda>(v, w1).
       if v = 0 then Inr ([], w1)
       else bind_res (read_byte opq w1) (\<lambda>(b, w2).
            bind_res (read_n has_more read_byte opq n w2) (\<lambda>(bs, w3). Inr (b # bs, w3))))"

text \<open>
  \<open>pending\<close> is the bytes a source still has to give, \<open>ok\<close> what holds of the world. Asking
  changes neither; reading, once the source has been asked, gives the first byte and
  leaves the others.
\<close>

locale byte_source =
  fixes has_more :: "'w has_more_t"
    and read_byte :: "'w read_byte_t"
    and opq :: "nat option"
    and ok :: "'w \<Rightarrow> bool"
    and pending :: "'w \<Rightarrow> u8 list"
  assumes has_more_ok: "ok w \<Longrightarrow>
      \<exists>v w'. has_more opq w = Inr (v, w') \<and> ok w' \<and> pending w' = pending w \<and> (v = 0 \<longleftrightarrow> pending w = [])"
    and read_byte_ok: "ok w \<Longrightarrow> pending w = b # bs \<Longrightarrow> has_more opq w = Inr (v, w1) \<Longrightarrow>
      \<exists>w'. read_byte opq w1 = Inr (b, w') \<and> ok w' \<and> pending w' = bs"
begin

lemma read_n_ok:
  "ok w \<Longrightarrow> \<exists>w'. read_n has_more read_byte opq n w = Inr (take n (pending w), w') \<and> ok w' \<and> pending w' = drop n (pending w)"
proof (induction n arbitrary: w)
  case 0
  then show ?case by simp
next
  case (Suc n)
  obtain v w1 where 1: "has_more opq w = Inr (v, w1)" "ok w1" "pending w1 = pending w"
      "v = 0 \<longleftrightarrow> pending w = []"
    using has_more_ok [OF Suc.prems] by blast
  show ?case
  proof (cases "pending w")
    case Nil
    with 1 show ?thesis by simp
  next
    case (Cons b bs)
    then obtain w2 where 2: "read_byte opq w1 = Inr (b, w2)" "ok w2" "pending w2 = bs"
      using read_byte_ok [OF Suc.prems Cons 1(1)] by auto
    from Suc.IH [OF 2(2)] 1 2 Cons show ?thesis by auto
  qed
qed

lemma drained: "ok w \<Longrightarrow> \<exists>w'. read_n has_more read_byte opq (length (pending w)) w = Inr (pending w, w') \<and> pending w' = []"
  using read_n_ok [of w "length (pending w)"] by auto

end

text \<open>
  For a whole pipeline: every connected source meets the contract, and reading one leaves
  what the others have pending.
\<close>

definition drains :: "('w \<Rightarrow> bool) \<Rightarrow> (nat \<Rightarrow> 'w \<Rightarrow> u8 list) \<Rightarrow> ('w, 'x, 's) pipeline_t \<Rightarrow> bool" where
  "drains ok pending p \<longleftrightarrow> (\<forall>i < 4. src_is_connected (sources p ! i) \<longrightarrow>
     (\<exists>h r. src_has_more (sources p ! i) = Some h \<and> src_read_byte (sources p ! i) = Some r
        \<and> (\<forall>qs. byte_source h r (src_opaque (sources p ! i))
                  (\<lambda>w. ok w \<and> (\<forall>j. j \<noteq> i \<longrightarrow> pending j w = qs j)) (pending i))))"

lemma drainsD:
  assumes "drains ok pending p" "i < 4" "src_is_connected (sources p ! i)"
  shows "\<exists>h r. src_has_more (sources p ! i) = Some h \<and> src_read_byte (sources p ! i) = Some r
    \<and> byte_source h r (src_opaque (sources p ! i))
        (\<lambda>w. ok w \<and> (\<forall>j. j \<noteq> i \<longrightarrow> pending j w = qs j)) (pending i)"
  using assms unfolding drains_def by blast

text \<open>Sources name themselves by a valid number, and their transforms keep it.\<close>

definition sources_named :: "('w, 'x, 's) pipeline_t \<Rightarrow> bool" where
  "sources_named p \<longleftrightarrow> (\<forall>i < 4. src_source_id (sources p ! i) < 4
     \<and> (transform_enabled p \<longrightarrow> (\<forall>f m. src_transform (sources p ! i) = Some f \<longrightarrow>
          (\<exists>m'. f m = Inr m' \<and> source m' = source m))))"

definition spin_ok ::
  "('w \<Rightarrow> bool) \<Rightarrow> (nat \<Rightarrow> 'w \<Rightarrow> u8 list) \<Rightarrow> build \<Rightarrow> ('w, 'x, 's, 'c) gateway \<Rightarrow> bool" where
  "spin_ok ok pending b g \<longleftrightarrow> gateway_wf g \<and> ok (world g) \<and> discards_quietly b (pipe g)
     \<and> drains ok pending (pipe g) \<and> sources_named (pipe g)
     \<and> (\<forall>qs. sinks_total (\<lambda>w. ok w \<and> (\<forall>j. pending j w = qs j)) (pipe g))"

text \<open>Pipelines that differ in the sources' message buffers only.\<close>

definition same_pipe :: "('w, 'x, 's) pipeline_t \<Rightarrow> ('w, 'x, 's) pipeline_t \<Rightarrow> bool" where
  "same_pipe p q \<longleftrightarrow> q\<lparr>sources := sources p\<rparr> = p \<and> length (sources q) = length (sources p)
     \<and> (\<forall>i < length (sources p). (sources q ! i)\<lparr>src_cur := src_cur (sources p ! i)\<rparr> = sources p ! i)"

lemma same_pipe_refl [simp]: "same_pipe p p"
  by (simp add: same_pipe_def)

lemma same_pipe_set_cur: "i < length (sources p) \<Longrightarrow> same_pipe p (set_cur p i m)"
  by (simp add: same_pipe_def set_cur_def nth_list_update)

lemma same_pipe_fields:
  assumes "same_pipe p q"
  shows "terminated q = terminated p \<and> policy_enabled q = policy_enabled p
    \<and> transform_enabled q = transform_enabled p \<and> snks q = snks p \<and> route_table q = route_table p
    \<and> policy_mgmt q = policy_mgmt p \<and> length (sources q) = length (sources p)"
  using assms by (cases p; cases q) (simp add: same_pipe_def)

lemma same_pipe_source:
  assumes "same_pipe p q" "i < length (sources p)"
  shows "src_is_connected (sources q ! i) = src_is_connected (sources p ! i)
    \<and> src_source_id (sources q ! i) = src_source_id (sources p ! i)
    \<and> src_opaque (sources q ! i) = src_opaque (sources p ! i)
    \<and> src_has_more (sources q ! i) = src_has_more (sources p ! i)
    \<and> src_read_byte (sources q ! i) = src_read_byte (sources p ! i)
    \<and> src_transform (sources q ! i) = src_transform (sources p ! i)"
proof -
  have "(sources q ! i)\<lparr>src_cur := src_cur (sources p ! i)\<rparr> = sources p ! i"
    using assms by (simp add: same_pipe_def)
  then show ?thesis by (cases "sources p ! i"; cases "sources q ! i") simp
qed

lemma same_pipe_trans:
  assumes "same_pipe p q" "same_pipe q r" shows "same_pipe p r"
proof -
  have "(sources r ! i)\<lparr>src_cur := src_cur (sources p ! i)\<rparr> = sources p ! i" if "i < length (sources p)" for i
  proof -
    have "(sources q ! i)\<lparr>src_cur := src_cur (sources p ! i)\<rparr> = sources p ! i"
      "(sources r ! i)\<lparr>src_cur := src_cur (sources q ! i)\<rparr> = sources q ! i"
      using assms that by (simp_all add: same_pipe_def)
    then show ?thesis by (cases "sources p ! i"; cases "sources q ! i"; cases "sources r ! i") simp
  qed
  moreover have "r\<lparr>sources := sources p\<rparr> = p"
    using assms by (cases p; cases q; cases r) (simp add: same_pipe_def)
  ultimately show ?thesis using assms by (simp add: same_pipe_def)
qed

lemma spin_ok_same:
  assumes "spin_ok ok pending b g" "same_pipe (pipe g) (pipe g')"
    "perf_show_ok (perf_secure_gateway g') (show_state g')" "ok (world g')"
  shows "spin_ok ok pending b g'"
proof -
  have len: "length (sources (pipe g)) = 4"
    using assms(1) by (simp add: spin_ok_def gateway_wf_def pipeline_wf_def)
  note f = same_pipe_fields [OF assms(2)]
  have src: "i < 4 \<Longrightarrow> src_is_connected (sources (pipe g') ! i) = src_is_connected (sources (pipe g) ! i)
    \<and> src_source_id (sources (pipe g') ! i) = src_source_id (sources (pipe g) ! i)
    \<and> src_opaque (sources (pipe g') ! i) = src_opaque (sources (pipe g) ! i)
    \<and> src_has_more (sources (pipe g') ! i) = src_has_more (sources (pipe g) ! i)
    \<and> src_read_byte (sources (pipe g') ! i) = src_read_byte (sources (pipe g) ! i)
    \<and> src_transform (sources (pipe g') ! i) = src_transform (sources (pipe g) ! i)" for i
    using same_pipe_source [OF assms(2), of i] len by simp
  have "drains ok pending (pipe g')"
    using assms(1) src by (simp add: spin_ok_def drains_def)
  moreover have "sources_named (pipe g')"
    using assms(1) src f by (simp add: spin_ok_def sources_named_def)
  moreover have "gateway_wf g'"
    using assms(1,3) f len by (simp add: spin_ok_def gateway_wf_def pipeline_wf_def)
  moreover have "sinks_total P (pipe g') = sinks_total P (pipe g)" for P
    using f by (simp add: sinks_total_def)
  ultimately show ?thesis
    using assms(1,4) f by (simp add: spin_ok_def discards_quietly_def)
qed

section \<open>A spin returns\<close>

lemma spin_message_total:
  assumes wf: "gateway_wf g" and names: "sources_named (pipe g)" and quiet: "discards_quietly b (pipe g)"
    and sinks: "sinks_total P (pipe g)" and P: "P (world g)" and i: "i < 4"
  shows "\<exists>m' g'. spin_message lib b i (sources (pipe g) ! i) m g = Inr (m', g') \<and> pipe g' = pipe g
    \<and> total_bytes g' = total_bytes g \<and> show_state g' = show_state g
    \<and> perf_show_ok (perf_secure_gateway g') (show_state g')
    \<and> P (world g')"
proof -
  let ?src = "sources (pipe g) ! i"
  let ?m1 = "m\<lparr>source := src_source_id ?src\<rparr>"
  have named: "src_source_id ?src < 4"
    using names i by (simp add: sources_named_def)
  obtain pf where pf: "perf_port_unit_update lib (perf_secure_gateway g) PERF_PORT_UNIT_TYPE_SOURCE i ?m1 = Inr pf"
      "perf_show_ok pf (show_state g)"
    using perf_show_ok_update [of "perf_secure_gateway g" "show_state g" i lib PERF_PORT_UNIT_TYPE_SOURCE ?m1] wf i
    by (auto simp: gateway_wf_def)
  obtain m2 where m2: "apply_transform (transform_enabled (pipe g)) (src_transform ?src) ?m1 = Inr m2"
      "source m2 < 4"
  proof (cases "transform_enabled (pipe g) \<and> src_transform ?src \<noteq> None")
    case True
    then obtain f where "src_transform ?src = Some f" by auto
    with True names i named that show ?thesis
      by (fastforce simp: sources_named_def apply_transform_def)
  next
    case False
    with named that [of ?m1] show ?thesis
      by (auto simp: apply_transform_def split: option.splits)
  qed
  let ?g1 = "g\<lparr>perf_secure_gateway := pf\<rparr>"
  have "gateway_wf ?g1" using wf pf(2) by (simp add: gateway_wf_def)
  then obtain m3 g3 where push: "pipeline_push lib b m2 ?g1 = Inr (0, m3, g3)" "gateway_wf g3"
      "same_but_world ?g1 g3" "P (world g3)"
    using pipeline_push_total [of ?g1 P m2 b lib] sinks m2(2) quiet P by auto
  then show ?thesis
    using pf(1) m2(1) same_but_world_fields [OF push(3)]
    by (simp add: spin_message_def gateway_wf_def)
qed

lemma spin_message_ok:
  assumes "spin_ok ok pending b g" and "i < 4"
  shows "\<exists>m' g'. spin_message lib b i (sources (pipe g) ! i) m g = Inr (m', g') \<and> pipe g' = pipe g
    \<and> total_bytes g' = total_bytes g \<and> show_state g' = show_state g
    \<and> perf_show_ok (perf_secure_gateway g') (show_state g')
    \<and> ok (world g') \<and> (\<forall>j. pending j (world g') = pending j (world g))"
  using assms spin_message_total [of g b "\<lambda>w. ok w \<and> (\<forall>j. pending j w = pending j (world g))" i lib m]
  by (simp add: spin_ok_def)

lemma spin_step_empty:
  assumes ok: "spin_ok ok pending b g" and i: "i < 4" and con: "src_is_connected (sources (pipe g) ! i)"
    and empty: "pending i (world g) = []"
  shows "\<exists>w. spin_step lib b i g = Inr (False, g\<lparr>world := w\<rparr>) \<and> ok w
    \<and> (\<forall>j. pending j w = pending j (world g))"
proof -
  let ?src = "sources (pipe g) ! i"
  have len: "length (sources (pipe g)) = 4" and w: "ok (world g)" and dr: "drains ok pending (pipe g)"
    using ok by (simp_all add: spin_ok_def gateway_wf_def pipeline_wf_def)
  obtain h r where hr: "src_has_more ?src = Some h"
      "byte_source h r (src_opaque ?src)
        (\<lambda>w. ok w \<and> (\<forall>j. j \<noteq> i \<longrightarrow> pending j w = pending j (world g))) (pending i)"
    using drainsD [OF dr i con, of "\<lambda>j. pending j (world g)"] by blast
  from byte_source.has_more_ok [OF hr(2), of "world g"] w empty obtain w' where
    "h (src_opaque ?src) (world g) = Inr (0, w')" "ok w'"
    "\<forall>j. j \<noteq> i \<longrightarrow> pending j w' = pending j (world g)" "pending i w' = pending i (world g)" by auto
  moreover have "pending j w' = pending j (world g)" for j
    using calculation by (cases "j = i") auto
  ultimately show ?thesis
    using hr(1) len i by (auto simp: spin_step_def intro!: exI [of _ w'])
qed

lemma spin_step_more:
  assumes ok: "spin_ok ok pending b g" and i: "i < 4" and con: "src_is_connected (sources (pipe g) ! i)"
    and more: "pending i (world g) = x # xs"
  shows "\<exists>g'. spin_step lib b i g = Inr (True, g') \<and> spin_ok ok pending b g' \<and> same_pipe (pipe g) (pipe g')
    \<and> total_bytes g' = total_bytes g + 1
    \<and> pending i (world g') = xs \<and> (\<forall>j. j \<noteq> i \<longrightarrow> pending j (world g') = pending j (world g))"
proof -
  let ?src = "sources (pipe g) ! i"
  have len: "length (sources (pipe g)) = 4" and w: "ok (world g)" and dr: "drains ok pending (pipe g)"
    using ok by (simp_all add: spin_ok_def gateway_wf_def pipeline_wf_def)
  obtain h r where hr: "src_has_more ?src = Some h" "src_read_byte ?src = Some r"
      "byte_source h r (src_opaque ?src)
        (\<lambda>w. ok w \<and> (\<forall>j. j \<noteq> i \<longrightarrow> pending j w = pending j (world g))) (pending i)"
    using drainsD [OF dr i con, of "\<lambda>j. pending j (world g)"] by blast
  from byte_source.has_more_ok [OF hr(3), of "world g"] w more obtain v w1 where
    1: "h (src_opaque ?src) (world g) = Inr (v, w1)" "v \<noteq> 0" "ok w1"
      "\<forall>j. j \<noteq> i \<longrightarrow> pending j w1 = pending j (world g)" "pending i w1 = x # xs" by auto
  from byte_source.read_byte_ok [OF hr(3) _ more 1(1)] w obtain w2 where
    2: "r (src_opaque ?src) w1 = Inr (x, w2)" "ok w2"
      "\<forall>j. j \<noteq> i \<longrightarrow> pending j w2 = pending j (world g)" "pending i w2 = xs" by auto
  obtain rv c ms st where parse: "mavlink_parse_char lib i x (chan g) (msg (src_cur ?src)) (status (src_cur ?src))
      = (rv, c, ms, st)" by (metis prod_cases4)
  let ?m = "(src_cur ?src)\<lparr>msg := ms, status := st\<rparr>"
  let ?g1 = "g\<lparr>world := w2, total_bytes := total_bytes g + 1, chan := c\<rparr>"
  have ok1: "spin_ok ok pending b ?g1"
    using spin_ok_same [OF ok, of ?g1] ok 2(2) by (simp add: spin_ok_def gateway_wf_def)
  have wf: "perf_show_ok (perf_secure_gateway g) (show_state g)"
    using ok by (simp add: spin_ok_def gateway_wf_def)
  show ?thesis
  proof (cases "rv = MAVLINK_FRAMING_OK")
    case True
    obtain m' g2 where m: "spin_message lib b i ?src ?m ?g1 = Inr (m', g2)" "pipe g2 = pipe g"
        "total_bytes g2 = total_bytes g + 1" "perf_show_ok (perf_secure_gateway g2) (show_state g2)"
        "ok (world g2)" "\<forall>j. pending j (world g2) = pending j w2"
      using spin_message_ok [OF ok1 i, of lib ?m] by auto
    let ?g3 = "g2\<lparr>pipe := set_cur (pipe g2) i m'\<rparr>"
    have same: "same_pipe (pipe g) (pipe ?g3)" using m(2) len i by (simp add: same_pipe_set_cur)
    moreover have "spin_ok ok pending b ?g3"
      using spin_ok_same [OF ok same] m by simp
    ultimately show ?thesis
      using hr 1 2 parse True m len i by (auto simp: spin_step_def spin_byte_def)
  next
    case False
    let ?g3 = "?g1\<lparr>pipe := set_cur (pipe g) i ?m\<rparr>"
    have same: "same_pipe (pipe g) (pipe ?g3)" using len i by (simp add: same_pipe_set_cur)
    moreover have "spin_ok ok pending b ?g3"
      using spin_ok_same [OF ok same] wf 2 by simp
    ultimately show ?thesis
      using hr 1 2 parse False len i by (cases rv) (auto simp: spin_step_def spin_byte_def Let_def)
  qed
qed

lemma spin_loop_ok:
  assumes "spin_ok ok pending b g" "i < 4" "src_is_connected (sources (pipe g) ! i)"
  shows "\<exists>load' g'. spin_loop lib b i load g = Some (Inr (load', g')) \<and> spin_ok ok pending b g'
    \<and> same_pipe (pipe g) (pipe g')
    \<and> total_bytes g' = total_bytes g + of_nat (length (pending i (world g)))
    \<and> pending i (world g') = [] \<and> (\<forall>j. j \<noteq> i \<longrightarrow> pending j (world g') = pending j (world g))"
  using assms
proof (induction "pending i (world g)" arbitrary: g load)
  case Nil
  from spin_step_empty [OF Nil.prems Nil.hyps [symmetric], of lib] obtain w where
    w: "spin_step lib b i g = Inr (False, g\<lparr>world := w\<rparr>)" "ok w" "\<forall>j. pending j w = pending j (world g)"
    by blast
  have "spin_ok ok pending b (g\<lparr>world := w\<rparr>)"
    using spin_ok_same [OF Nil.prems(1), of "g\<lparr>world := w\<rparr>"] Nil.prems(1) w(2)
    by (simp add: spin_ok_def gateway_wf_def)
  then show ?case using w Nil.hyps by (simp add: spin_loop.simps)
next
  case (Cons x xs)
  from spin_step_more [OF Cons.prems Cons.hyps(2) [symmetric], of lib] obtain g1 where
    g1: "spin_step lib b i g = Inr (True, g1)" "spin_ok ok pending b g1" "same_pipe (pipe g) (pipe g1)"
      "total_bytes g1 = total_bytes g + 1"
      "pending i (world g1) = xs" "\<forall>j. j \<noteq> i \<longrightarrow> pending j (world g1) = pending j (world g)" by blast
  have "src_is_connected (sources (pipe g1) ! i)"
    using same_pipe_source [OF g1(3), of i] Cons.prems by (simp add: spin_ok_def gateway_wf_def pipeline_wf_def)
  from Cons.hyps(1) [OF g1(5) [symmetric] g1(2) Cons.prems(2) this, of True] obtain load' g' where
    "spin_loop lib b i True g1 = Some (Inr (load', g'))" "spin_ok ok pending b g'" "same_pipe (pipe g1) (pipe g')"
    "total_bytes g' = total_bytes g1 + of_nat (length xs)" "pending i (world g') = []"
    "\<forall>j. j \<noteq> i \<longrightarrow> pending j (world g') = pending j (world g1)"
    using g1(5) by auto
  with g1 Cons.hyps(2) [symmetric] show ?case
    by (subst spin_loop.simps) (auto intro: same_pipe_trans)
qed

lemma spin_source_ok:
  assumes ok: "spin_ok ok pending b g" and i: "i < 4"
  shows "\<exists>load' g'. spin_source lib b i load g = Some (Inr (load', g')) \<and> spin_ok ok pending b g'
    \<and> same_pipe (pipe g) (pipe g')
    \<and> total_bytes g' = total_bytes g
        + of_nat (if src_is_connected (sources (pipe g) ! i) then length (pending i (world g)) else 0)
    \<and> (src_is_connected (sources (pipe g) ! i) \<longrightarrow> pending i (world g') = [])
    \<and> (\<forall>j. j \<noteq> i \<longrightarrow> pending j (world g') = pending j (world g))"
proof (cases "src_is_connected (sources (pipe g) ! i)")
  case True
  have "drains ok pending (pipe g)" using ok by (simp add: spin_ok_def)
  with True i spin_loop_ok [OF ok i True, of lib load] ok show ?thesis
    by (auto simp: spin_source_def spin_ok_def gateway_wf_def pipeline_wf_def dest!: drainsD)
next
  case False
  with ok i show ?thesis by (simp add: spin_source_def spin_ok_def gateway_wf_def pipeline_wf_def)
qed

text \<open>The bytes the connected sources of a pipeline have pending.\<close>

definition waiting :: "(nat \<Rightarrow> 'w \<Rightarrow> u8 list) \<Rightarrow> nat list \<Rightarrow> ('w, 'x, 's) pipeline_t \<Rightarrow> 'w \<Rightarrow> nat" where
  "waiting pending is p w =
     sum_list (map (\<lambda>i. if src_is_connected (sources p ! i) then length (pending i w) else 0) is)"

lemma spin_sources_ok:
  assumes "spin_ok ok pending b g" "\<forall>i \<in> set is. i < 4" "distinct is"
  shows "\<exists>load' g'. spin_sources lib b is load g = Some (Inr (load', g')) \<and> spin_ok ok pending b g'
    \<and> same_pipe (pipe g) (pipe g')
    \<and> total_bytes g' = total_bytes g + of_nat (waiting pending is (pipe g) (world g))
    \<and> (\<forall>i \<in> set is. src_is_connected (sources (pipe g) ! i) \<longrightarrow> pending i (world g') = [])
    \<and> (\<forall>j. j \<notin> set is \<longrightarrow> pending j (world g') = pending j (world g))"
  using assms
proof (induction "is" arbitrary: g load)
  case Nil
  then show ?case by (simp add: waiting_def)
next
  case (Cons i "is")
  have len: "length (sources (pipe g)) = 4"
    using Cons.prems(1) by (simp add: spin_ok_def gateway_wf_def pipeline_wf_def)
  obtain load1 g1 where g1: "spin_source lib b i load g = Some (Inr (load1, g1))" "spin_ok ok pending b g1"
      "same_pipe (pipe g) (pipe g1)"
      "total_bytes g1 = total_bytes g
        + of_nat (if src_is_connected (sources (pipe g) ! i) then length (pending i (world g)) else 0)"
      "src_is_connected (sources (pipe g) ! i) \<longrightarrow> pending i (world g1) = []"
      "\<forall>j. j \<noteq> i \<longrightarrow> pending j (world g1) = pending j (world g)"
    using spin_source_ok [OF Cons.prems(1), of i lib load] Cons.prems(2) by auto
  obtain load' g' where g': "spin_sources lib b is load1 g1 = Some (Inr (load', g'))" "spin_ok ok pending b g'"
      "same_pipe (pipe g1) (pipe g')"
      "total_bytes g' = total_bytes g1 + of_nat (waiting pending is (pipe g1) (world g1))"
      "\<forall>k \<in> set is. src_is_connected (sources (pipe g1) ! k) \<longrightarrow> pending k (world g') = []"
      "\<forall>j. j \<notin> set is \<longrightarrow> pending j (world g') = pending j (world g1)"
    using Cons.IH [OF g1(2), of load1] Cons.prems(2,3) by auto
  have con: "src_is_connected (sources (pipe g1) ! k) = src_is_connected (sources (pipe g) ! k)" if "k < 4" for k
    using same_pipe_source [OF g1(3), of k] that len by simp
  have others: "pending k (world g1) = pending k (world g)" if "k \<in> set is" for k
    using that Cons.prems(3) g1(6) by auto
  have "waiting pending is (pipe g1) (world g1) = waiting pending is (pipe g) (world g)"
    unfolding waiting_def using Cons.prems(2) others con
    by (intro arg_cong [where f = sum_list] map_cong) auto
  moreover have "same_pipe (pipe g) (pipe g')" using g1(3) g'(3) by (rule same_pipe_trans)
  moreover have "pending k (world g') = []"
    if "k \<in> set (i # is)" "src_is_connected (sources (pipe g) ! k)" for k
    using that g'(5,6) g1(5) con [of k] Cons.prems(2,3) by (cases "k = i") auto
  ultimately show ?case
    using g1(1,4,6) g' by (auto simp: waiting_def)
qed

text \<open>The clock and the console leave the sources alone; keys are ASCII.\<close>

definition env_ok :: "('w \<Rightarrow> bool) \<Rightarrow> (nat \<Rightarrow> 'w \<Rightarrow> u8 list) \<Rightarrow> build \<Rightarrow> 'w env \<Rightarrow> bool" where
  "env_ok ok pending b env \<longleftrightarrow>
     (\<forall>w now w'. time_us env w = (now, w') \<longrightarrow> ok w \<longrightarrow> ok w' \<and> (\<forall>j. pending j w' = pending j w))
     \<and> (USE_CONSOLE b \<longrightarrow> (\<forall>w c w'. read_char env w = (c, w') \<longrightarrow> ok w \<longrightarrow>
          unat c < 128 \<and> ok w' \<and> (\<forall>j. pending j w' = pending j w)))"

lemma spin_console_ok:
  assumes "env_ok ok pending b env" "ok (world g)"
  shows "\<exists>g'. (if USE_CONSOLE b then console_spin env g else Inr g) = Inr g' \<and> ok (world g')
    \<and> (\<forall>j. pending j (world g') = pending j (world g)) \<and> total_bytes g' = total_bytes g"
proof (cases "USE_CONSOLE b")
  case True
  obtain now w1 where t: "time_us env (world g) = (now, w1)" by (rule prod.exhaust)
  obtain c w2 where c: "read_char env w1 = (c, w2)" by (rule prod.exhaust)
  have 1: "ok w1" "\<forall>j. pending j w1 = pending j (world g)"
    using assms t by (auto simp: env_ok_def)
  have 2: "unat c < 128" "ok w2" "\<forall>j. pending j w2 = pending j w1"
    using assms(1) True c 1(1) by (auto simp: env_ok_def)
  show ?thesis
    using True 1 2 by (simp add: console_spin_cases [OF t c] console_key_def)
qed (use assms in simp)

lemma spin_finish_ok:
  assumes env: "env_ok ok pending b env" and ok: "ok (world g)" and wf: "gateway_wf g"
  shows "\<exists>g'. spin_finish b env tstart load g = Inr (0, g') \<and> gateway_wf g'
    \<and> terminated (pipe g') = terminated (pipe g) \<and> total_bytes g' = total_bytes g
    \<and> ok (world g') \<and> (\<forall>j. pending j (world g') = pending j (world g))"
proof -
  obtain g1 where g1: "(if USE_CONSOLE b then console_spin env g else Inr g) = Inr g1" "ok (world g1)"
      "\<forall>j. pending j (world g1) = pending j (world g)" "total_bytes g1 = total_bytes g"
    using spin_console_ok [OF env ok] by blast
  have frame: "terminated (pipe g1) = terminated (pipe g) \<and> sources (pipe g1) = sources (pipe g)
   \<and> snks (pipe g1) = snks (pipe g) \<and> route_table (pipe g1) = route_table (pipe g)
   \<and> policy_mgmt (pipe g1) = policy_mgmt (pipe g)
   \<and> perf_secure_gateway g1 = perf_secure_gateway g \<and> show_state g1 = show_state g"
    using g1(1) console_spin_frame [of env g g1] by (auto split: if_splits)
  obtain tend w1 where t1: "time_us env (world g1) = (tend, w1)" by (rule prod.exhaust)
  obtain now w2 where t2: "time_us env w1 = (now, w2)" by (rule prod.exhaust)
  have w: "ok w1 \<and> (\<forall>j. pending j w1 = pending j (world g1))" "ok w2 \<and> (\<forall>j. pending j w2 = pending j w1)"
    using env t1 t2 g1(2) by (auto simp: env_ok_def)
  let ?pf = "perf_exec_unit_update (perf_secure_gateway g1) (tend - tstart) load"
  have "perf_show_ok ?pf (show_state g1)"
    using wf frame by (simp add: gateway_wf_def perf_show_ok_exec_update)
  then obtain ls pf st where sh: "perf_show ?pf (show_state g1) now = Inr (ls, pf, st)" "perf_show_ok pf st"
    using perf_show_total by blast
  have "pipeline_wf (pipe g1)"
    using wf frame by (simp add: gateway_wf_def pipeline_wf_def)
  then show ?thesis
    using g1 t1 t2 sh w frame by (simp add: spin_finish_def gateway_wf_def)
qed

lemma pipeline_spin_ok:
  assumes ok: "spin_ok ok pending b g" and env: "env_ok ok pending b env"
  shows "\<exists>g'. pipeline_spin lib b env g = Some (Inr (0, g')) \<and> gateway_wf g'
    \<and> terminated (pipe g') = terminated (pipe g)
    \<and> total_bytes g' = total_bytes g + of_nat (waiting pending [0 ..< 4] (pipe g) (world g))
    \<and> ok (world g') \<and> (\<forall>i < 4. src_is_connected (sources (pipe g) ! i) \<longrightarrow> pending i (world g') = [])"
proof -
  obtain t w0 where t: "time_us env (world g) = (t, w0)" by (rule prod.exhaust)
  have w0: "ok w0" "\<forall>j. pending j w0 = pending j (world g)"
    using env ok t by (auto simp: env_ok_def spin_ok_def)
  let ?g0 = "g\<lparr>world := w0\<rparr>"
  have ok0: "spin_ok ok pending b ?g0"
    using spin_ok_same [OF ok, of ?g0] ok w0 by (simp add: spin_ok_def gateway_wf_def)
  obtain load g1 where g1: "spin_sources lib b [0 ..< 4] False ?g0 = Some (Inr (load, g1))"
      "spin_ok ok pending b g1" "same_pipe (pipe g) (pipe g1)"
      "total_bytes g1 = total_bytes g + of_nat (waiting pending [0 ..< 4] (pipe g) w0)"
      "\<forall>i \<in> set [0 ..< 4]. src_is_connected (sources (pipe g) ! i) \<longrightarrow> pending i (world g1) = []"
    using spin_sources_ok [OF ok0, of "[0 ..< 4]" lib False] by auto
  obtain g' where g': "spin_finish b env t load g1 = Inr (0, g')" "gateway_wf g'"
      "terminated (pipe g') = terminated (pipe g1)" "total_bytes g' = total_bytes g1"
      "ok (world g')" "\<forall>j. pending j (world g') = pending j (world g1)"
    using spin_finish_ok [OF env, of g1 t load] g1(2) by (auto simp: spin_ok_def)
  have "waiting pending [0 ..< 4] (pipe g) w0 = waiting pending [0 ..< 4] (pipe g) (world g)"
    using w0(2) by (simp add: waiting_def)
  moreover have "terminated (pipe g1) = terminated (pipe g)"
    using same_pipe_fields [OF g1(3)] by simp
  moreover have "pipeline_spin lib b env g = Some (Inr (0, g'))"
    using t g1(1) g'(1) by (simp add: pipeline_spin_def del: upt_4)
  moreover have "\<forall>i < 4. src_is_connected (sources (pipe g) ! i) \<longrightarrow> pending i (world g') = []"
    using g1(5) g'(6) by (simp del: upt_4)
  ultimately show ?thesis using g1(4) g' by simp
qed

section \<open>A spin that does not return\<close>

lemma deliver_loop_pipe: "deliver_loop lib is m g = Inr (m', g') \<Longrightarrow> pipe g' = pipe g"
proof (induction "is" arbitrary: m g)
  case (Cons i "is")
  then show ?case
    by (auto simp: res_simps split: option.splits if_splits dest!: Cons.IH)
qed simp

lemma route_discarded_pipe: "route_discarded m g = Inr g' \<Longrightarrow> pipe g' = pipe g"
  by (auto simp: route_discarded_def res_simps split: option.splits)

lemma pipeline_push_pipe:
  assumes "pipeline_push lib b m g = Inr (rv, m', g')" shows "pipe g' = pipe g"
proof -
  obtain m2 discard where
    "(if discard \<noteq> (0 :: u32)
      then bind_res (if DEBUG b then route_discarded m2 g else Inr g) (\<lambda>g1. Inr (0 :: int, m2, g1))
      else bind_res (deliver_loop lib [0 ..< MAX_SINKS] m2 g) (\<lambda>(m3, g1). Inr (0, m3, g1))) = Inr (rv, m', g')"
    using assms unfolding pipeline_push_def route_table_route_def
    by (auto simp: res_simps assert_that_bind)
  then show ?thesis
    by (auto simp: res_simps simp del: max_ports deliver_loop.simps split: if_splits
        dest: route_discarded_pipe deliver_loop_pipe)
qed

lemma spin_message_pipe: "spin_message lib b i src m g = Inr (m', g') \<Longrightarrow> pipe g' = pipe g"
  by (auto simp: spin_message_def Let_def res_simps dest: pipeline_push_pipe)

lemma set_cur_source:
  "j < length (sources p) \<Longrightarrow> i < length (sources p) \<Longrightarrow>
     src_has_more (sources (set_cur p i m) ! j) = src_has_more (sources p ! j)
     \<and> src_opaque (sources (set_cur p i m) ! j) = src_opaque (sources p ! j)
     \<and> src_is_connected (sources (set_cur p i m) ! j) = src_is_connected (sources p ! j)"
  by (simp add: set_cur_def nth_list_update)

text \<open>The pipeline after a step, a loop or a round: the same but for message buffers.\<close>

lemma spin_byte_same:
  assumes "spin_byte lib b i src byte g = Inr g'" "i < length (sources (pipe g))"
  shows "same_pipe (pipe g) (pipe g')"
proof -
  obtain rv c ms st where parse: "mavlink_parse_char lib i byte (chan g) (msg (src_cur src)) (status (src_cur src))
      = (rv, c, ms, st)" by (metis prod_cases4)
  show ?thesis
    using assms same_pipe_set_cur [OF assms(2)] parse
    by (cases rv) (auto simp: spin_byte_def Let_def res_simps dest!: spin_message_pipe)
qed

lemma spin_step_same:
  assumes "spin_step lib b i g = Inr (again, g')" shows "same_pipe (pipe g) (pipe g')"
  using assms by (auto simp: spin_step_def res_simps dest!: spin_byte_same split: if_splits)

lemma spin_loop_result:
  assumes run: "spin_loop lib b i load g = Some r"
  shows "\<forall>load' g'. r = Inr (load', g') \<longrightarrow> same_pipe (pipe g) (pipe g')
    \<and> (\<exists>g1. same_pipe (pipe g) (pipe g1) \<and> spin_step lib b i g1 = Inr (False, g'))"
    (is "?P lib b i load g r")
proof (rule spin_loop.raw_induct [where P = ?P, OF _ run])
  fix loop lib b i load g r
  assume 1: "\<And>lib b i load g r. loop lib b i load g = Some r \<Longrightarrow> ?P lib b i load g r"
    "(case spin_step lib b i g of Inl f \<Rightarrow> Some (Inl f)
      | Inr (again, g') \<Rightarrow> if again then loop lib b i True g' else Some (Inr (load, g'))) = Some r"
  show "?P lib b i load g r"
  proof (cases "spin_step lib b i g")
    case (Inl f)
    with 1(2) show ?thesis by auto
  next
    case (Inr a)
    obtain again g1 where step: "spin_step lib b i g = Inr (again, g1)" using Inr by (cases a) auto
    note same = spin_step_same [OF step]
    show ?thesis
    proof (cases again)
      case True
      with 1(2) step have "loop lib b i True g1 = Some r" by simp
      from 1(1) [OF this] same show ?thesis by (blast intro: same_pipe_trans)
    next
      case False
      with 1(2) step same show ?thesis by (auto intro!: exI [of _ g])
    qed
  qed
qed

lemma spin_source_result:
  assumes "spin_source lib b i load g = Some (Inr (load', g'))" "i < length (sources (pipe g))"
  shows "same_pipe (pipe g) (pipe g') \<and> (src_is_connected (sources (pipe g) ! i) \<longrightarrow>
    (\<exists>g1. same_pipe (pipe g) (pipe g1) \<and> spin_step lib b i g1 = Inr (False, g')))"
  using assms spin_loop_result [of lib b i load g "Inr (load', g')"]
  by (auto simp: spin_source_def split: if_splits)

lemma bind_run_eq_Some_Inr:
  "bind_run x k = Some (Inr r) \<longleftrightarrow> (\<exists>y. x = Some (Inr y) \<and> k y = Some (Inr r))"
  by (cases "(x, k)" rule: bind_run.cases) auto

lemma spin_sources_result:
  assumes "spin_sources lib b is load g = Some (Inr (load', g'))" "i \<in> set is"
    "\<forall>i \<in> set is. i < length (sources (pipe g))" "src_is_connected (sources (pipe g) ! i)"
  shows "\<exists>g1 g2. same_pipe (pipe g) (pipe g1) \<and> spin_step lib b i g1 = Inr (False, g2)"
  using assms
proof (induction "is" arbitrary: g load)
  case (Cons j "is")
  then obtain load1 g1 where g1: "spin_source lib b j load g = Some (Inr (load1, g1))"
      "spin_sources lib b is load1 g1 = Some (Inr (load', g'))"
    by (auto simp: bind_run_eq_Some_Inr)
  have j: "j < length (sources (pipe g))" using Cons.prems(3) by simp
  note res = spin_source_result [OF g1(1) j]
  show ?case
  proof (cases "i = j")
    case True
    with res Cons.prems(4) show ?thesis by blast
  next
    case False
    then have "i \<in> set is" using Cons.prems(2) by simp
    moreover have "\<forall>i \<in> set is. i < length (sources (pipe g1))"
      using Cons.prems(3) res same_pipe_fields [of "pipe g" "pipe g1"] by simp
    moreover have "src_is_connected (sources (pipe g1) ! i)"
      using res same_pipe_source [of "pipe g" "pipe g1" i] Cons.prems(3,4) calculation(1) by simp
    ultimately show ?thesis
      using Cons.IH [OF g1(2)] res by (blast intro: same_pipe_trans)
  qed
qed simp

lemma spin_step_asks:
  assumes "spin_step lib b i g = Inr (False, g')"
  shows "\<exists>h w. src_has_more (sources (pipe g) ! i) = Some h
    \<and> h (src_opaque (sources (pipe g) ! i)) (world g) = Inr (0, w)"
  using assms by (auto simp: spin_step_def res_simps split: if_splits)

lemma spin_never_returns:
  assumes "i < length (sources (pipe g))" and "length (sources (pipe g)) = 4"
    and "src_is_connected (sources (pipe g) ! i)" and "src_has_more (sources (pipe g) ! i) = Some h"
    and "\<forall>w v w'. h (src_opaque (sources (pipe g) ! i)) w = Inr (v, w') \<longrightarrow> v \<noteq> 0"
  shows "pipeline_spin lib b env g \<noteq> Some (Inr (rv, g'))"
proof
  assume "pipeline_spin lib b env g = Some (Inr (rv, g'))"
  then obtain w load g1 where "spin_sources lib b [0 ..< MAX_SOURCES] False (g\<lparr>world := w\<rparr>) = Some (Inr (load, g1))"
    by (auto simp: pipeline_spin_def bind_run_eq_Some_Inr simp del: upt_4 split: prod.splits)
  from spin_sources_result [OF this, of i] assms obtain g2 g3 where
    g2: "same_pipe (pipe g) (pipe g2)" "spin_step lib b i g2 = Inr (False, g3)"
    by (auto simp del: upt_4)
  from spin_step_asks [OF g2(2)] same_pipe_source [OF g2(1) assms(1)] assms(4,5) show False by auto
qed

section \<open>What a mission computer's bytes become\<close>

text \<open>
  The parser does not look at the message and status it overwrites: its own channel state
  carries what it has seen so far. \<open>frames\<close> is the messages it finds in a byte stream.
\<close>

definition parser_overwrites :: "('x, 's, 'c) mavlink_lib \<Rightarrow> bool" where
  "parser_overwrites lib \<longleftrightarrow> (\<forall>ch b c m s m' s'.
     fst (mavlink_parse_char lib ch b c m s) = fst (mavlink_parse_char lib ch b c m' s')
     \<and> fst (snd (mavlink_parse_char lib ch b c m s)) = fst (snd (mavlink_parse_char lib ch b c m' s'))
     \<and> (fst (mavlink_parse_char lib ch b c m s) = MAVLINK_FRAMING_OK \<longrightarrow>
          fst (snd (snd (mavlink_parse_char lib ch b c m s)))
            = fst (snd (snd (mavlink_parse_char lib ch b c m' s')))))"

fun frames :: "('x, 's, 'c) mavlink_lib \<Rightarrow> nat \<Rightarrow> 'c \<Rightarrow> u8 list \<Rightarrow> 'x mavlink_message list" where
  "frames lib ch c [] = []"
| "frames lib ch c (x # xs) =
     (let (rv, c', m, _) = mavlink_parse_char lib ch x c (msg (zero_message lib)) (zero_status lib)
      in (if rv = MAVLINK_FRAMING_OK then [m] else []) @ frames lib ch c' xs)"

text \<open>\<open>sent\<close> is what went out of the vehicle's port: its route appends the message.\<close>

definition records_to ::
  "('w \<Rightarrow> bool) \<Rightarrow> (nat \<Rightarrow> 'w \<Rightarrow> u8 list) \<Rightarrow> ('w \<Rightarrow> 'x mavlink_message list) \<Rightarrow> ('w, 'x, 's) sink_t \<Rightarrow> bool" where
  "records_to ok pending sent snk \<longleftrightarrow> (\<exists>r. snk_route snk = Some r \<and> (\<forall>m w. ok w \<longrightarrow>
     (\<exists>v w'. r (snk_opaque snk) m w = Inr (v, w') \<and> ok w' \<and> (\<forall>j. pending j w' = pending j w)
        \<and> sent w' = sent w @ [msg m])))"

definition session ::
  "('x, 's, 'c) mavlink_lib \<Rightarrow> build \<Rightarrow> ('w \<Rightarrow> bool) \<Rightarrow> (nat \<Rightarrow> 'w \<Rightarrow> u8 list) \<Rightarrow> ('w \<Rightarrow> 'x mavlink_message list)
     \<Rightarrow> nat \<Rightarrow> ('w, 'x, 's, 'c) gateway \<Rightarrow> bool" where
  "session lib b ok pending sent i g \<longleftrightarrow> gateway_wf g \<and> ok (world g) \<and> default_config lib (pipe g)
     \<and> policy_enabled (pipe g) \<and> \<not> transform_enabled (pipe g) \<and> discards_quietly b (pipe g)
     \<and> src_is_connected (sources (pipe g) ! i) \<and> src_source_id (sources (pipe g) ! i) = i
     \<and> (\<forall>s. drains (\<lambda>w. ok w \<and> sent w = s) pending (pipe g))
     \<and> records_to ok pending sent (snks (pipe g) ! sink_index SINK_TYPE_VMC)"

definition blocked :: "('x, 's, 'c) mavlink_lib \<Rightarrow> nat \<Rightarrow> 'x mavlink_message \<Rightarrow> bool" where
  "blocked lib i x \<longleftrightarrow> forbidden lib ((zero_message lib)\<lparr>msg := x, source := i\<rparr>)"

lemma forbidden_blocked: "forbidden lib m = blocked lib (source m) (msg m)"
  by (simp add: blocked_def forbidden_def from_mission_computer_def disables_geofence_def)

lemma session_same:
  assumes "session lib b ok pending sent i g" "same_pipe (pipe g) (pipe g')" "i < 4"
    "perf_show_ok (perf_secure_gateway g') (show_state g')" "ok (world g')"
  shows "session lib b ok pending sent i g'"
proof -
  note f = same_pipe_fields [OF assms(2)]
  have len: "length (sources (pipe g)) = 4"
    using assms(1) by (simp add: session_def gateway_wf_def pipeline_wf_def)
  note src = same_pipe_source [OF assms(2), unfolded len]
  have wf: "pipeline_wf (pipe g')"
    using assms(1) f len by (simp add: session_def gateway_wf_def pipeline_wf_def)
  moreover have "default_config lib (pipe g')"
    using assms(1) f wf by (simp add: session_def default_config_def)
  moreover have "drains P pending (pipe g')" if "drains P pending (pipe g)" for P
    using that src by (simp add: drains_def)
  ultimately show ?thesis
    using assms f src by (simp add: session_def gateway_wf_def discards_quietly_def)
qed

lemma deliver_to_vmc:
  assumes "session lib b ok pending sent i g"
  shows "\<exists>m' g'. deliver_to lib [1] m g = Inr (m', g') \<and> same_but_world g g' \<and> ok (world g')
    \<and> perf_show_ok (perf_secure_gateway g') (show_state g') \<and> sent (world g') = sent (world g) @ [msg m]
    \<and> (\<forall>j. pending j (world g') = pending j (world g))"
proof -
  let ?snk = "snks (pipe g) ! 1"
  have facts: "ok (world g)" "\<not> transform_enabled (pipe g)" "perf_show_ok (perf_secure_gateway g) (show_state g)"
    "records_to ok pending sent ?snk"
    using assms by (simp_all add: session_def gateway_wf_def)
  then obtain r v w where r: "snk_route ?snk = Some r" "r (snk_opaque ?snk) m (world g) = Inr (v, w)" "ok w"
      "\<forall>j. pending j w = pending j (world g)" "sent w = sent (world g) @ [msg m]"
    unfolding records_to_def by blast
  obtain pf where pf: "perf_port_unit_update lib (perf_secure_gateway g) PERF_PORT_UNIT_TYPE_SINK 1 m = Inr pf"
      "perf_show_ok pf (show_state g)"
    using perf_show_ok_update [OF facts(3), of 1 lib PERF_PORT_UNIT_TYPE_SINK m] by auto
  have "apply_transform False (snk_transform ?snk) m = Inr m"
    by (simp add: apply_transform_def split: option.splits)
  then have "deliver_to lib [1] m g = Inr (m, g\<lparr>world := w, perf_secure_gateway := pf\<rparr>)"
    using r pf facts(2) by simp
  then show ?thesis
    using r pf by (auto simp: same_but_world_def)
qed

lemma session_message:
  assumes ses: "session lib b ok pending sent i g" and i: "i = 2 \<or> i = 3"
  shows "\<exists>m' g'. spin_message lib b i (sources (pipe g) ! i) m g = Inr (m', g') \<and> pipe g' = pipe g
    \<and> chan g' = chan g \<and> perf_show_ok (perf_secure_gateway g') (show_state g') \<and> ok (world g')
    \<and> (\<forall>j. pending j (world g') = pending j (world g))
    \<and> sent (world g') = sent (world g) @ (if blocked lib i (msg m) then [] else [msg m])"
proof -
  let ?src = "sources (pipe g) ! i" and ?m1 = "m\<lparr>source := i\<rparr>"
  have name: "src_source_id ?src = i" and en: "\<not> transform_enabled (pipe g)"
    and sh: "perf_show_ok (perf_secure_gateway g) (show_state g)"
    using ses by (simp_all add: session_def gateway_wf_def)
  obtain pf where pf: "perf_port_unit_update lib (perf_secure_gateway g) PERF_PORT_UNIT_TYPE_SOURCE i ?m1 = Inr pf"
      "perf_show_ok pf (show_state g)"
    using perf_show_ok_update [OF sh, of i lib PERF_PORT_UNIT_TYPE_SOURCE ?m1] i by auto
  have tr: "apply_transform False (src_transform ?src) ?m1 = Inr ?m1"
    by (simp add: apply_transform_def split: option.splits)
  let ?g1 = "g\<lparr>perf_secure_gateway := pf\<rparr>"
  have ses1: "session lib b ok pending sent i ?g1"
    using session_same [OF ses, of ?g1] ses pf(2) i by (auto simp: session_def)
  then have dc: "default_config lib (pipe ?g1)" "policy_enabled (pipe ?g1)" "discards_quietly b (pipe ?g1)"
    by (simp_all add: session_def)
  have s4: "source ?m1 < 4" using i by auto
  show ?thesis
  proof (cases "blocked lib i (msg m)")
    case True
    then have "forbidden lib ?m1" by (simp add: forbidden_blocked)
    then obtain m' where "pipeline_push lib b ?m1 ?g1 = Inr (0, m', ?g1)"
      using default_push_forbidden [OF dc(1,2) s4 dc(3)] by blast
    then show ?thesis
      using True name en tr pf ses by (simp add: spin_message_def session_def)
  next
    case False
    then have nf: "\<not> forbidden lib ?m1" by (simp add: forbidden_blocked)
    have dest: "default_destinations (source ?m1) = [1]"
      using i by (auto simp: default_destinations_def)
    obtain m' g' where d: "deliver_to lib [1] (?m1\<lparr>sinks := default_route_table ! source ?m1\<rparr>) ?g1 = Inr (m', g')"
        "same_but_world ?g1 g'" "ok (world g')" "perf_show_ok (perf_secure_gateway g') (show_state g')"
        "sent (world g') = sent (world g) @ [msg m]" "\<forall>j. pending j (world g') = pending j (world g)"
      using deliver_to_vmc [OF ses1, of "?m1\<lparr>sinks := default_route_table ! source ?m1\<rparr>"] by auto
    have "pipeline_push lib b ?m1 ?g1 = Inr (0, m', g')"
      using default_push_allowed [OF dc(1,2) s4 nf, of b] d(1) by (simp only: dest) simp
    then show ?thesis
      using False name en tr pf d same_but_world_fields [OF d(2)] by (simp add: spin_message_def)
  qed
qed

lemma session_source:
  assumes "session lib b ok pending sent i g" "i < 4"
  shows "\<exists>h r. src_has_more (sources (pipe g) ! i) = Some h \<and> src_read_byte (sources (pipe g) ! i) = Some r
    \<and> src_is_connected (sources (pipe g) ! i) \<and> length (sources (pipe g)) = 4"
proof -
  have "drains (\<lambda>w. ok w \<and> sent w = sent (world g)) pending (pipe g)"
    "src_is_connected (sources (pipe g) ! i)" "length (sources (pipe g)) = 4"
    using assms by (simp_all add: session_def gateway_wf_def pipeline_wf_def)
  then show ?thesis using drainsD [of _ pending "pipe g" i] assms(2) by blast
qed

lemma session_byte:
  assumes ses: "session lib b ok pending sent i g" and i: "i = 2 \<or> i = 3" and pure: "parser_overwrites lib"
    and parse: "mavlink_parse_char lib i x (chan g) (msg (zero_message lib)) (zero_status lib) = (rv, c, ms, st)"
  shows "\<exists>g'. spin_byte lib b i (sources (pipe g) ! i) x g = Inr g' \<and> session lib b ok pending sent i g'
    \<and> chan g' = c \<and> (\<forall>j. pending j (world g') = pending j (world g))
    \<and> sent (world g') = sent (world g) @ (if rv = MAVLINK_FRAMING_OK \<and> \<not> blocked lib i ms then [ms] else [])"
proof -
  let ?src = "sources (pipe g) ! i"
  have i4: "i < 4" using i by auto
  have len: "length (sources (pipe g)) = 4" and sh: "perf_show_ok (perf_secure_gateway g) (show_state g)"
    and w: "ok (world g)"
    using ses by (simp_all add: session_def gateway_wf_def pipeline_wf_def)
  obtain rv' c' ms' st' where p': "mavlink_parse_char lib i x (chan g) (msg (src_cur ?src)) (status (src_cur ?src))
      = (rv', c', ms', st')" by (metis prod_cases4)
  have eq: "rv' = rv" "c' = c" "rv = MAVLINK_FRAMING_OK \<Longrightarrow> ms' = ms"
    using pure [unfolded parser_overwrites_def, rule_format, of i x "chan g" "msg (src_cur ?src)"
        "status (src_cur ?src)" "msg (zero_message lib)" "zero_status lib"] p' parse by simp_all
  let ?m = "(src_cur ?src)\<lparr>msg := ms', status := st'\<rparr>"
  let ?g1 = "g\<lparr>total_bytes := total_bytes g + 1, chan := c\<rparr>"
  have ses1: "session lib b ok pending sent i ?g1"
    using session_same [OF ses, of ?g1] sh w i4 by simp
  show ?thesis
  proof (cases "rv = MAVLINK_FRAMING_OK")
    case True
    obtain m' g2 where g2: "spin_message lib b i ?src ?m ?g1 = Inr (m', g2)" "pipe g2 = pipe g" "chan g2 = c"
        "perf_show_ok (perf_secure_gateway g2) (show_state g2)" "ok (world g2)"
        "\<forall>j. pending j (world g2) = pending j (world g)"
        "sent (world g2) = sent (world g) @ (if blocked lib i ms then [] else [ms])"
      using session_message [OF ses1 i, of ?m] eq(3) [OF True] by auto
    have same: "same_pipe (pipe g) (set_cur (pipe g2) i m')"
      using g2(2) len i4 by (simp add: same_pipe_set_cur)
    have "session lib b ok pending sent i (g2\<lparr>pipe := set_cur (pipe g2) i m'\<rparr>)"
      using session_same [OF ses, of "g2\<lparr>pipe := set_cur (pipe g2) i m'\<rparr>"] same i4 g2 by simp
    then show ?thesis
      using g2 p' eq True by (simp add: spin_byte_def)
  next
    case False
    let ?g3 = "?g1\<lparr>pipe := set_cur (pipe g) i ?m\<rparr>"
    have "session lib b ok pending sent i ?g3"
      using session_same [OF ses, of ?g3] sh w i4 len by (simp add: same_pipe_set_cur)
    then show ?thesis
      using p' eq False by (cases rv) (simp_all add: spin_byte_def)
  qed
qed

lemma session_step:
  assumes ses: "session lib b ok pending sent i g" and i: "i = 2 \<or> i = 3" and pure: "parser_overwrites lib"
    and parse: "mavlink_parse_char lib i x (chan g) (msg (zero_message lib)) (zero_status lib) = (rv, c, ms, st)"
    and more: "pending i (world g) = x # xs"
  shows "\<exists>g'. spin_step lib b i g = Inr (True, g') \<and> session lib b ok pending sent i g' \<and> chan g' = c
    \<and> pending i (world g') = xs
    \<and> sent (world g') = sent (world g) @ (if rv = MAVLINK_FRAMING_OK \<and> \<not> blocked lib i ms then [ms] else [])"
proof -
  let ?src = "sources (pipe g) ! i"
  have i4: "i < 4" using i by auto
  have con: "src_is_connected ?src" and len: "length (sources (pipe g)) = 4" and w: "ok (world g)"
    and dr: "drains (\<lambda>w. ok w \<and> sent w = sent (world g)) pending (pipe g)"
    and sh: "perf_show_ok (perf_secure_gateway g) (show_state g)"
    using ses by (simp_all add: session_def gateway_wf_def pipeline_wf_def)
  obtain h r where hr: "src_has_more ?src = Some h" "src_read_byte ?src = Some r"
      "byte_source h r (src_opaque ?src) (\<lambda>w. (ok w \<and> sent w = sent (world g))
        \<and> (\<forall>j. j \<noteq> i \<longrightarrow> pending j w = pending j (world g))) (pending i)"
    using drainsD [OF dr i4 con, of "\<lambda>j. pending j (world g)"] by blast
  from byte_source.has_more_ok [OF hr(3), of "world g"] w more obtain v w1 where
    1: "h (src_opaque ?src) (world g) = Inr (v, w1)" "v \<noteq> 0" "ok w1" "sent w1 = sent (world g)"
      "\<forall>j. j \<noteq> i \<longrightarrow> pending j w1 = pending j (world g)" "pending i w1 = x # xs" by auto
  from byte_source.read_byte_ok [OF hr(3) _ more 1(1)] w obtain w2 where
    2: "r (src_opaque ?src) w1 = Inr (x, w2)" "ok w2" "sent w2 = sent (world g)" "pending i w2 = xs" by auto
  have ses1: "session lib b ok pending sent i (g\<lparr>world := w2\<rparr>)"
    using session_same [OF ses, of "g\<lparr>world := w2\<rparr>"] sh 2(2) i4 by simp
  obtain g' where "spin_byte lib b i ?src x (g\<lparr>world := w2\<rparr>) = Inr g'" "session lib b ok pending sent i g'"
    "chan g' = c" "\<forall>j. pending j (world g') = pending j w2"
    "sent (world g') = sent w2 @ (if rv = MAVLINK_FRAMING_OK \<and> \<not> blocked lib i ms then [ms] else [])"
    using session_byte [OF ses1 i pure, of x rv c ms st] parse by auto
  then show ?thesis
    using hr 1 2 len i4 by (simp add: spin_step_def)
qed

lemma session_empty:
  assumes ses: "session lib b ok pending sent i g" and i: "i < 4" and empty: "pending i (world g) = []"
  shows "\<exists>w. spin_step lib b i g = Inr (False, g\<lparr>world := w\<rparr>) \<and> sent w = sent (world g) \<and> pending i w = []"
proof -
  let ?src = "sources (pipe g) ! i"
  have con: "src_is_connected ?src" and len: "length (sources (pipe g)) = 4" and w: "ok (world g)"
    and dr: "drains (\<lambda>w. ok w \<and> sent w = sent (world g)) pending (pipe g)"
    using ses by (simp_all add: session_def gateway_wf_def pipeline_wf_def)
  obtain h r where hr: "src_has_more ?src = Some h"
      "byte_source h r (src_opaque ?src) (\<lambda>w. (ok w \<and> sent w = sent (world g))
        \<and> (\<forall>j. j \<noteq> i \<longrightarrow> pending j w = pending j (world g))) (pending i)"
    using drainsD [OF dr i con, of "\<lambda>j. pending j (world g)"] by blast
  from byte_source.has_more_ok [OF hr(2), of "world g"] w empty obtain w' where
    "h (src_opaque ?src) (world g) = Inr (0, w')" "sent w' = sent (world g)" "pending i w' = []" by auto
  then show ?thesis using hr(1) len i by (auto simp: spin_step_def)
qed

lemma session_run:
  assumes "session lib b ok pending sent i g" "i = 2 \<or> i = 3" "parser_overwrites lib"
  shows "\<exists>load' g'. spin_loop lib b i load g = Some (Inr (load', g')) \<and> pending i (world g') = []
    \<and> sent (world g') = sent (world g)
        @ filter (\<lambda>x. \<not> blocked lib i x) (frames lib i (chan g) (pending i (world g)))"
  using assms(1)
proof (induction "pending i (world g)" arbitrary: g load)
  case Nil
  have i4: "i < 4" using assms(2) by auto
  show ?case
    using session_empty [OF Nil.prems i4 Nil.hyps [symmetric]] Nil.hyps by (auto simp: spin_loop.simps)
next
  case (Cons x xs)
  obtain rv c ms st where parse: "mavlink_parse_char lib i x (chan g) (msg (zero_message lib)) (zero_status lib)
      = (rv, c, ms, st)" by (metis prod_cases4)
  obtain g1 where g1: "spin_step lib b i g = Inr (True, g1)" "session lib b ok pending sent i g1" "chan g1 = c"
      "pending i (world g1) = xs"
      "sent (world g1) = sent (world g) @ (if rv = MAVLINK_FRAMING_OK \<and> \<not> blocked lib i ms then [ms] else [])"
    using session_step [OF Cons.prems assms(2,3) parse Cons.hyps(2) [symmetric]] by blast
  obtain load' g' where "spin_loop lib b i True g1 = Some (Inr (load', g'))" "pending i (world g') = []"
      "sent (world g') = sent (world g1) @ filter (\<lambda>x. \<not> blocked lib i x) (frames lib i c xs)"
    using Cons.hyps(1) [of g1 True] g1 by auto
  with g1 parse Cons.hyps(2) [symmetric] show ?case
    by (subst spin_loop.simps) auto
qed

section \<open>A gateway fed from a list, for witnesses\<close>

type_synonym feed = "u8 list \<times> unit mavlink_message list"

definition list_has_more :: "feed has_more_t" where
  "list_has_more opq w = Inr (if fst w = [] then 0 else 1, w)"

definition list_read_byte :: "feed read_byte_t" where
  "list_read_byte opq w = (case w of ([], out) \<Rightarrow> Inl Out_Of_Bounds | (x # xs, out) \<Rightarrow> Inr (x, (xs, out)))"

definition list_route :: "(feed, unit, unit) route_t" where
  "list_route opq m w = Inr (0, (fst w, snd w @ [msg m]))"

definition feed_pipe :: "(feed, unit, unit) pipeline_t" where
  "feed_pipe = (static_pipeline demo_lib)\<lparr>policy_enabled := True,
     sources := [zero_source demo_lib, zero_source demo_lib,
       (zero_source demo_lib)\<lparr>src_is_connected := True, src_source_id := 2,
          src_has_more := Some list_has_more, src_read_byte := Some list_read_byte\<rparr>,
       zero_source demo_lib],
     snks := [zero_sink, zero_sink\<lparr>snk_is_connected := True, snk_route := Some list_route\<rparr>, zero_sink, zero_sink],
     route_table := default_route_table,
     policy_mgmt := \<lparr>policies = default_policies demo_lib @ replicate 13 zero_policy, count = 3\<rparr>\<rparr>"

definition feed_gateway :: "u8 list \<Rightarrow> (feed, unit, unit, unit) gateway" where
  "feed_gateway bs = (static_gateway demo_lib () (bs, []))\<lparr>pipe := feed_pipe\<rparr>"

definition feed_pending :: "nat \<Rightarrow> feed \<Rightarrow> u8 list" where
  "feed_pending j w = (if j = 2 then fst w else [])"

definition feed_env :: "feed env" where
  "feed_env = \<lparr>clock_gettime = (\<lambda>w. (\<lparr>tv_sec = 1, tv_nsec = 0\<rparr>, w)), read_char = (\<lambda>w. (0, w)), char_signed = True\<rparr>"

lemma feed_source:
  assumes "\<And>bs bs' out. P (bs, out) \<Longrightarrow> P (bs', out)"
  shows "byte_source list_has_more list_read_byte opq P fst"
  using assms by unfold_locales
    (auto simp: list_has_more_def list_read_byte_def split: prod.splits)

lemma feed_pending_2: "feed_pending 2 = fst"
  by (rule ext) (simp add: feed_pending_def)

lemma feed_drains:
  assumes "\<And>bs bs' out. P (bs, out) \<Longrightarrow> P (bs', out)"
  shows "drains P feed_pending feed_pipe"
proof -
  have "byte_source list_has_more list_read_byte opq
      (\<lambda>w. P w \<and> (\<forall>j. j \<noteq> 2 \<longrightarrow> feed_pending j w = qs j)) (feed_pending 2)" for opq qs
    unfolding feed_pending_2
    by (rule feed_source) (auto simp: feed_pending_def dest: assms)
  then show ?thesis
    by (auto simp: drains_def feed_pipe_def zero_source_def dest!: less_4_cases)
qed

lemma feed_config: "default_config demo_lib feed_pipe"
  by (auto simp: default_config_def feed_pipe_def pipeline_wf_def policies_wf_def static_pipeline_def
      has_default_policies_def default_policies_def MAX_POLICIES_def keeps_sinks_def zero_sink_def
      default_routes default_route_table_wf)

lemma feed_gateway_facts [simp]:
  "pipe (feed_gateway bs) = feed_pipe" "world (feed_gateway bs) = (bs, [])" "policy_enabled feed_pipe"
  "transform_enabled feed_pipe = False" "gateway_wf (feed_gateway bs)" "chan (feed_gateway bs) = ()"
  using feed_config
  by (simp_all add: feed_gateway_def feed_pipe_def static_pipeline_def static_gateway_def gateway_wf_def
      perf_show_ok_init default_config_def)

lemma feed_spin_ok: "spin_ok (\<lambda>w. True) feed_pending demo_build (feed_gateway bs)"
  using feed_drains [of "\<lambda>w. True"]
  by (auto simp: spin_ok_def sources_named_def sinks_total_def route_total_def feed_pipe_def static_pipeline_def
      zero_source_def zero_sink_def list_route_def feed_pending_def less_Suc_eq numeral_eq_Suc nth_Cons')

lemma feed_session: "session demo_lib demo_build (\<lambda>w. True) feed_pending snd 2 (feed_gateway bs)"
proof -
  have "drains (\<lambda>w. True \<and> snd w = s) feed_pending feed_pipe" for s
    by (rule feed_drains) simp
  then show ?thesis
    using feed_config
    by (simp add: session_def records_to_def)
       (simp add: feed_pipe_def zero_sink_def list_route_def feed_pending_def)
qed

lemma demo_parser_overwrites: "parser_overwrites demo_lib"
  by (simp add: parser_overwrites_def demo_lib_def)

section \<open>Properties\<close>

text \<open>
  C10. A spin returns. On a well-formed gateway whose connected sources give finitely many
  bytes (the contract \<open>byte_source\<close>) and whose ports do not fault, one spin terminates with
  \<^verbatim>\<open>SUCC\<close>, has read every byte the sources had, each exactly once, and leaves a well-formed
  gateway that is not closer to termination.
\<close>

theorem pipeline_spin_returns:
  assumes "spin_ok ok pending b g" and "env_ok ok pending b env"
  shows "\<exists>g'. pipeline_spin lib b env g = Some (Inr (error_code SUCC, g')) \<and> gateway_wf g'
    \<and> terminated (pipe g') = terminated (pipe g)
    \<and> total_bytes g' = total_bytes g + of_nat (waiting pending [0 ..< MAX_SOURCES] (pipe g) (world g))
    \<and> (\<forall>i < MAX_SOURCES. src_is_connected (sources (pipe g) ! i) \<longrightarrow> pending i (world g') = [])"
  using pipeline_spin_ok [OF assms, of lib] by (auto simp del: upt_4)

theorem pipeline_spin_returns_witness:
  "\<exists>g'. pipeline_spin demo_lib demo_build feed_env (feed_gateway [152, 7]) = Some (Inr (0, g'))
     \<and> total_bytes g' = 2 \<and> fst (world g') = []"
proof -
  have "env_ok (\<lambda>w. True) feed_pending demo_build feed_env"
    by (auto simp: env_ok_def feed_env_def time_us_def feed_pending_def demo_build_def)
  from pipeline_spin_returns [OF feed_spin_ok this, of demo_lib "[152, 7]"] obtain g' where
    "pipeline_spin demo_lib demo_build feed_env (feed_gateway [152, 7]) = Some (Inr (0, g'))"
    "total_bytes g' = total_bytes (feed_gateway [152, 7])
       + of_nat (waiting feed_pending [0 ..< 4] feed_pipe ([152, 7], []))"
    "\<forall>i < 4. src_is_connected (sources feed_pipe ! i) \<longrightarrow> feed_pending i (world g') = []"
    by (auto simp del: upt_4)
  moreover have "src_is_connected (sources feed_pipe ! 2)" by (simp add: feed_pipe_def)
  ultimately show ?thesis
    by (auto simp: waiting_def feed_pipe_def zero_source_def feed_pending_def feed_gateway_def static_gateway_def
        split: if_splits dest!: spec [of _ 2])
qed

text \<open>
  C7. What a mission computer can make the vehicle see. Draining the legacy or enclave
  source terminates, and the vehicle's port has then been given, in order, exactly the
  messages the parser finds in the byte stream, less those the policies forbid: nothing
  added, reordered, duplicated or lost, whatever the bytes and their split into messages.
\<close>

theorem mission_computer_stream:
  assumes "session lib b ok pending sent i g"
    and "i = source_index SOURCE_TYPE_LEGACY \<or> i = source_index SOURCE_TYPE_ENCLAVE"
    and "parser_overwrites lib"
  shows "\<exists>load' g'. spin_source lib b i load g = Some (Inr (load', g')) \<and> pending i (world g') = []
    \<and> sent (world g') = sent (world g)
        @ filter (\<lambda>x. \<not> blocked lib i x) (frames lib i (chan g) (pending i (world g)))"
proof -
  have i: "i = 2 \<or> i = 3" using assms(2) by simp
  then have "i < 4" by auto
  then show ?thesis
    using session_run [OF assms(1) i assms(3), of load] session_source [OF assms(1)]
    by (auto simp: spin_source_def)
qed

theorem mission_computer_stream_witness:
  "\<exists>load' g'. spin_source demo_lib demo_build 2 False (feed_gateway [7, 152, 9]) = Some (Inr (load', g'))
     \<and> snd (world g') = [demo_msg 7, demo_msg 9]"
proof -
  have *: "mavlink_parse_char demo_lib 2 x () m s = (MAVLINK_FRAMING_OK, (), demo_msg (ucast x), ())" for x m s
    by (simp add: demo_lib_def)
  have "blocked demo_lib 2 (demo_msg 152)" "\<not> blocked demo_lib 2 (demo_msg 7)" "\<not> blocked demo_lib 2 (demo_msg 9)"
    by (simp_all add: blocked_def forbidden_def from_mission_computer_def disables_geofence_def demo_msg_def
        demo_lib_def)
  then show ?thesis
    using mission_computer_stream [OF feed_session _ demo_parser_overwrites, of False "[7, 152, 9]"]
    by (auto simp: * feed_pending_def)
qed

text \<open>
  C16. A source can hold the gateway. If a connected source never says that it has no more,
  no spin returns: it faults or runs for ever, and no other port is served.
\<close>

theorem spin_needs_empty_source:
  assumes "i < length (sources (pipe g))" and "length (sources (pipe g)) = MAX_SOURCES"
    and "src_is_connected (sources (pipe g) ! i)" and "src_has_more (sources (pipe g) ! i) = Some h"
    and "\<forall>w v w'. h (src_opaque (sources (pipe g) ! i)) w = Inr (v, w') \<longrightarrow> v \<noteq> 0"
  shows "pipeline_spin lib b env g \<noteq> Some (Inr (rv, g'))"
  using spin_never_returns [of i g h] assms by simp

theorem spin_needs_empty_source_witness:
  "pipeline_spin demo_lib demo_build feed_env
     ((feed_gateway [])\<lparr>pipe := feed_pipe\<lparr>sources := (sources feed_pipe)
        [2 := (sources feed_pipe ! 2)\<lparr>src_has_more := Some (\<lambda>_ w. Inr (1, w))\<rparr>]\<rparr>\<rparr>) \<noteq> Some (Inr (0, feed_gateway []))"
  by (rule spin_needs_empty_source [where i = 2 and h = "\<lambda>_ w. Inr (1, w)"]) (simp_all add: feed_pipe_def)

end
