(* ===== verification/Ring_Buffer.thy ===== *)
theory Ring_Buffer
  imports Gateway_Prelude
begin

text \<open>
  The byte ring of \<^verbatim>\<open>lib/ring_buffer.h\<close>. The struct holds a pointer to storage it does
  not own; the model keeps the indices in the record and passes the storage, the array
  the pointer refers to, next to it, so that a client whose storage is shared with
  something else (the UART source) can say so. Read as the list of its bytes, oldest
  first, the ring is a queue of bounded length that drops its oldest byte when a byte is
  pushed into a full ring.
\<close>

record ring_buffer =
  head :: nat
  tail :: nat
  max_size :: nat
  full :: bool

definition ring_buffer_init :: "u8 list \<Rightarrow> nat \<Rightarrow> ring_buffer res" where
  "ring_buffer_init buffer sz = assert_that (0 < sz)
     (Inr \<lparr>head = 0, tail = 0, max_size = sz, full = False\<rparr>)"

definition ring_buffer_reset :: "ring_buffer \<Rightarrow> ring_buffer" where
  "ring_buffer_reset rb = rb\<lparr>head := 0, tail := 0, full := False\<rparr>"

definition ring_buffer_is_empty :: "ring_buffer \<Rightarrow> bool" where
  "ring_buffer_is_empty rb \<longleftrightarrow> \<not> full rb \<and> head rb = tail rb"

definition ring_buffer_is_full :: "ring_buffer \<Rightarrow> bool" where
  "ring_buffer_is_full rb = full rb"

definition ring_buffer_push :: "ring_buffer \<Rightarrow> u8 list \<Rightarrow> u8 \<Rightarrow> (ring_buffer \<times> u8 list) res" where
  "ring_buffer_push rb buffer byte =
     bind_res (arr_put buffer (head rb) byte) (\<lambda>buffer'.
       let rb1 = rb\<lparr>head := (head rb + 1) mod max_size rb\<rparr>;
           rb2 = (if head rb1 = tail rb1 then rb1\<lparr>full := True\<rparr> else rb1);
           rb3 = (if full rb2 then rb2\<lparr>tail := head rb2\<rparr> else rb2)
       in Inr (rb3, buffer'))"

definition ring_buffer_pop :: "ring_buffer \<Rightarrow> u8 list \<Rightarrow> (u8 \<times> ring_buffer) res" where
  "ring_buffer_pop rb buffer =
     (if ring_buffer_is_empty rb then Inr (0, rb)
      else bind_res (arr_get buffer (tail rb)) (\<lambda>byte.
        Inr (byte, rb\<lparr>tail := (tail rb + 1) mod max_size rb, full := False\<rparr>)))"

definition ring_buffer_size :: "ring_buffer \<Rightarrow> nat" where
  "ring_buffer_size rb =
     (if \<not> full rb
      then (if tail rb \<le> head rb then head rb - tail rb
            else max_size rb + head rb - tail rb)
      else max_size rb)"

definition ring_buffer_capacity :: "ring_buffer \<Rightarrow> nat" where
  "ring_buffer_capacity rb = max_size rb"

definition ring_buffer_available :: "ring_buffer \<Rightarrow> nat" where
  "ring_buffer_available rb = max_size rb - ring_buffer_size rb"

text \<open>The two copy loops; \<open>i\<close> is the loop's index and \<open>sz - i\<close> decreases.\<close>

function copy_to_loop ::
  "ring_buffer \<Rightarrow> u8 list \<Rightarrow> u8 list \<Rightarrow> nat \<Rightarrow> nat \<Rightarrow> (nat \<times> ring_buffer \<times> u8 list) res" where
  "copy_to_loop rb mem buffer sz i =
     (if i < sz \<and> \<not> ring_buffer_is_empty rb
      then bind_res (arr_get mem (tail rb)) (\<lambda>byte.
           bind_res (arr_put buffer i byte) (\<lambda>buffer'.
             copy_to_loop (rb\<lparr>tail := (tail rb + 1) mod max_size rb, full := False\<rparr>)
               mem buffer' sz (i + 1)))
      else Inr (i, rb, buffer))"
  by pat_completeness auto
termination
  by (relation "measure (\<lambda>(rb, mem, buffer, sz, i). sz - i)") auto

definition ring_buffer_copy_to ::
  "ring_buffer \<Rightarrow> u8 list \<Rightarrow> u8 list \<Rightarrow> nat \<Rightarrow> (nat \<times> ring_buffer \<times> u8 list) res" where
  "ring_buffer_copy_to rb mem buffer sz =
     assert_that (0 < sz) (copy_to_loop rb mem buffer sz 0)"

function copy_from_loop ::
  "ring_buffer \<Rightarrow> u8 list \<Rightarrow> u8 list \<Rightarrow> nat \<Rightarrow> nat \<Rightarrow> (ring_buffer \<times> u8 list) res" where
  "copy_from_loop rb mem buffer sz i =
     (if i < sz
      then bind_res (arr_get buffer i) (\<lambda>byte.
           bind_res (arr_put mem (head rb) byte) (\<lambda>mem'.
             let rb1 = rb\<lparr>head := (head rb + 1) mod max_size rb\<rparr>;
                 rb2 = (if head rb1 = tail rb1 then rb1\<lparr>full := True\<rparr> else rb1);
                 rb3 = (if full rb2 then rb2\<lparr>tail := head rb2\<rparr> else rb2)
             in copy_from_loop rb3 mem' buffer sz (i + 1)))
      else Inr (rb, mem))"
  by pat_completeness auto
termination
  by (relation "measure (\<lambda>(rb, mem, buffer, sz, i). sz - i)") auto

definition ring_buffer_copy_from ::
  "ring_buffer \<Rightarrow> u8 list \<Rightarrow> u8 list \<Rightarrow> nat \<Rightarrow> (ring_buffer \<times> u8 list) res" where
  "ring_buffer_copy_from rb mem buffer sz =
     assert_that (0 < sz) (copy_from_loop rb mem buffer sz 0)"

declare copy_to_loop.simps [simp del] copy_from_loop.simps [simp del]

section \<open>The invariant and the bytes in the ring\<close>

definition ring_wf :: "ring_buffer \<Rightarrow> u8 list \<Rightarrow> bool" where
  "ring_wf rb mem \<longleftrightarrow> 0 < max_size rb \<and> max_size rb \<le> length mem
     \<and> head rb < max_size rb \<and> tail rb < max_size rb \<and> (full rb \<longrightarrow> head rb = tail rb)"

definition contents :: "ring_buffer \<Rightarrow> u8 list \<Rightarrow> u8 list" where
  "contents rb mem =
     map (\<lambda>k. mem ! ((tail rb + k) mod max_size rb)) [0 ..< ring_buffer_size rb]"

lemma length_contents [simp]: "length (contents rb mem) = ring_buffer_size rb"
  by (simp add: contents_def)

lemma size_le_max: "ring_wf rb mem \<Longrightarrow> ring_buffer_size rb \<le> max_size rb"
  by (auto simp: ring_wf_def ring_buffer_size_def)

lemma size_eq_max_iff: "ring_wf rb mem \<Longrightarrow> ring_buffer_size rb = max_size rb \<longleftrightarrow> full rb"
  by (auto simp: ring_wf_def ring_buffer_size_def)

lemma size_eq_0_iff: "ring_wf rb mem \<Longrightarrow> ring_buffer_size rb = 0 \<longleftrightarrow> ring_buffer_is_empty rb"
  by (auto simp: ring_wf_def ring_buffer_size_def ring_buffer_is_empty_def)

lemma head_eq_tail_plus_size:
  "ring_wf rb mem \<Longrightarrow> head rb = (tail rb + ring_buffer_size rb) mod max_size rb"
  by (auto simp: ring_wf_def ring_buffer_size_def mod_if)

lemma ring_index_inj:
  assumes "(t + j) mod m = (t + k) mod m" "t < m" "j < m" "k < m"
  shows "j = (k :: nat)"
  using assms by (simp add: add_mod_cases split: if_splits)

lemma Suc_tail_mod: "t < Suc n \<Longrightarrow> Suc (t + n) mod Suc n = t"
  by (metis add_Suc_right mod_add_self2 mod_less)

section \<open>Push and pop on the list of bytes\<close>

definition push_bounded :: "nat \<Rightarrow> u8 list \<Rightarrow> u8 \<Rightarrow> u8 list" where
  "push_bounded n xs x = (if length xs = n then tl xs else xs) @ [x]"

definition last_n :: "nat \<Rightarrow> 'a list \<Rightarrow> 'a list" where
  "last_n n xs = drop (length xs - n) xs"

lemma push_bounded_last_n:
  "0 < n \<Longrightarrow> length xs \<le> n \<Longrightarrow> push_bounded n xs x = last_n n (xs @ [x])"
  by (auto simp: push_bounded_def last_n_def drop_Suc tl_drop Suc_diff_le drop_tl[symmetric])

lemma last_n_append_last_n: "last_n n (last_n n xs @ ys) = last_n n (xs @ ys)"
  by (cases "n \<le> length xs") (auto simp: last_n_def add.commute)

text \<open>The two ways a push moves the indices.\<close>

definition window :: "u8 list \<Rightarrow> nat \<Rightarrow> nat \<Rightarrow> nat \<Rightarrow> u8 list" where
  "window mem m t n = map (\<lambda>k. mem ! ((t + k) mod m)) [0 ..< n]"

lemma contents_window: "contents rb mem = window mem (max_size rb) (tail rb) (ring_buffer_size rb)"
  by (simp add: contents_def window_def)

lemma window_Cons:
  "window mem m t (Suc n) = mem ! (t mod m) # window mem m (Suc t mod m) n"
  by (simp add: window_def map_upt_Suc mod_add_left_eq del: upt_Suc)

lemma window_snoc: "window mem m t (Suc n) = window mem m t n @ [mem ! ((t + n) mod m)]"
  by (simp add: window_def)

lemma window_update_outside:
  "t < m \<Longrightarrow> n < m \<Longrightarrow> m \<le> length mem \<Longrightarrow>
     window (mem[(t + n) mod m := b]) m t n = window mem m t n"
  by (auto simp: window_def add_mod_cases)

lemma window_Suc_mod_mod: "window mem m (Suc t mod m) n = window mem m (Suc t) n"
  by (simp add: window_def mod_add_left_eq)

lemma push_not_full:
  assumes wf: "ring_wf rb mem" and nf: "\<not> full rb"
  shows "\<exists>rb'. ring_buffer_push rb mem b = Inr (rb', mem[head rb := b]) \<and> ring_wf rb' mem
    \<and> max_size rb' = max_size rb \<and> tail rb' = tail rb
    \<and> ring_buffer_size rb' = Suc (ring_buffer_size rb)"
  using wf nf
  by (auto simp: ring_buffer_push_def Let_def ring_wf_def ring_buffer_size_def mod_Suc)

lemma push_full:
  assumes wf: "ring_wf rb mem" and f: "full rb"
  shows "\<exists>rb'. ring_buffer_push rb mem b = Inr (rb', mem[tail rb := b]) \<and> ring_wf rb' mem
    \<and> max_size rb' = max_size rb \<and> tail rb' = Suc (tail rb) mod max_size rb
    \<and> ring_buffer_size rb' = max_size rb"
  using wf f
  by (auto simp: ring_buffer_push_def Let_def ring_wf_def ring_buffer_size_def)

lemma ring_wf_length: "length mem' = length mem \<Longrightarrow> ring_wf rb mem' = ring_wf rb mem"
  by (simp add: ring_wf_def)

lemma ring_buffer_push_refines:
  assumes wf: "ring_wf rb mem"
  shows "\<exists>rb' mem'. ring_buffer_push rb mem b = Inr (rb', mem') \<and> ring_wf rb' mem'
    \<and> length mem' = length mem \<and> max_size rb' = max_size rb
    \<and> contents rb' mem' = push_bounded (max_size rb) (contents rb mem) b"
proof (cases "full rb")
  case False
  obtain rb' where rb': "ring_buffer_push rb mem b = Inr (rb', mem[head rb := b])"
      "ring_wf rb' mem" "max_size rb' = max_size rb" "tail rb' = tail rb"
      "ring_buffer_size rb' = Suc (ring_buffer_size rb)"
    using push_not_full [OF wf False] by blast
  have less: "ring_buffer_size rb < max_size rb" "tail rb < max_size rb" "max_size rb \<le> length mem"
      "head rb < length mem"
    using size_le_max [OF wf] size_eq_max_iff [OF wf] False wf by (auto simp: ring_wf_def)
  have "contents rb' (mem[head rb := b]) = contents rb mem @ [b]"
    using less window_update_outside [of "tail rb" "max_size rb" "ring_buffer_size rb" mem b]
    by (simp add: contents_window rb' window_snoc head_eq_tail_plus_size [OF wf])
  with rb' less show ?thesis
    by (simp add: push_bounded_def ring_wf_length [of "mem[head rb := b]" mem])
next
  case True
  obtain rb' where rb': "ring_buffer_push rb mem b = Inr (rb', mem[tail rb := b])"
      "ring_wf rb' mem" "max_size rb' = max_size rb" "tail rb' = Suc (tail rb) mod max_size rb"
      "ring_buffer_size rb' = max_size rb"
    using push_full [OF wf True] by blast
  obtain n where n: "max_size rb = Suc n" "ring_buffer_size rb = Suc n"
    using wf size_eq_max_iff [OF wf] True by (cases "max_size rb") (auto simp: ring_wf_def)
  have t: "tail rb < Suc n" "Suc n \<le> length mem"
    using wf n by (auto simp: ring_wf_def)
  have "window (mem[tail rb := b]) (Suc n) (Suc (tail rb)) (Suc n)
      = window (mem[tail rb := b]) (Suc n) (Suc (tail rb)) n @ [b]"
    using t by (simp add: window_snoc Suc_tail_mod)
  moreover have "window (mem[tail rb := b]) (Suc n) (Suc (tail rb)) n
      = window mem (Suc n) (Suc (tail rb)) n"
    using t window_update_outside [of "Suc (tail rb) mod Suc n" "Suc n" n mem b]
    by (simp add: window_Suc_mod_mod mod_add_left_eq Suc_tail_mod)
  moreover have "contents rb' (mem[tail rb := b])
      = window (mem[tail rb := b]) (Suc n) (Suc (tail rb)) (Suc n)"
    by (simp only: contents_window rb' n window_Suc_mod_mod)
  moreover have "tl (contents rb mem) = window mem (Suc n) (Suc (tail rb)) n"
    by (simp add: contents_window n window_Cons window_Suc_mod_mod)
  ultimately have "contents rb' (mem[tail rb := b]) = tl (contents rb mem) @ [b]"
    by simp
  with rb' n show ?thesis
    by (simp add: push_bounded_def ring_wf_length [of "mem[tail rb := b]" mem])
qed

lemma ring_buffer_pop_refines:
  assumes wf: "ring_wf rb mem"
  shows "\<exists>rb'. ring_buffer_pop rb mem = Inr ((case contents rb mem of [] \<Rightarrow> 0 | x # _ \<Rightarrow> x), rb')
    \<and> ring_wf rb' mem \<and> max_size rb' = max_size rb
    \<and> contents rb' mem = tl (contents rb mem)"
proof (cases "ring_buffer_is_empty rb")
  case True
  then have "contents rb mem = []"
    using size_eq_0_iff [OF wf] by (simp add: contents_def)
  with True wf show ?thesis by (simp add: ring_buffer_pop_def)
next
  case False
  then obtain n where n: "ring_buffer_size rb = Suc n"
    using size_eq_0_iff [OF wf] by (cases "ring_buffer_size rb") auto
  let ?rb' = "rb\<lparr>tail := (tail rb + 1) mod max_size rb, full := False\<rparr>"
  have "ring_buffer_pop rb mem = Inr (mem ! tail rb, ?rb')"
    using False wf by (simp add: ring_buffer_pop_def ring_wf_def)
  moreover have wf': "ring_wf ?rb' mem" and "ring_buffer_size ?rb' = n"
    using False wf n
    by (auto simp: ring_wf_def ring_buffer_size_def ring_buffer_is_empty_def mod_Suc split: if_splits)
  moreover have "tail rb < max_size rb"
    using wf by (simp add: ring_wf_def)
  ultimately show ?thesis
    by (simp add: contents_window n window_Cons)
qed

section \<open>The interface of a bounded byte queue\<close>

locale byte_queue =
  fixes push :: "'q \<Rightarrow> u8 \<Rightarrow> 'q res"
    and pop :: "'q \<Rightarrow> (u8 \<times> 'q) res"
    and items :: "'q \<Rightarrow> u8 list"
    and cap :: "'q \<Rightarrow> nat"
    and invar :: "'q \<Rightarrow> bool"
  assumes cap_pos: "invar q \<Longrightarrow> 0 < cap q"
    and items_le_cap: "invar q \<Longrightarrow> length (items q) \<le> cap q"
    and push_ok: "invar q \<Longrightarrow>
      \<exists>q'. push q b = Inr q' \<and> invar q' \<and> cap q' = cap q \<and> items q' = push_bounded (cap q) (items q) b"
    and pop_ok: "invar q \<Longrightarrow> items q = x # xs \<Longrightarrow>
      \<exists>q'. pop q = Inr (x, q') \<and> invar q' \<and> cap q' = cap q \<and> items q' = xs"
begin

fun push_all :: "'q \<Rightarrow> u8 list \<Rightarrow> 'q res" where
  "push_all q [] = Inr q"
| "push_all q (b # bs) = bind_res (push q b) (\<lambda>q'. push_all q' bs)"

fun pop_n :: "'q \<Rightarrow> nat \<Rightarrow> (u8 list \<times> 'q) res" where
  "pop_n q 0 = Inr ([], q)"
| "pop_n q (Suc n) =
     bind_res (pop q) (\<lambda>(b, q'). bind_res (pop_n q' n) (\<lambda>(bs, q''). Inr (b # bs, q'')))"

lemma push_all_ok:
  "invar q \<Longrightarrow>
     \<exists>q'. push_all q bs = Inr q' \<and> invar q' \<and> cap q' = cap q
        \<and> items q' = last_n (cap q) (items q @ bs)"
proof (induction bs arbitrary: q)
  case Nil
  then show ?case using items_le_cap [of q] by (simp add: last_n_def)
next
  case (Cons b bs)
  from push_ok [OF Cons.prems, of b] obtain q1 where
    q1: "push q b = Inr q1" "invar q1" "cap q1 = cap q" "items q1 = last_n (cap q) (items q @ [b])"
    using push_bounded_last_n [OF cap_pos [OF Cons.prems] items_le_cap [OF Cons.prems]] by auto
  from Cons.IH [OF q1(2)] q1 show ?case
    by (auto simp: last_n_append_last_n)
qed

lemma pop_n_ok:
  "invar q \<Longrightarrow> n \<le> length (items q) \<Longrightarrow>
     \<exists>q'. pop_n q n = Inr (take n (items q), q') \<and> invar q' \<and> cap q' = cap q
        \<and> items q' = drop n (items q)"
proof (induction n arbitrary: q)
  case 0
  then show ?case by simp
next
  case (Suc n)
  then obtain x xs where xs: "items q = x # xs" by (cases "items q") auto
  from pop_ok [OF Suc.prems(1) xs] obtain q1 where
    "pop q = Inr (x, q1)" "invar q1" "cap q1 = cap q" "items q1 = xs" by blast
  with Suc.IH [of q1] Suc.prems xs show ?case by fastforce
qed

lemma push_all_no_loss:
  assumes "invar q" "length (items q) + length bs \<le> cap q"
  shows "\<exists>q'. push_all q bs = Inr q' \<and> invar q' \<and> cap q' = cap q \<and> items q' = items q @ bs"
  using push_all_ok [OF assms(1), of bs] assms(2) by (auto simp: last_n_def)

lemma fifo:
  assumes "invar q" "length (items q) + length bs \<le> cap q"
  shows "\<exists>q1 q2. push_all q bs = Inr q1
    \<and> pop_n q1 (length (items q) + length bs) = Inr (items q @ bs, q2) \<and> items q2 = []"
proof -
  obtain q1 where q1: "push_all q bs = Inr q1" "invar q1" "items q1 = items q @ bs"
    using push_all_no_loss [OF assms] by blast
  with pop_n_ok [OF q1(2), of "length (items q) + length bs"] show ?thesis by auto
qed

end

section \<open>The ring provides it\<close>

definition rq_push :: "ring_buffer \<times> u8 list \<Rightarrow> u8 \<Rightarrow> (ring_buffer \<times> u8 list) res" where
  "rq_push q b = ring_buffer_push (fst q) (snd q) b"

definition rq_pop :: "ring_buffer \<times> u8 list \<Rightarrow> (u8 \<times> (ring_buffer \<times> u8 list)) res" where
  "rq_pop q = bind_res (ring_buffer_pop (fst q) (snd q)) (\<lambda>(b, rb'). Inr (b, (rb', snd q)))"

interpretation rq: byte_queue rq_push rq_pop "\<lambda>q. contents (fst q) (snd q)"
  "\<lambda>q. max_size (fst q)" "\<lambda>q. ring_wf (fst q) (snd q)"
proof unfold_locales
  fix q :: "ring_buffer \<times> u8 list" and b
  assume wf: "ring_wf (fst q) (snd q)"
  show "0 < max_size (fst q)" using wf by (simp add: ring_wf_def)
  show "length (contents (fst q) (snd q)) \<le> max_size (fst q)" using size_le_max [OF wf] by simp
  show "\<exists>q'. rq_push q b = Inr q' \<and> ring_wf (fst q') (snd q') \<and> max_size (fst q') = max_size (fst q)
      \<and> contents (fst q') (snd q') = push_bounded (max_size (fst q)) (contents (fst q) (snd q)) b"
    using ring_buffer_push_refines [OF wf, of b] by (auto simp: rq_push_def)
next
  fix q :: "ring_buffer \<times> u8 list" and x xs
  assume "ring_wf (fst q) (snd q)" "contents (fst q) (snd q) = x # xs"
  then show "\<exists>q'. rq_pop q = Inr (x, q') \<and> ring_wf (fst q') (snd q')
      \<and> max_size (fst q') = max_size (fst q) \<and> contents (fst q') (snd q') = xs"
    using ring_buffer_pop_refines [of "fst q" "snd q"] by (auto simp: rq_pop_def)
qed

text \<open>The copy loops are the byte-wise operations, iterated.\<close>

lemma copy_from_loop_push:
  "copy_from_loop rb mem buffer sz i =
     (if i < sz
      then bind_res (arr_get buffer i) (\<lambda>b. bind_res (rq_push (rb, mem) b)
             (\<lambda>(rb', mem'). copy_from_loop rb' mem' buffer sz (i + 1)))
      else Inr (rb, mem))"
  by (subst copy_from_loop.simps)
     (simp add: rq_push_def ring_buffer_push_def bind_res_assoc Let_def cong: bind_res_cong)

lemma copy_from_loop_push_all:
  "sz \<le> length buffer \<Longrightarrow> i \<le> sz \<Longrightarrow>
     copy_from_loop rb mem buffer sz i = rq.push_all (rb, mem) (drop i (take sz buffer))"
proof (induction "sz - i" arbitrary: i rb mem)
  case 0
  then show ?case by (subst copy_from_loop_push) simp
next
  case (Suc n)
  then have *: "drop i (take sz buffer) = buffer ! i # drop (Suc i) (take sz buffer)"
    by (simp flip: Cons_nth_drop_Suc)
  from Suc show ?case
    by (subst copy_from_loop_push)
       (auto simp: * intro!: bind_res_cong)
qed

lemma ring_buffer_copy_from_push_all:
  "0 < sz \<Longrightarrow> sz \<le> length buffer \<Longrightarrow>
     ring_buffer_copy_from rb mem buffer sz = rq.push_all (rb, mem) (take sz buffer)"
  by (simp add: ring_buffer_copy_from_def copy_from_loop_push_all)

lemma copy_to_loop_pop:
  "copy_to_loop rb mem buffer sz i =
     (if i < sz \<and> \<not> ring_buffer_is_empty rb
      then bind_res (ring_buffer_pop rb mem) (\<lambda>(b, rb').
             bind_res (arr_put buffer i b) (\<lambda>buffer'. copy_to_loop rb' mem buffer' sz (i + 1)))
      else Inr (i, rb, buffer))"
  by (subst copy_to_loop.simps)
     (simp add: ring_buffer_pop_def bind_res_assoc cong: bind_res_cong)

lemma copy_to_loop_ok:
  "ring_wf rb mem \<Longrightarrow> sz \<le> length buffer \<Longrightarrow> i \<le> sz \<Longrightarrow> n = min (sz - i) (ring_buffer_size rb) \<Longrightarrow>
     \<exists>rb'. copy_to_loop rb mem buffer sz i
         = Inr (i + n, rb', take i buffer @ take n (contents rb mem) @ drop (i + n) buffer)
       \<and> ring_wf rb' mem \<and> max_size rb' = max_size rb \<and> contents rb' mem = drop n (contents rb mem)"
proof (induction "sz - i" arbitrary: i rb buffer n)
  case 0
  then show ?case by (subst copy_to_loop_pop) simp
next
  case (Suc k)
  show ?case
  proof (cases "ring_buffer_is_empty rb")
    case True
    with Suc.prems size_eq_0_iff [OF Suc.prems(1)] show ?thesis
      by (subst copy_to_loop_pop) (simp add: contents_def)
  next
    case False
    then obtain x xs where xs: "contents rb mem = x # xs"
      using size_eq_0_iff [OF Suc.prems(1)] length_contents [of rb mem]
      by (cases "contents rb mem") auto
    obtain rb1 where rb1: "ring_buffer_pop rb mem = Inr (x, rb1)" "ring_wf rb1 mem"
        "max_size rb1 = max_size rb" "contents rb1 mem = xs"
      using ring_buffer_pop_refines [OF Suc.prems(1)] xs by auto
    have len: "i < sz" "i < length buffer" using Suc.hyps(2) Suc.prems(2) by auto
    have size1: "ring_buffer_size rb = Suc (ring_buffer_size rb1)"
      using xs rb1(4) length_contents [of rb mem] length_contents [of rb1 mem] by simp
    have k: "k = sz - Suc i" using Suc.hyps(2) by simp
    define n1 where "n1 = min (sz - Suc i) (ring_buffer_size rb1)"
    have n: "n = Suc n1"
      using Suc.prems(4) size1 len(1) by (simp add: n1_def)
    obtain rb2 where rb2: "copy_to_loop rb1 mem (buffer[i := x]) sz (Suc i)
          = Inr (Suc i + n1, rb2, take (Suc i) (buffer[i := x]) @ take n1 xs
                                 @ drop (Suc i + n1) (buffer[i := x]))"
        "ring_wf rb2 mem" "max_size rb2 = max_size rb1" "contents rb2 mem = drop n1 xs"
      using Suc.hyps(1) [OF k rb1(2), of "buffer[i := x]" n1] Suc.prems(2) len rb1
      by (auto simp: n1_def)
    have "take (Suc i) (buffer[i := x]) = take i buffer @ [x]"
      using len by (simp add: take_Suc_conv_app_nth)
    with rb1 rb2 n len False xs show ?thesis
      by (subst copy_to_loop_pop) simp
  qed
qed

lemma ring_buffer_copy_to_refines:
  assumes "ring_wf rb mem" "0 < sz" "sz \<le> length buffer"
  defines "n \<equiv> min sz (ring_buffer_size rb)"
  shows "\<exists>rb'. ring_buffer_copy_to rb mem buffer sz
      = Inr (n, rb', take n (contents rb mem) @ drop n buffer)
    \<and> ring_wf rb' mem \<and> max_size rb' = max_size rb \<and> contents rb' mem = drop n (contents rb mem)"
  using copy_to_loop_ok [of rb mem sz buffer 0] assms by (simp add: ring_buffer_copy_to_def)

lemma ring_buffer_copy_from_refines:
  assumes "ring_wf rb mem" "0 < sz" "sz \<le> length buffer"
  shows "\<exists>rb' mem'. ring_buffer_copy_from rb mem buffer sz = Inr (rb', mem')
    \<and> ring_wf rb' mem' \<and> max_size rb' = max_size rb
    \<and> contents rb' mem' = last_n (max_size rb) (contents rb mem @ take sz buffer)"
  using rq.push_all_ok [of "(rb, mem)" "take sz buffer"] assms
  by (auto simp: ring_buffer_copy_from_push_all)

lemma copy_from_loop_length:
  "copy_from_loop rb mem buffer sz i = Inr (rb', mem') \<Longrightarrow> length mem' = length mem"
proof (induction rb mem buffer sz i arbitrary: rb' mem' rule: copy_from_loop.induct)
  case (1 rb mem buffer sz i)
  then show ?case
    by (subst (asm) (2) copy_from_loop.simps) (auto simp: res_simps Let_def split: if_splits)
qed

lemma copy_from_length:
  "ring_buffer_copy_from rb mem buffer sz = Inr (rb', mem') \<Longrightarrow> length mem' = length mem"
  by (auto simp: ring_buffer_copy_from_def res_simps dest: copy_from_loop_length)

section \<open>Properties\<close>

text \<open>
  C17. Push and pop implement a queue of bounded length: a push appends the byte and, in
  a full ring, drops the oldest one; a pop returns the oldest byte, or 0 from an empty
  ring; size, emptiness and fullness agree with the list of bytes.
\<close>

theorem ring_push_pop_refine_queue:
  assumes "ring_wf rb mem"
  shows "(\<exists>rb' mem'. ring_buffer_push rb mem b = Inr (rb', mem') \<and> ring_wf rb' mem'
        \<and> contents rb' mem' = push_bounded (max_size rb) (contents rb mem) b)
    \<and> (\<exists>rb'. ring_buffer_pop rb mem = Inr ((case contents rb mem of [] \<Rightarrow> 0 | x # _ \<Rightarrow> x), rb')
        \<and> ring_wf rb' mem \<and> contents rb' mem = tl (contents rb mem))
    \<and> ring_buffer_size rb = length (contents rb mem)
    \<and> (ring_buffer_is_empty rb \<longleftrightarrow> contents rb mem = [])
    \<and> (ring_buffer_is_full rb \<longleftrightarrow> length (contents rb mem) = max_size rb)"
  using ring_buffer_push_refines [OF assms, of b] ring_buffer_pop_refines [OF assms]
    size_eq_0_iff [OF assms] size_eq_max_iff [OF assms]
  by (auto simp: ring_buffer_is_full_def contents_def)

theorem ring_push_pop_refine_queue_witness:
  "\<exists>rb' mem'. ring_buffer_push \<lparr>head = 1, tail = 1, max_size = 3, full = True\<rparr> [7, 8, 9] 5
       = Inr (rb', mem')
     \<and> contents rb' mem' = [9, 7, 5]"
proof -
  let ?rb = "\<lparr>head = 1, tail = 1, max_size = 3, full = True\<rparr>"
  have wf: "ring_wf ?rb [7, 8, 9]" by (simp add: ring_wf_def)
  have "contents ?rb [7, 8, 9 :: u8] = [8, 9, 7]"
    by (simp add: contents_def ring_buffer_size_def upt_rec)
  then have "push_bounded (max_size ?rb) (contents ?rb [7, 8, 9]) 5 = [9, 7, 5]"
    by (simp add: push_bounded_def)
  with ring_push_pop_refine_queue [OF wf, of 5] show ?thesis by metis
qed

text \<open>
  C18. Copying a block into the ring keeps the last \<open>max_size\<close> bytes of what was there
  followed by the block: bytes are lost exactly when the block does not fit the free
  space, and then the oldest ones.
\<close>

theorem ring_copy_from_keeps_last:
  assumes "ring_wf rb mem" "0 < sz" "sz \<le> length buffer"
  shows "\<exists>rb' mem'. ring_buffer_copy_from rb mem buffer sz = Inr (rb', mem') \<and> ring_wf rb' mem'
    \<and> contents rb' mem' = last_n (max_size rb) (contents rb mem @ take sz buffer)
    \<and> (sz \<le> ring_buffer_available rb \<longleftrightarrow> contents rb' mem' = contents rb mem @ take sz buffer)"
proof -
  obtain rb' mem' where r: "ring_buffer_copy_from rb mem buffer sz = Inr (rb', mem')"
      "ring_wf rb' mem'"
      "contents rb' mem' = last_n (max_size rb) (contents rb mem @ take sz buffer)"
    using ring_buffer_copy_from_refines [OF assms] by blast
  have "last_n m xs = xs \<longleftrightarrow> length xs \<le> m \<or> xs = []" if "0 < m" for m and xs :: "u8 list"
    using that by (auto simp: last_n_def dest: arg_cong [where f = length])
  with r assms size_le_max [OF assms(1)] show ?thesis
    by (auto simp: ring_buffer_available_def ring_wf_def)
qed

theorem ring_copy_from_keeps_last_witness:
  "\<exists>rb' mem'. ring_buffer_copy_from \<lparr>head = 0, tail = 2, max_size = 3, full = False\<rparr> [7, 8, 9] [1, 2, 3] 3
       = Inr (rb', mem') \<and> contents rb' mem' = [1, 2, 3]"
proof -
  let ?rb = "\<lparr>head = 0, tail = 2, max_size = 3, full = False\<rparr>"
  have wf: "ring_wf ?rb [7, 8, 9]" by (simp add: ring_wf_def)
  have "contents ?rb [7, 8, 9 :: u8] = [9]"
    by (simp add: contents_def ring_buffer_size_def)
  then have "last_n (max_size ?rb) (contents ?rb [7, 8, 9] @ take 3 [1, 2, 3]) = [1, 2, 3]"
    by (simp add: last_n_def)
  with ring_copy_from_keeps_last [OF wf, of 3 "[1, 2, 3]"] show ?thesis by auto
qed

text \<open>
  C19. First in, first out: a block that fits the free space comes back out, after the
  bytes that were there, through \<^verbatim>\<open>ring_buffer_copy_to\<close>, and the ring is then empty.
\<close>

theorem ring_copy_from_copy_to:
  assumes "ring_wf rb mem" "0 < sz" "sz \<le> length buffer" "sz \<le> ring_buffer_available rb"
    and "ring_buffer_size rb + sz \<le> out" "out \<le> length dst"
  shows "\<exists>rb1 mem1 rb2. ring_buffer_copy_from rb mem buffer sz = Inr (rb1, mem1)
    \<and> ring_buffer_copy_to rb1 mem1 dst out
        = Inr (ring_buffer_size rb + sz, rb2,
               contents rb mem @ take sz buffer @ drop (ring_buffer_size rb + sz) dst)
    \<and> ring_buffer_is_empty rb2"
proof -
  have fits: "length (contents rb mem @ take sz buffer) \<le> max_size rb"
    using assms size_le_max [OF assms(1)] by (auto simp: ring_buffer_available_def)
  obtain rb1 mem1 where r1: "ring_buffer_copy_from rb mem buffer sz = Inr (rb1, mem1)"
      "ring_wf rb1 mem1" "contents rb1 mem1 = contents rb mem @ take sz buffer"
    using ring_buffer_copy_from_refines [OF assms(1-3)] fits by (auto simp: last_n_def)
  have size1: "ring_buffer_size rb1 = ring_buffer_size rb + sz"
    using r1(3) assms(3) length_contents [of rb1 mem1] by simp
  then obtain rb2 where r2: "ring_buffer_copy_to rb1 mem1 dst out
        = Inr (ring_buffer_size rb + sz, rb2,
               contents rb mem @ take sz buffer @ drop (ring_buffer_size rb + sz) dst)"
      "ring_wf rb2 mem1" "contents rb2 mem1 = []"
    using ring_buffer_copy_to_refines [OF r1(2), of out dst] r1(3) assms by auto
  have "ring_buffer_is_empty rb2"
    using r2(2,3) size_eq_0_iff length_contents by (metis list.size(3))
  with r1(1) r2(1) show ?thesis by blast
qed

theorem ring_copy_from_copy_to_witness:
  "\<exists>rb1 mem1 rb2. ring_buffer_copy_from \<lparr>head = 2, tail = 2, max_size = 3, full = False\<rparr> [7, 8, 9] [1, 2] 2
       = Inr (rb1, mem1)
     \<and> ring_buffer_copy_to rb1 mem1 [0, 0, 0] 3 = Inr (2, rb2, [1, 2, 0])
     \<and> ring_buffer_is_empty rb2"
proof -
  let ?rb = "\<lparr>head = 2, tail = 2, max_size = 3, full = False\<rparr>"
  have "ring_wf ?rb [7, 8, 9]" "ring_buffer_size ?rb = 0" "contents ?rb [7, 8, 9 :: u8] = []"
    by (simp_all add: ring_wf_def contents_def ring_buffer_size_def)
  then show ?thesis
    using ring_copy_from_copy_to [of ?rb "[7, 8, 9]" 2 "[1, 2]" 3 "[0, 0, 0]"]
    by (simp add: ring_buffer_available_def numeral_2_eq_2)
qed

end
