(* ===== verification/Devices.thy ===== *)
theory Devices
  imports Pipeline_Spin Ring_Buffer
begin

text \<open>
  The devices behind the ports of the Linux build: the structs the hooks allocate, the
  heap they live in, and the operating system's calls. A port's \<^verbatim>\<open>opaque\<close> is the address of
  its struct. Casting it to the wrong struct, or using it after \<^verbatim>\<open>free\<close>, is a fault.
  The system's calls are one record of functions on the system's state \<open>'o\<close>. Locks are not
  part of this view, which is the main thread's; the threads are in \<open>Handoff\<close>.
\<close>

section \<open>The structs\<close>

text \<open>A thread handle that \<^verbatim>\<open>thrd_create\<close> has not set is \<^verbatim>\<open>(thrd_t)-1\<close>, here \<open>False\<close>.\<close>

record termios =
  c_cflag :: u32
  c_lflag :: u32
  c_oflag :: u32
  c_iflag :: u32
  c_vmin :: u8
  c_vtime :: u8
  c_ispeed :: u32
  c_ospeed :: u32

record uart_connection =
  uart_initialized :: bool
  uart_fd :: int
  uart_device :: string
  uart_terminate :: bool
  uart_thread :: bool
  uart_options :: termios
  uart_input :: ring_buffer
  uart_output :: "u8 list"

text \<open>
  The receive buffer that the UDP and TCP structs share with their threads: the bytes, the
  next one to read, and how many there are (-1 after a failed \<^verbatim>\<open>recv\<close>).
\<close>

record rx_buffer =
  rx_data :: "u8 list"
  cur_read :: int
  buffer_size :: int

record 'a udp_socket =
  udp_initialized :: bool
  udp_port :: int
  udp_fd :: int
  udp_terminate :: bool
  udp_thread :: bool
  udp_has_client :: bool
  udp_clt_addr :: 'a
  udp_rx :: rx_buffer
  udp_output :: "u8 list"

record tcpout_socket =
  tcpout_initialized :: bool
  tcpout_ip :: string
  tcpout_port :: int
  tcpout_fd :: int
  tcpout_terminate :: bool
  tcpout_thread :: bool
  tcpout_rx :: rx_buffer
  tcpout_output :: "u8 list"

record tcp_socket =
  tcp_initialized :: bool
  tcp_port :: int
  tcp_fd :: int
  tcp_connection :: int
  tcp_terminate :: bool
  tcp_thread :: bool
  tcp_rx :: rx_buffer
  tcp_output :: "u8 list"

definition BUFFER_BYTES :: nat where
  "BUFFER_BYTES = 4096"

lemma buffer_bytes_pos [simp]: "0 < BUFFER_BYTES"
  by (simp add: BUFFER_BYTES_def)

section \<open>The heap and the world\<close>

datatype 'a device =
    Uart uart_connection
  | Udp "'a udp_socket"
  | Tcpout tcpout_socket
  | Tcp tcp_socket

record ('a, 'o) world =
  heap :: "nat \<Rightarrow> 'a device option"
  sys :: 'o

definition heap_put :: "nat \<Rightarrow> 'a device \<Rightarrow> ('a, 'o) world \<Rightarrow> ('a, 'o) world" where
  "heap_put a d w = w\<lparr>heap := (heap w)(a := Some d)\<rparr>"

definition heap_free :: "nat \<Rightarrow> ('a, 'o) world \<Rightarrow> ('a, 'o) world" where
  "heap_free a w = w\<lparr>heap := (heap w)(a := None)\<rparr>"

fun as_uart :: "'a device option \<Rightarrow> uart_connection res" where
  "as_uart None = Inl Use_After_Free"
| "as_uart (Some (Uart u)) = Inr u"
| "as_uart (Some _) = Inl Type_Confusion"

fun as_udp :: "'a device option \<Rightarrow> 'a udp_socket res" where
  "as_udp None = Inl Use_After_Free"
| "as_udp (Some (Udp u)) = Inr u"
| "as_udp (Some _) = Inl Type_Confusion"

fun as_tcpout :: "'a device option \<Rightarrow> tcpout_socket res" where
  "as_tcpout None = Inl Use_After_Free"
| "as_tcpout (Some (Tcpout t)) = Inr t"
| "as_tcpout (Some _) = Inl Type_Confusion"

fun as_tcp :: "'a device option \<Rightarrow> tcp_socket res" where
  "as_tcp None = Inl Use_After_Free"
| "as_tcp (Some (Tcp t)) = Inr t"
| "as_tcp (Some _) = Inl Type_Confusion"

text \<open>Running a step of the system next to the heap.\<close>

definition sys_step :: "('o \<Rightarrow> 'r \<times> 'o) \<Rightarrow> ('a, 'o) world \<Rightarrow> 'r \<times> ('a, 'o) world" where
  "sys_step f w = (let (r, s) = f (sys w) in (r, w\<lparr>sys := s\<rparr>))"

definition sys_do :: "('o \<Rightarrow> 'o) \<Rightarrow> ('a, 'o) world \<Rightarrow> ('a, 'o) world" where
  "sys_do f w = w\<lparr>sys := f (sys w)\<rparr>"

section \<open>The operating system\<close>

text \<open>
  Results are those of the C calls: -1 or a descriptor, the number of bytes sent or -1.
  \<^verbatim>\<open>recv\<close> returns the bytes received, or nothing for -1. Addresses of peers are \<open>'a\<close>.
  A send to a peer that is gone returns -1: \<^verbatim>\<open>SIGPIPE\<close> is taken to be ignored, which the program
  leaves to its surroundings. \<^verbatim>\<open>thrd_create\<close> and the status calls return success. The flags of \<^verbatim>\<open>termios\<close> are constants
  of the system.
\<close>

record ('a, 'o) os =
  malloc :: "'o \<Rightarrow> nat option \<times> 'o"
  thrd_create :: "nat \<Rightarrow> 'o \<Rightarrow> bool \<times> 'o"
  thrd_join :: "nat \<Rightarrow> 'o \<Rightarrow> 'o"
  cnd_signal :: "nat \<Rightarrow> 'o \<Rightarrow> 'o"
  os_close :: "int \<Rightarrow> 'o \<Rightarrow> 'o"
  os_open :: "string \<Rightarrow> 'o \<Rightarrow> int \<times> 'o"
  clear_nonblock :: "int \<Rightarrow> 'o \<Rightarrow> 'o"
  tcgetattr :: "int \<Rightarrow> 'o \<Rightarrow> termios option \<times> 'o"
  tcsetattr :: "int \<Rightarrow> termios \<Rightarrow> 'o \<Rightarrow> bool \<times> 'o"
  os_write :: "int \<Rightarrow> u8 list \<Rightarrow> 'o \<Rightarrow> int \<times> 'o"
  os_read :: "int \<Rightarrow> nat \<Rightarrow> 'o \<Rightarrow> u8 list option \<times> 'o"
  socket_dgram :: "'o \<Rightarrow> int \<times> 'o"
  socket_stream :: "'o \<Rightarrow> int \<times> 'o"
  set_reuseaddr :: "int \<Rightarrow> 'o \<Rightarrow> bool \<times> 'o"
  os_bind :: "int \<Rightarrow> int \<Rightarrow> 'o \<Rightarrow> bool \<times> 'o"
  os_listen :: "int \<Rightarrow> 'o \<Rightarrow> bool \<times> 'o"
  os_accept :: "int \<Rightarrow> 'o \<Rightarrow> int \<times> 'o"
  inet_pton :: "string \<Rightarrow> bool"
  os_connect :: "int \<Rightarrow> string \<Rightarrow> int \<Rightarrow> 'o \<Rightarrow> bool \<times> 'o"
  os_recv :: "int \<Rightarrow> nat \<Rightarrow> 'o \<Rightarrow> u8 list option \<times> 'o"
  os_recvfrom :: "int \<Rightarrow> nat \<Rightarrow> 'o \<Rightarrow> (u8 list \<times> 'a) option \<times> 'o"
  os_send :: "int \<Rightarrow> u8 list \<Rightarrow> 'o \<Rightarrow> int \<times> 'o"
  os_sendto :: "int \<Rightarrow> u8 list \<Rightarrow> 'a \<Rightarrow> 'o \<Rightarrow> int \<times> 'o"
  CSIZE :: u32
  CS8 :: u32
  PARENB :: u32
  CSTOPB :: u32
  CRTSCTS :: u32
  lflags_off :: u32
  OPOST :: u32
  flow_control :: u32
  input_processing :: u32
  B115200 :: u32

section \<open>Writing into a buffer\<close>

text \<open>A block written at the start of a fixed array.\<close>

definition write_front :: "u8 list \<Rightarrow> u8 list \<Rightarrow> u8 list res" where
  "write_front buf bs = (if length bs \<le> length buf then Inr (bs @ drop (length bs) buf) else Inl Out_Of_Bounds)"

lemma write_front_ok [simp]:
  "length bs \<le> length buf \<Longrightarrow> write_front buf bs = Inr (bs @ drop (length bs) buf)"
  by (simp add: write_front_def)

lemma heap_put_simps [simp]:
  "heap (heap_put a d w) b = (if b = a then Some d else heap w b)" "sys (heap_put a d w) = sys w"
  by (simp_all add: heap_put_def)

lemma heap_put_put [simp]: "heap_put a d (heap_put a e w) = heap_put a d w"
  by (simp add: heap_put_def)

lemma sys_do_simps [simp]: "heap (sys_do f w) = heap w" "sys (sys_do f w) = f (sys w)"
  by (simp_all add: sys_do_def)

lemma sys_step_heap: "sys_step f w = (r, w') \<Longrightarrow> heap w' = heap w"
  by (auto simp: sys_step_def split: prod.splits)

lemma as_uart_Inr_iff [res_simps]: "as_uart d = Inr u \<longleftrightarrow> d = Some (Uart u)"
  by (cases d rule: as_uart.cases) auto

lemma as_udp_Inr_iff [res_simps]: "as_udp d = Inr u \<longleftrightarrow> d = Some (Udp u)"
  by (cases d rule: as_udp.cases) auto

lemma as_tcpout_Inr_iff [res_simps]: "as_tcpout d = Inr t \<longleftrightarrow> d = Some (Tcpout t)"
  by (cases d rule: as_tcpout.cases) auto

lemma as_tcp_Inr_iff [res_simps]: "as_tcp d = Inr t \<longleftrightarrow> d = Some (Tcp t)"
  by (cases d rule: as_tcp.cases) auto

section \<open>The receive buffer\<close>

text \<open>Whether there is an unread byte, and taking it.\<close>

definition rx_has_data :: "rx_buffer \<Rightarrow> bool" where
  "rx_has_data rx \<longleftrightarrow> 0 < buffer_size rx \<and> cur_read rx < buffer_size rx"

definition rx_take :: "rx_buffer \<Rightarrow> (u8 \<times> rx_buffer) res" where
  "rx_take rx = bind_res (arr_get (rx_data rx) (nat (cur_read rx)))
     (\<lambda>b. Inr (b, rx\<lparr>cur_read := cur_read rx + 1\<rparr>))"

definition rx_fill :: "rx_buffer \<Rightarrow> u8 list \<Rightarrow> rx_buffer res" where
  "rx_fill rx bs = bind_res (write_front (rx_data rx) bs)
     (\<lambda>d. Inr \<lparr>rx_data = d, cur_read = 0, buffer_size = int (length bs)\<rparr>)"

definition rx_wf :: "rx_buffer \<Rightarrow> bool" where
  "rx_wf rx \<longleftrightarrow> length (rx_data rx) = BUFFER_BYTES \<and> 0 \<le> cur_read rx
     \<and> buffer_size rx \<le> int BUFFER_BYTES"

definition rx_unread :: "rx_buffer \<Rightarrow> u8 list" where
  "rx_unread rx = drop (nat (cur_read rx)) (take (nat (buffer_size rx)) (rx_data rx))"

lemma rx_has_data_iff: "rx_wf rx \<Longrightarrow> rx_has_data rx \<longleftrightarrow> rx_unread rx \<noteq> []"
  by (auto simp: rx_has_data_def rx_unread_def rx_wf_def)

lemma rx_take_ok:
  assumes "rx_wf rx" "rx_unread rx = b # bs"
  shows "\<exists>rx'. rx_take rx = Inr (b, rx') \<and> rx_wf rx' \<and> rx_unread rx' = bs"
proof -
  have n: "nat (cur_read rx) < nat (buffer_size rx)" "nat (buffer_size rx) \<le> length (rx_data rx)"
    using assms by (auto simp: rx_unread_def rx_wf_def dest: arg_cong [where f = length])
  let ?xs = "take (nat (buffer_size rx)) (rx_data rx)"
  have "nat (cur_read rx) < length ?xs" using n by simp
  from Cons_nth_drop_Suc [OF this] assms(2)
  have "rx_data rx ! nat (cur_read rx) = b" "drop (Suc (nat (cur_read rx))) ?xs = bs"
    using n by (simp_all add: rx_unread_def)
  moreover have "nat (cur_read rx + 1) = Suc (nat (cur_read rx))"
    using assms(1) by (simp add: rx_wf_def nat_add_distrib)
  moreover have "nat (cur_read rx) < length (rx_data rx)"
    using n by linarith
  ultimately show ?thesis
    using assms(1) by (simp add: rx_take_def rx_wf_def rx_unread_def)
qed

lemma rx_fill_ok:
  assumes "rx_wf rx" "length bs \<le> BUFFER_BYTES"
  shows "\<exists>rx'. rx_fill rx bs = Inr rx' \<and> rx_wf rx' \<and> rx_unread rx' = bs"
  using assms by (simp add: rx_fill_def rx_wf_def rx_unread_def)

section \<open>Ports on a receive buffer\<close>

text \<open>
  What the UDP and TCP ports have in common. \<open>buffer a w\<close> is the receive buffer of the struct
  at \<open>a\<close> if that is an open device of the port's type. Asking leaves the heap alone; reading
  takes a byte and changes no other struct.
\<close>

definition buffer_bytes :: "rx_buffer option \<Rightarrow> u8 list" where
  "buffer_bytes b = (case b of None \<Rightarrow> [] | Some rx \<Rightarrow> rx_unread rx)"

lemma buffer_bytes_Some [simp]: "buffer_bytes (Some rx) = rx_unread rx"
  by (simp add: buffer_bytes_def)

locale rx_port =
  fixes has_more :: "('a, 'o) world has_more_t"
    and read_byte :: "('a, 'o) world read_byte_t"
    and buffer :: "nat \<Rightarrow> ('a, 'o) world \<Rightarrow> rx_buffer option"
  assumes asks: "buffer a w = Some rx \<Longrightarrow>
      \<exists>w'. has_more (Some a) w = Inr (if rx_has_data rx then 1 else 0, w') \<and> heap w' = heap w"
    and reads: "buffer a w = Some rx \<Longrightarrow> rx_has_data rx \<Longrightarrow> rx_take rx = Inr (b, rx') \<Longrightarrow> rx_wf rx' \<Longrightarrow>
      \<exists>w'. read_byte (Some a) w = Inr (b, w') \<and> buffer a w' = Some rx' \<and> (\<forall>c. c \<noteq> a \<longrightarrow> heap w' c = heap w c)"
    and local: "heap w' a = heap w a \<Longrightarrow> buffer a w' = buffer a w"
    and wf: "buffer a w = Some rx \<Longrightarrow> rx_wf rx"
begin

text \<open>The contract of a source, with any property of the other structs carried along.\<close>

lemma source:
  assumes P: "\<And>w w'. P w \<Longrightarrow> (\<forall>c. c \<noteq> a \<longrightarrow> heap w' c = heap w c) \<Longrightarrow> P w'"
  shows "byte_source has_more read_byte (Some a) (\<lambda>w. buffer a w \<noteq> None \<and> P w) (\<lambda>w. buffer_bytes (buffer a w))"
proof
  fix w assume w: "buffer a w \<noteq> None \<and> P w"
  then obtain rx where rx: "buffer a w = Some rx" by blast
  obtain w' where h: "has_more (Some a) w = Inr (if rx_has_data rx then 1 else 0, w')" "heap w' = heap w"
    using asks [OF rx] by blast
  have "buffer a w' = Some rx" using local [of w' a w] h(2) rx by simp
  moreover have "P w'" using P [of w w'] w h(2) by simp
  ultimately show "\<exists>v w'. has_more (Some a) w = Inr (v, w') \<and> (buffer a w' \<noteq> None \<and> P w')
      \<and> buffer_bytes (buffer a w') = buffer_bytes (buffer a w) \<and> (v = 0 \<longleftrightarrow> buffer_bytes (buffer a w) = [])"
    using h(1) rx rx_has_data_iff [OF wf [OF rx]] by auto
next
  fix w w1 b bs v
  assume w: "buffer a w \<noteq> None \<and> P w" and p: "buffer_bytes (buffer a w) = b # bs"
    and h: "has_more (Some a) w = Inr (v, w1)"
  then obtain rx where rx: "buffer a w = Some rx" by blast
  have heap: "heap w1 = heap w" using asks [OF rx] h by auto
  then have rx1: "buffer a w1 = Some rx" "P w1" using local [of w1 a w] P [of w w1] rx w by simp_all
  have unread: "rx_unread rx = b # bs" using p rx by simp
  obtain rx' where t: "rx_take rx = Inr (b, rx')" "rx_wf rx'" "rx_unread rx' = bs"
    using rx_take_ok [OF wf [OF rx] unread] by blast
  have "rx_has_data rx" using rx_has_data_iff [OF wf [OF rx]] unread by simp
  from reads [OF rx1(1) this t(1,2)] obtain w2 where
    w2: "read_byte (Some a) w1 = Inr (b, w2)" "buffer a w2 = Some rx'" "\<forall>c. c \<noteq> a \<longrightarrow> heap w2 c = heap w1 c" by blast
  then show "\<exists>w'. read_byte (Some a) w1 = Inr (b, w') \<and> (buffer a w' \<noteq> None \<and> P w') \<and> buffer_bytes (buffer a w') = bs"
    using P [OF rx1(2) w2(3)] t(3) by auto
qed

lemma source_alone: "byte_source has_more read_byte (Some a) (\<lambda>w. buffer a w \<noteq> None) (\<lambda>w. buffer_bytes (buffer a w))"
  using source [of "\<lambda>w. True" a] by simp

end

text \<open>Sending, too, changes the port's own struct only, and not what is unread in it.\<close>

locale network_port = rx_port has_more read_byte buffer
  for has_more :: "('a, 'o) world has_more_t" and read_byte and buffer +
  fixes route :: "(('a, 'o) world, 'x, 's) route_t"
    and fits :: "('x, 's) message \<Rightarrow> bool"
  assumes sends: "buffer a w = Some rx \<Longrightarrow> fits m \<Longrightarrow>
      \<exists>v w'. route (Some a) m w = Inr (v, w') \<and> buffer a w' = Some rx \<and> (\<forall>c. c \<noteq> a \<longrightarrow> heap w' c = heap w c)"

text \<open>An encoded message that fits the ports' output buffers.\<close>

definition frame_fits :: "('x, 's, 'c) mavlink_lib \<Rightarrow> ('x, 's) message \<Rightarrow> bool" where
  "frame_fits lib m \<longleftrightarrow> length (mavlink_msg_to_send_buffer lib (msg m)) \<le> BUFFER_BYTES"

section \<open>A concrete system, for witnesses\<close>

text \<open>Its state: the chunks still to arrive, what was sent on which descriptor, the next address.\<close>

type_synonym demo_sys = "u8 list list \<times> (int \<times> u8 list) list \<times> nat"

definition demo_receive :: "demo_sys \<Rightarrow> u8 list option \<times> demo_sys" where
  "demo_receive s = (case s of ([], r) \<Rightarrow> (None, ([], r)) | (c # cs, r) \<Rightarrow> (Some c, (cs, r)))"

definition demo_send :: "int \<Rightarrow> u8 list \<Rightarrow> demo_sys \<Rightarrow> int \<times> demo_sys" where
  "demo_send fd bs s = (case s of (cs, sent, n) \<Rightarrow> (int (length bs), (cs, sent @ [(fd, bs)], n)))"

definition demo_os :: "(unit, demo_sys) os" where
  "demo_os = \<lparr>
     malloc = (\<lambda>(cs, sent, n). (Some n, (cs, sent, n + 1))),
     thrd_create = (\<lambda>a s. (True, s)), thrd_join = (\<lambda>a s. s), cnd_signal = (\<lambda>a s. s),
     os_close = (\<lambda>fd s. s), os_open = (\<lambda>d s. (3, s)), clear_nonblock = (\<lambda>fd s. s),
     tcgetattr = (\<lambda>fd s. (Some \<lparr>c_cflag = 0, c_lflag = 0, c_oflag = 0, c_iflag = 0, c_vmin = 0, c_vtime = 0,
       c_ispeed = 0, c_ospeed = 0\<rparr>, s)),
     tcsetattr = (\<lambda>fd t s. (True, s)), os_write = demo_send, os_read = (\<lambda>fd n. demo_receive),
     socket_dgram = (\<lambda>s. (4, s)), socket_stream = (\<lambda>s. (5, s)), set_reuseaddr = (\<lambda>fd s. (True, s)),
     os_bind = (\<lambda>fd port s. (True, s)), os_listen = (\<lambda>fd s. (True, s)), os_accept = (\<lambda>fd s. (6, s)),
     inet_pton = (\<lambda>ip. True), os_connect = (\<lambda>fd ip port s. (True, s)), os_recv = (\<lambda>fd n. demo_receive),
     os_recvfrom = (\<lambda>fd n s. case demo_receive s of (None, s') \<Rightarrow> (None, s') | (Some bs, s') \<Rightarrow> (Some (bs, ()), s')),
     os_send = demo_send, os_sendto = (\<lambda>fd bs addr. demo_send fd bs),
     CSIZE = 0x30, CS8 = 0x30, PARENB = 0x100, CSTOPB = 0x40, CRTSCTS = 0x80000000, lflags_off = 0x1B,
     OPOST = 1, flow_control = 0x1C00, input_processing = 0x1EB, B115200 = 0x1002\<rparr>"

definition demo_termios :: termios where
  "demo_termios = \<lparr>c_cflag = 0, c_lflag = 0, c_oflag = 0, c_iflag = 0, c_vmin = 0, c_vtime = 0,
     c_ispeed = 0, c_ospeed = 0\<rparr>"

definition demo_rx :: rx_buffer where
  "demo_rx = \<lparr>rx_data = replicate BUFFER_BYTES 0, cur_read = 0, buffer_size = 0\<rparr>"

definition demo_world :: "(nat \<times> unit device) list \<Rightarrow> u8 list list \<Rightarrow> (unit, demo_sys) world" where
  "demo_world ds chunks = \<lparr>heap = map_of ds, sys = (chunks, [], 100)\<rparr>"

end
