(* ===== verification/Source_Uart.thy ===== *)
theory Source_Uart
  imports Devices
begin

text \<open>
  The serial port of \<^verbatim>\<open>lib/source_uart.c\<close>: opening and configuring the device, the thread
  that reads it into a ring buffer, the source's and the sink's operations, and the hook.
  The struct's only byte array, \<^verbatim>\<open>output_buffer\<close>, is both the storage of the input ring and
  the buffer a frame is built in before it is written; the model keeps that sharing.
\<close>

section \<open>Opening the device\<close>

definition raw_options :: "('a, 'o) os \<Rightarrow> termios \<Rightarrow> termios" where
  "raw_options os t = t\<lparr>
     c_cflag := ((((c_cflag t AND NOT (CSIZE os)) OR CS8 os) AND NOT (PARENB os)) AND NOT (CSTOPB os))
       AND NOT (CRTSCTS os),
     c_lflag := c_lflag t AND NOT (lflags_off os),
     c_oflag := c_oflag t AND NOT (OPOST os),
     c_iflag := (c_iflag t AND NOT (flow_control os)) AND NOT (input_processing os),
     c_vmin := 1, c_vtime := 0, c_ispeed := B115200 os, c_ospeed := B115200 os\<rparr>"

definition uart_device_init ::
  "('a, 'o) os \<Rightarrow> uart_connection \<Rightarrow> 'o \<Rightarrow> int \<times> uart_connection \<times> 'o" where
  "uart_device_init os u s =
     (let (fd, s1) = os_open os (uart_device u) s;
          u1 = u\<lparr>uart_fd := fd\<rparr>
      in if fd = -1 then (error_code SEC_GATEWAY_IO_FAULT, u1, s1)
         else let s2 = clear_nonblock os fd s1;
                  (attrs, s3) = tcgetattr os fd s2
              in case attrs of
                   None \<Rightarrow> (error_code SEC_GATEWAY_IO_FAULT, u1, s3)
                 | Some t \<Rightarrow>
                     let u2 = u1\<lparr>uart_options := raw_options os t\<rparr>;
                         (done, s4) = tcsetattr os fd (uart_options u2) s3
                     in if \<not> done then (error_code SEC_GATEWAY_IO_FAULT, u2, s4)
                        else (error_code SUCC, u2, s4))"

definition uart_state_init :: "uart_connection \<Rightarrow> (int \<times> uart_connection) res" where
  "uart_state_init u =
     bind_res (ring_buffer_init (uart_output u) (length (uart_output u))) (\<lambda>rb.
       Inr (error_code SUCC, u\<lparr>uart_thread := False, uart_terminate := False, uart_input := rb\<rparr>))"

definition uart_init :: "('a, 'o) os \<Rightarrow> nat \<Rightarrow> ('a, 'o) world \<Rightarrow> (int \<times> ('a, 'o) world) res" where
  "uart_init os a w =
     bind_res (as_uart (heap w a)) (\<lambda>u.
       if uart_initialized u then Inr (error_code SUCC, w)
       else let (rv, u1, s1) = uart_device_init os u (sys w);
                w1 = (heap_put a (Uart u1) w)\<lparr>sys := s1\<rparr>
            in if rv \<noteq> error_code SUCC then Inr (error_code SEC_GATEWAY_IO_FAULT, w1)
               else bind_res (uart_state_init u1) (\<lambda>(rv2, u2).
                 if rv2 \<noteq> error_code SUCC
                 then Inr (error_code SEC_GATEWAY_INVALID_STATE, heap_put a (Uart u2) w1)
                 else let (created, w2) = sys_step (thrd_create os a) w1
                      in if \<not> created
                         then Inr (error_code SEC_GATEWAY_THREAD_ERROR, heap_put a (Uart u2) w2)
                         else Inr (error_code SUCC,
                                heap_put a (Uart (u2\<lparr>uart_thread := True, uart_initialized := True\<rparr>)) w2)))"

text \<open>
  What \<^verbatim>\<open>pipeline_connect\<close> calls, with the port in place of the struct: the first byte of
  either is the flag that is tested.
\<close>

fun uart_init_cb :: "('a, 'o) os \<Rightarrow> ('a, 'o) world init_t" where
  "uart_init_cb os (Device_Obj a) w = uart_init os a w"
| "uart_init_cb os (Source_Obj flag) w = (if flag then Inr (error_code SUCC, w) else Inl Type_Confusion)"
| "uart_init_cb os (Sink_Obj flag) w = (if flag then Inr (error_code SUCC, w) else Inl Type_Confusion)"

definition uart_cleanup :: "('a, 'o) os \<Rightarrow> nat \<Rightarrow> ('a, 'o) world \<Rightarrow> ('a, 'o) world res" where
  "uart_cleanup os a w =
     bind_res (as_uart (heap w a)) (\<lambda>u.
       let w1 = heap_put a (Uart (u\<lparr>uart_initialized := False, uart_terminate := True\<rparr>)) w;
           w2 = (if uart_thread u then sys_do (thrd_join os a) w1 else w1);
           w3 = (if uart_fd u \<noteq> -1 then sys_do (os_close os (uart_fd u)) w2 else w2)
       in Inr (heap_free a w3))"

fun uart_cleanup_cb :: "('a, 'o) os \<Rightarrow> ('a, 'o) world cleanup_t" where
  "uart_cleanup_cb os (Device_Obj a) w = uart_cleanup os a w"
| "uart_cleanup_cb os _ w = Inl Type_Confusion"

section \<open>The reading thread\<close>

text \<open>
  One pass of the thread's loop up to its wait for room; \<open>Some\<close> is the thread's return.
  The thread reads at most the 256 bytes of its static buffer.
\<close>

definition uart_server_step ::
  "('a, 'o) os \<Rightarrow> nat \<Rightarrow> ('a, 'o) world \<Rightarrow> (int option \<times> ('a, 'o) world) res" where
  "uart_server_step os a w =
     bind_res (as_uart (heap w a)) (\<lambda>u.
       if uart_terminate u then Inr (Some (error_code SUCC), w)
       else let (r, w1) = sys_step (os_read os (uart_fd u) 256) w
            in case r of
                 None \<Rightarrow> Inr (Some (error_code SEC_GATEWAY_IO_FAULT), w1)
               | Some bs \<Rightarrow>
                   bind_res (ring_buffer_copy_from (uart_input u) (uart_output u) bs (length bs)) (\<lambda>(rb, mem).
                     Inr (None, heap_put a (Uart (u\<lparr>uart_input := rb, uart_output := mem\<rparr>)) w1)))"

definition uart_server_waits :: "uart_connection \<Rightarrow> bool" where
  "uart_server_waits u \<longleftrightarrow> ring_buffer_is_full (uart_input u)"

section \<open>The source and the sink\<close>

definition uart_has_more :: "('a, 'o) os \<Rightarrow> ('a, 'o) world has_more_t" where
  "uart_has_more os opq w =
     (case opq of
        None \<Rightarrow> Inl Assert_Failed
      | Some a \<Rightarrow>
          bind_res (as_uart (heap w a)) (\<lambda>u.
          bind_res (if uart_initialized u then Inr (error_code SUCC, w) else uart_init os a w) (\<lambda>(rv, w1).
            if rv \<noteq> error_code SUCC then Inr (0, w1)
            else bind_res (as_uart (heap w1 a)) (\<lambda>u1.
              Inr (if ring_buffer_is_empty (uart_input u1) then 0 else 1, w1)))))"

definition uart_read_byte :: "('a, 'o) os \<Rightarrow> ('a, 'o) world read_byte_t" where
  "uart_read_byte os opq w =
     (case opq of
        None \<Rightarrow> Inl Assert_Failed
      | Some a \<Rightarrow>
          bind_res (as_uart (heap w a)) (\<lambda>u.
          bind_res (ring_buffer_pop (uart_input u) (uart_output u)) (\<lambda>(byte, rb).
            Inr (byte, sys_do (cnd_signal os a) (heap_put a (Uart (u\<lparr>uart_input := rb\<rparr>)) w)))))"

definition uart_route_to ::
  "('x, 's, 'c) mavlink_lib \<Rightarrow> ('a, 'o) os \<Rightarrow> (('a, 'o) world, 'x, 's) route_t" where
  "uart_route_to lib os opq m w =
     (case opq of
        None \<Rightarrow> Inl Assert_Failed
      | Some a \<Rightarrow>
          bind_res (as_uart (heap w a)) (\<lambda>u.
          bind_res (if uart_initialized u then Inr (error_code SUCC, w) else uart_init os a w) (\<lambda>(rv, w1).
            if rv \<noteq> error_code SUCC then Inr (error_code SEC_GATEWAY_IO_FAULT, w1)
            else bind_res (as_uart (heap w1 a)) (\<lambda>u1.
                 let frame = mavlink_msg_to_send_buffer lib (msg m)
                 in bind_res (write_front (uart_output u1) frame) (\<lambda>mem.
                    let (written, w2) = sys_step (os_write os (uart_fd u1) frame)
                                          (heap_put a (Uart (u1\<lparr>uart_output := mem\<rparr>)) w1)
                    in Inr (if written = -1 \<or> written < int (length frame)
                            then error_code SEC_GATEWAY_IO_FAULT else error_code SUCC, w2))))))"

section \<open>The hook\<close>

text \<open>\<open>garbage\<close> is what the allocated memory holds.\<close>

definition hook_uart ::
  "('x, 's, 'c) mavlink_lib \<Rightarrow> ('a, 'o) os \<Rightarrow> uart_connection \<Rightarrow> string \<Rightarrow> nat \<Rightarrow> nat
     \<Rightarrow> (('a, 'o) world, 'x, 's) pipeline_t \<Rightarrow> ('a, 'o) world
     \<Rightarrow> (int \<times> (('a, 'o) world, 'x, 's) pipeline_t \<times> ('a, 'o) world) res" where
  "hook_uart lib os garbage device source_id sink_type p w =
     (let (r, w1) = sys_step (malloc os) w
      in case r of
           None \<Rightarrow> Inr (error_code SEC_GATEWAY_IO_FAULT, p, w1)
         | Some a \<Rightarrow>
             let w2 = heap_put a (Uart (garbage\<lparr>uart_device := device, uart_initialized := False\<rparr>)) w1
             in bind_res (source_allocate p source_id (\<lambda>src. src\<lparr>src_opaque := Some a,
                    src_init := Some (uart_init_cb os), src_has_more := Some (uart_has_more os),
                    src_read_byte := Some (uart_read_byte os), src_cleanup := Some (uart_cleanup_cb os)\<rparr>)) (\<lambda>p1.
                bind_res (sink_allocate p1 sink_type (\<lambda>snk. snk\<lparr>snk_opaque := Some a,
                    snk_route := Some (uart_route_to lib os), snk_init := Some (uart_init_cb os),
                    snk_cleanup := Some (uart_cleanup_cb os)\<rparr>)) (\<lambda>p2.
                  Inr (error_code SUCC, p2, w2))))"

section \<open>The open port as a source of bytes\<close>

definition uart_wf :: "uart_connection \<Rightarrow> bool" where
  "uart_wf u \<longleftrightarrow> uart_initialized u \<and> length (uart_output u) = BUFFER_BYTES
     \<and> max_size (uart_input u) = BUFFER_BYTES \<and> ring_wf (uart_input u) (uart_output u)"

definition uart_open :: "nat \<Rightarrow> ('a, 'o) world \<Rightarrow> bool" where
  "uart_open a w \<longleftrightarrow> (\<exists>u. heap w a = Some (Uart u) \<and> uart_wf u)"

definition uart_pending :: "nat \<Rightarrow> ('a, 'o) world \<Rightarrow> u8 list" where
  "uart_pending a w = (case as_uart (heap w a) of Inl _ \<Rightarrow> [] | Inr u \<Rightarrow> contents (uart_input u) (uart_output u))"

lemma contents_Nil_iff: "ring_wf rb mem \<Longrightarrow> contents rb mem = [] \<longleftrightarrow> ring_buffer_is_empty rb"
  using size_eq_0_iff [of rb mem] by (metis length_contents length_0_conv)

interpretation uart_src: byte_source "uart_has_more os" "uart_read_byte os" "Some a" "uart_open a" "uart_pending a"
  for os :: "('a, 'o) os" and a
proof unfold_locales
  fix w :: "('a, 'o) world"
  assume "uart_open a w"
  then obtain u where u: "heap w a = Some (Uart u)" "uart_wf u" by (auto simp: uart_open_def)
  then have wf: "ring_wf (uart_input u) (uart_output u)" "uart_initialized u" by (simp_all add: uart_wf_def)
  have "uart_has_more os (Some a) w = Inr (if ring_buffer_is_empty (uart_input u) then 0 else 1, w)"
    using u wf by (simp add: uart_has_more_def)
  then show "\<exists>v w'. uart_has_more os (Some a) w = Inr (v, w') \<and> uart_open a w'
      \<and> uart_pending a w' = uart_pending a w \<and> (v = 0 \<longleftrightarrow> uart_pending a w = [])"
    using u contents_Nil_iff [OF wf(1)] by (auto simp: uart_open_def uart_pending_def)
next
  fix w w1 :: "('a, 'o) world" and b bs v
  assume "uart_open a w" and p: "uart_pending a w = b # bs" and h: "uart_has_more os (Some a) w = Inr (v, w1)"
  then obtain u where u: "heap w a = Some (Uart u)" "uart_wf u" by (auto simp: uart_open_def)
  then have wf: "ring_wf (uart_input u) (uart_output u)" by (simp add: uart_wf_def)
  have w1: "w1 = w" using h u by (simp add: uart_has_more_def uart_wf_def)
  from ring_buffer_pop_refines [OF wf] p u obtain rb where
    rb: "ring_buffer_pop (uart_input u) (uart_output u) = Inr (b, rb)" "ring_wf rb (uart_output u)"
      "max_size rb = max_size (uart_input u)" "contents rb (uart_output u) = bs"
    by (auto simp: uart_pending_def)
  then show "\<exists>w'. uart_read_byte os (Some a) w1 = Inr (b, w') \<and> uart_open a w' \<and> uart_pending a w' = bs"
    using u w1 by (simp add: uart_read_byte_def uart_open_def uart_pending_def uart_wf_def)
qed

lemma uart_server_step_ok:
  assumes "heap w a = Some (Uart u)" "uart_wf u" "\<not> uart_terminate u"
    and "os_read os (uart_fd u) 256 (sys w) = (Some bs, s)" "bs \<noteq> []"
  shows "\<exists>w'. uart_server_step os a w = Inr (None, w') \<and> uart_open a w'
    \<and> uart_pending a w' = last_n BUFFER_BYTES (uart_pending a w @ bs)"
proof -
  obtain rb mem where r: "ring_buffer_copy_from (uart_input u) (uart_output u) bs (length bs) = Inr (rb, mem)"
      "ring_wf rb mem" "max_size rb = BUFFER_BYTES"
      "contents rb mem = last_n BUFFER_BYTES (contents (uart_input u) (uart_output u) @ bs)"
    using ring_buffer_copy_from_refines [of "uart_input u" "uart_output u" "length bs" bs] assms(2,5)
    by (auto simp: uart_wf_def)
  have "length mem = BUFFER_BYTES"
    using copy_from_length [OF r(1)] assms(2) by (simp add: uart_wf_def)
  then show ?thesis
    using assms r
    by (simp add: uart_server_step_def sys_step_def uart_open_def uart_pending_def uart_wf_def)
qed

section \<open>An open port, for witnesses\<close>

definition demo_uart :: uart_connection where
  "demo_uart = \<lparr>uart_initialized = True, uart_fd = 3, uart_device = ''/dev/ttyAMA0'', uart_terminate = False,
     uart_thread = True, uart_options = demo_termios,
     uart_input = \<lparr>head = 2, tail = 0, max_size = BUFFER_BYTES, full = False\<rparr>,
     uart_output = replicate BUFFER_BYTES 1\<rparr>"

lemma demo_uart_wf: "uart_wf demo_uart"
  by (simp add: uart_wf_def demo_uart_def ring_wf_def BUFFER_BYTES_def)

lemma demo_uart_pending: "uart_pending 7 (demo_world [(7, Uart demo_uart)] cs) = [1, 1]"
  by (simp add: uart_pending_def demo_world_def demo_uart_def contents_def ring_buffer_size_def BUFFER_BYTES_def
      upt_rec)

section \<open>Properties\<close>

text \<open>
  C14. The receive path. What the reading thread gets from the line is appended to what is
  pending, and the source hands it out in order. When the two together exceed the 4096
  bytes of the ring, the oldest pending bytes are lost and no error is reported: the
  thread waits for room only when not a single byte is free, and then reads up to 256.
\<close>

theorem uart_receive_path:
  assumes "heap w a = Some (Uart u)" and "uart_wf u" and "\<not> uart_terminate u"
    and "os_read os (uart_fd u) 256 (sys w) = (Some bs, s)" and "bs \<noteq> []"
  shows "\<exists>w1 w2. uart_server_step os a w = Inr (None, w1)
    \<and> read_n (uart_has_more os) (uart_read_byte os) (Some a) BUFFER_BYTES w1
        = Inr (last_n BUFFER_BYTES (uart_pending a w @ bs), w2)
    \<and> (length (uart_pending a w) + length bs \<le> BUFFER_BYTES \<longrightarrow>
         last_n BUFFER_BYTES (uart_pending a w @ bs) = uart_pending a w @ bs)"
proof -
  obtain w1 where w1: "uart_server_step os a w = Inr (None, w1)" "uart_open a w1"
      "uart_pending a w1 = last_n BUFFER_BYTES (uart_pending a w @ bs)"
    using uart_server_step_ok [OF assms] by blast
  have "take BUFFER_BYTES (uart_pending a w1) = uart_pending a w1"
    using w1(3) by (simp add: last_n_def)
  with uart_src.read_n_ok [OF w1(2), of os BUFFER_BYTES] w1 show ?thesis
    by (auto simp: last_n_def)
qed

theorem uart_receive_path_witness:
  "\<exists>w1 w2. uart_server_step demo_os 7 (demo_world [(7, Uart demo_uart)] [[8, 9]]) = Inr (None, w1)
    \<and> read_n (uart_has_more demo_os) (uart_read_byte demo_os) (Some 7) BUFFER_BYTES w1
        = Inr ([1, 1, 8, 9], w2)"
proof -
  let ?w = "demo_world [(7, Uart demo_uart)] [[8, 9]]"
  have 1: "heap ?w 7 = Some (Uart demo_uart)" by (simp add: demo_world_def)
  have 2: "\<not> uart_terminate demo_uart" by (simp add: demo_uart_def)
  have 3: "os_read demo_os (uart_fd demo_uart) 256 (sys ?w) = (Some [8, 9], ([], [], 100))"
    by (simp add: demo_os_def demo_receive_def demo_world_def)
  from uart_receive_path [OF 1 demo_uart_wf 2 3] show ?thesis
    by (auto simp: demo_uart_pending BUFFER_BYTES_def)
qed

text \<open>
  C13. Sending destroys received bytes. The frame is built in the array that stores the
  pending input, without the lock: after a route of an \<open>n\<close>-byte frame, every pending byte
  whose place in the ring is below \<open>n\<close> has been replaced by a byte of the outgoing frame,
  and the others are intact. With the ring read from the start, the first pending bytes
  become the gateway's own output.
\<close>

theorem uart_route_overwrites_input:
  assumes "heap w a = Some (Uart u)" and "uart_wf u"
    and "length (mavlink_msg_to_send_buffer lib (msg m)) \<le> BUFFER_BYTES"
  shows "\<exists>rv w'. uart_route_to lib os (Some a) m w = Inr (rv, w')
    \<and> length (uart_pending a w') = length (uart_pending a w)
    \<and> (\<forall>k < length (uart_pending a w).
         uart_pending a w' ! k =
           (let place = (tail (uart_input u) + k) mod BUFFER_BYTES
            in if place < length (mavlink_msg_to_send_buffer lib (msg m))
               then mavlink_msg_to_send_buffer lib (msg m) ! place
               else uart_pending a w ! k))"
proof -
  let ?f = "mavlink_msg_to_send_buffer lib (msg m)"
  let ?mem = "?f @ drop (length ?f) (uart_output u)"
  let ?u1 = "u\<lparr>uart_output := ?mem\<rparr>"
  obtain n w2 where s: "sys_step (os_write os (uart_fd u) ?f) (heap_put a (Uart ?u1) w) = (n, w2)"
    by (rule prod.exhaust)
  have "uart_route_to lib os (Some a) m w
      = Inr (if n = -1 \<or> n < int (length ?f) then error_code SEC_GATEWAY_IO_FAULT else error_code SUCC, w2)"
    using assms s by (simp add: uart_route_to_def uart_wf_def Let_def)
  moreover have "heap w2 a = Some (Uart ?u1)"
    using sys_step_heap [OF s] by simp
  moreover have "?mem ! i = (if i < length ?f then ?f ! i else uart_output u ! i)" if "i < BUFFER_BYTES" for i
    using that assms by (simp add: nth_append uart_wf_def)
  moreover have "0 < BUFFER_BYTES" by (simp add: BUFFER_BYTES_def)
  ultimately show ?thesis
    using assms by (auto simp: uart_pending_def contents_def uart_wf_def Let_def)
qed

theorem uart_route_overwrites_input_witness:
  "\<exists>rv w'. uart_route_to demo_lib demo_os (Some 7) (demo_message 2 9) (demo_world [(7, Uart demo_uart)] [])
      = Inr (rv, w') \<and> uart_pending 7 w' = [9, 1]"
proof -
  let ?w = "demo_world [(7, Uart demo_uart)] []"
  have 1: "heap ?w 7 = Some (Uart demo_uart)" by (simp add: demo_world_def)
  have f: "mavlink_msg_to_send_buffer demo_lib (msg (demo_message 2 9)) = [9]"
    by (simp add: demo_lib_def demo_message_def demo_msg_def)
  have t: "tail (uart_input demo_uart) = 0" by (simp add: demo_uart_def)
  have len2: "length [1, 1 :: u8] = 2" and len1: "length [9 :: u8] = 1" by simp_all
  have "\<exists>rv w'. uart_route_to demo_lib demo_os (Some 7) (demo_message 2 9) ?w = Inr (rv, w')
      \<and> length (uart_pending 7 w') = 2
      \<and> (\<forall>k < 2. uart_pending 7 w' ! k = (if k mod BUFFER_BYTES < 1 then [9] ! (k mod BUFFER_BYTES) else [1, 1] ! k))"
    using uart_route_overwrites_input [OF 1 demo_uart_wf, of demo_lib "demo_message 2 9" demo_os,
        unfolded f t demo_uart_pending len2 len1 Let_def add_0] by (simp add: BUFFER_BYTES_def)
  then obtain rv w' where w': "uart_route_to demo_lib demo_os (Some 7) (demo_message 2 9) ?w = Inr (rv, w')"
      "length (uart_pending 7 w') = 2"
      "\<forall>k < 2. uart_pending 7 w' ! k = (if k mod BUFFER_BYTES < 1 then [9] ! (k mod BUFFER_BYTES) else [1, 1] ! k)"
    by blast
  then have "uart_pending 7 w' = [9, 1]"
    by (intro nth_equalityI) (auto simp: BUFFER_BYTES_def less_Suc_eq numeral_2_eq_2)
  with w'(1) show ?thesis by blast
qed

end
