(* ===== verification/Source_Stdio.thy ===== *)
theory Source_Stdio
  imports Pipeline_Push
begin

text \<open>
  The sink of \<^verbatim>\<open>lib/source_stdio.c\<close>, which prints messages. What it prints is a value,
  \<open>stdio_report\<close>, handed to the world by \<open>emit\<close>. The description of a message's fields
  comes from the MAVLink library (\<^verbatim>\<open>mavlink_get_message_info\<close>), a parameter. Field values
  are read the way the code's pointer arithmetic reads them; the lemmas compare that with
  the place where the field is.
\<close>

section \<open>Field descriptions\<close>

datatype mavlink_type =
    MAVLINK_TYPE_CHAR
  | MAVLINK_TYPE_UINT8_T
  | MAVLINK_TYPE_INT8_T
  | MAVLINK_TYPE_UINT16_T
  | MAVLINK_TYPE_INT16_T
  | MAVLINK_TYPE_UINT32_T
  | MAVLINK_TYPE_INT32_T
  | MAVLINK_TYPE_UINT64_T
  | MAVLINK_TYPE_INT64_T
  | MAVLINK_TYPE_FLOAT
  | MAVLINK_TYPE_DOUBLE
  | MAVLINK_TYPE_OTHER nat

record field_info =
  field_name :: string
  field_type :: mavlink_type
  structure_offset :: nat

record message_info =
  info_name :: string
  info_fields :: "field_info list"

section \<open>What is printed\<close>

text \<open>The value under a format; a floating-point number is its bits.\<close>

datatype printed =
    Hex nat nat
  | Float_Bits nat
  | Double_Bits nat
  | Unknown_Type mavlink_type

record stdio_report =
  from_source :: "string \<times> nat"
  to_sinks :: "(string \<times> nat) list"
  attr :: u64
  described :: "(string \<times> u32 \<times> u8 \<times> u8 \<times> (string \<times> printed) list) option"
  hexdump :: "u8 list"

section \<open>Reading a field\<close>

fun le_value :: "u8 list \<Rightarrow> nat" where
  "le_value [] = 0"
| "le_value (b # bs) = unat b + 256 * le_value bs"

definition peek :: "u8 list \<Rightarrow> nat \<Rightarrow> nat \<Rightarrow> nat res" where
  "peek payload off width =
     (if off + width \<le> length payload then Inr (le_value (take width (drop off payload)))
      else Inl Out_Of_Bounds)"

text \<open>
  The integer cases cast the payload to a pointer to the field's type and add the offset
  to that pointer, so the offset is scaled by the size; the floating-point cases add it to
  the byte pointer.
\<close>

fun print_field :: "u8 list \<Rightarrow> mavlink_type \<Rightarrow> nat \<Rightarrow> printed res" where
  "print_field p MAVLINK_TYPE_CHAR k = bind_res (peek p k 1) (\<lambda>v. Inr (Hex 2 v))"
| "print_field p MAVLINK_TYPE_UINT8_T k = bind_res (peek p k 1) (\<lambda>v. Inr (Hex 2 v))"
| "print_field p MAVLINK_TYPE_INT8_T k = bind_res (peek p k 1) (\<lambda>v. Inr (Hex 2 v))"
| "print_field p MAVLINK_TYPE_UINT16_T k = bind_res (peek p (2 * k) 2) (\<lambda>v. Inr (Hex 4 v))"
| "print_field p MAVLINK_TYPE_INT16_T k = bind_res (peek p (2 * k) 2) (\<lambda>v. Inr (Hex 4 v))"
| "print_field p MAVLINK_TYPE_UINT32_T k = bind_res (peek p (4 * k) 4) (\<lambda>v. Inr (Hex 8 v))"
| "print_field p MAVLINK_TYPE_INT32_T k = bind_res (peek p (4 * k) 4) (\<lambda>v. Inr (Hex 8 v))"
| "print_field p MAVLINK_TYPE_UINT64_T k = bind_res (peek p (8 * k) 8) (\<lambda>v. Inr (Hex 16 v))"
| "print_field p MAVLINK_TYPE_INT64_T k = bind_res (peek p (8 * k) 8) (\<lambda>v. Inr (Hex 16 v))"
| "print_field p MAVLINK_TYPE_FLOAT k = bind_res (peek p k 4) (\<lambda>v. Inr (Float_Bits v))"
| "print_field p MAVLINK_TYPE_DOUBLE k = bind_res (peek p k 8) (\<lambda>v. Inr (Double_Bits v))"
| "print_field p (MAVLINK_TYPE_OTHER t) k = Inr (Unknown_Type (MAVLINK_TYPE_OTHER t))"

fun print_fields :: "u8 list \<Rightarrow> field_info list \<Rightarrow> (string \<times> printed) list res" where
  "print_fields p [] = Inr []"
| "print_fields p (f # fs) =
     bind_res (print_field p (field_type f) (structure_offset f)) (\<lambda>v.
     bind_res (print_fields p fs) (\<lambda>vs. Inr ((field_name f, v) # vs)))"

section \<open>The sink\<close>

definition stdio_init :: "('w \<Rightarrow> 'w) \<Rightarrow> 'w init_t" where
  "stdio_init set_nonblock opq w = Inr (error_code SUCC, set_nonblock w)"

definition stdio_cleanup :: "('w \<Rightarrow> 'w) \<Rightarrow> 'w cleanup_t" where
  "stdio_cleanup clear_nonblock opq w = Inr (clear_nonblock w)"

fun sink_list :: "bitmap \<Rightarrow> nat list \<Rightarrow> (string \<times> nat) list res" where
  "sink_list b [] = Inr []"
| "sink_list b (i # is) =
     bind_res (bitmap_test b i) (\<lambda>v.
     bind_res (sink_list b is) (\<lambda>rest.
       Inr (if v \<noteq> 0 then (sink_name i, i) # rest else rest)))"

definition stdio_report_of ::
  "('x mavlink_message \<Rightarrow> message_info option) \<Rightarrow> ('x, 's) message \<Rightarrow> stdio_report res" where
  "stdio_report_of get_info m =
     bind_res (sink_list (sinks m) [0 ..< MAX_SINKS]) (\<lambda>ss.
     bind_res (case get_info (msg m) of
                 None \<Rightarrow> Inr None
               | Some info \<Rightarrow> bind_res (print_fields (payload64 (msg m)) (info_fields info)) (\<lambda>vs.
                   Inr (Some (info_name info, msgid (msg m), compid (msg m), seq (msg m), vs)))) (\<lambda>d.
     bind_res (if unat (len (msg m)) \<le> length (payload64 (msg m))
               then Inr (take (unat (len (msg m))) (payload64 (msg m)))
               else Inl Out_Of_Bounds) (\<lambda>h.
       Inr \<lparr>from_source = (source_name (source m), source m), to_sinks = ss, attr = attribute m,
            described = d, hexdump = h\<rparr>)))"

definition stdio_route ::
  "('x mavlink_message \<Rightarrow> message_info option) \<Rightarrow> (stdio_report \<Rightarrow> 'w \<Rightarrow> 'w) \<Rightarrow> ('w, 'x, 's) route_t" where
  "stdio_route get_info emit opq m w =
     bind_res (stdio_report_of get_info m) (\<lambda>r. Inr (error_code SUCC, emit r w))"

text \<open>The hook takes the sink as it is: \<^verbatim>\<open>is_connected\<close> is not set.\<close>

definition hook_stdio_sink ::
  "('w \<Rightarrow> 'w) \<Rightarrow> ('w \<Rightarrow> 'w) \<Rightarrow> ('x mavlink_message \<Rightarrow> message_info option) \<Rightarrow> (stdio_report \<Rightarrow> 'w \<Rightarrow> 'w)
     \<Rightarrow> ('w, 'x, 's) pipeline_t \<Rightarrow> nat \<Rightarrow> ('w, 'x, 's) pipeline_t res" where
  "hook_stdio_sink set_nonblock clear_nonblock get_info emit p type =
     sink_modify p type (\<lambda>snk. snk\<lparr>
       snk_init := Some (stdio_init set_nonblock),
       snk_cleanup := Some (stdio_cleanup clear_nonblock),
       snk_route := Some (stdio_route get_info emit)\<rparr>)"

section \<open>Where a field is\<close>

fun type_size :: "mavlink_type \<Rightarrow> nat" where
  "type_size MAVLINK_TYPE_UINT16_T = 2"
| "type_size MAVLINK_TYPE_INT16_T = 2"
| "type_size MAVLINK_TYPE_UINT32_T = 4"
| "type_size MAVLINK_TYPE_INT32_T = 4"
| "type_size MAVLINK_TYPE_FLOAT = 4"
| "type_size MAVLINK_TYPE_UINT64_T = 8"
| "type_size MAVLINK_TYPE_INT64_T = 8"
| "type_size MAVLINK_TYPE_DOUBLE = 8"
| "type_size _ = 1"

fun is_integer_type :: "mavlink_type \<Rightarrow> bool" where
  "is_integer_type MAVLINK_TYPE_FLOAT = False"
| "is_integer_type MAVLINK_TYPE_DOUBLE = False"
| "is_integer_type (MAVLINK_TYPE_OTHER t) = False"
| "is_integer_type _ = True"

lemma print_integer_field:
  "is_integer_type t \<Longrightarrow> print_field p t k =
     bind_res (peek p (type_size t * k) (type_size t)) (\<lambda>v. Inr (Hex (2 * type_size t) v))"
  by (cases t) simp_all

lemma print_field_safe:
  assumes "k + type_size t \<le> length p" "is_integer_type t \<longrightarrow> type_size t = 1 \<or> k = 0"
  shows "\<exists>v. print_field p t k = Inr v"
  using assms by (cases t) (auto simp: peek_def)

lemma print_fields_safe:
  assumes "\<forall>f \<in> set fs. structure_offset f + type_size (field_type f) \<le> length p
      \<and> (is_integer_type (field_type f) \<longrightarrow> type_size (field_type f) = 1 \<or> structure_offset f = 0)"
  shows "\<exists>vs. print_fields p fs = Inr vs"
  using assms
proof (induction fs)
  case (Cons f fs)
  then obtain vs where "print_fields p fs = Inr vs" by auto
  moreover obtain v where "print_field p (field_type f) (structure_offset f) = Inr v"
    using Cons.prems print_field_safe [of "structure_offset f" "field_type f" p] by auto
  ultimately show ?case by simp
qed simp

text \<open>What a field of type \<open>t\<close> at offset \<open>k\<close> of the payload holds, in the format of its type.\<close>

fun field_format :: "mavlink_type \<Rightarrow> nat \<Rightarrow> printed" where
  "field_format MAVLINK_TYPE_FLOAT v = Float_Bits v"
| "field_format MAVLINK_TYPE_DOUBLE v = Double_Bits v"
| "field_format (MAVLINK_TYPE_OTHER t) v = Unknown_Type (MAVLINK_TYPE_OTHER t)"
| "field_format t v = Hex (2 * type_size t) v"

definition field_at :: "u8 list \<Rightarrow> mavlink_type \<Rightarrow> nat \<Rightarrow> printed" where
  "field_at p t k = field_format t (le_value (take (type_size t) (drop k p)))"

definition reads_field :: "nat \<Rightarrow> mavlink_type \<Rightarrow> nat \<Rightarrow> bool" where
  "reads_field n t k \<longleftrightarrow> (\<forall>p. length p = n \<longrightarrow> print_field p t k = Inr (field_at p t k))"

lemma integer_format: "is_integer_type t \<Longrightarrow> field_format t v = Hex (2 * type_size t) v"
  by (cases t) simp_all

lemma type_size_pos [simp]: "0 < type_size t"
  by (cases t) simp_all

lemma le_value_replicate [simp]: "le_value (replicate n 0) = 0"
  by (induction n) simp_all

text \<open>A payload with a single 1 in the first byte of the field shows the difference.\<close>

lemma scaled_read_differs:
  assumes "is_integer_type t" "1 < type_size t" "0 < k" "k + type_size t \<le> n"
  shows "\<not> reads_field n t k"
proof
  assume reads: "reads_field n t k"
  let ?s = "type_size t" and ?p = "(replicate n (0 :: u8))[k := 1]"
  have far: "k < ?s * k" using mult_less_mono1 [OF assms(2,3)] by simp
  have "take ?s (drop k ?p) = 1 # replicate (?s - 1) 0"
    using assms(2,4) by (intro nth_equalityI) (auto simp: nth_Cons nth_list_update split: nat.splits)
  then have here: "le_value (take ?s (drop k ?p)) = 1" by simp
  have "take ?s (drop (?s * k) ?p) = replicate ?s 0" if "?s * k + ?s \<le> n"
    using that far by (intro nth_equalityI) (auto simp: nth_list_update)
  then have there: "le_value (take ?s (drop (?s * k) ?p)) = 0" if "?s * k + ?s \<le> n" using that by simp
  have "print_field ?p t k = Inr (field_at ?p t k)" using reads by (simp add: reads_field_def)
  then show False
    using here there assms(1) by (simp add: print_integer_field peek_def field_at_def integer_format split: if_splits)
qed

section \<open>Properties\<close>

text \<open>
  C25. Which fields the sink prints. For a field inside a payload of \<open>n\<close> bytes, of any type the
  code knows, what is printed is the value of the field for every content of the payload if
  and only if it is a floating-point field, a one-byte field, or at offset 0: the casts of
  the other integer cases scale the offset by the size. Where the scaled place does not lie
  inside the payload, the sink reads past the array, whatever it holds.
\<close>

theorem stdio_reads_scaled_offset:
  assumes "\<forall>x. t \<noteq> MAVLINK_TYPE_OTHER x" and "k + type_size t \<le> n"
  shows "(reads_field n t k \<longleftrightarrow> \<not> is_integer_type t \<or> type_size t = 1 \<or> k = 0)
    \<and> (\<forall>p. length p = n \<longrightarrow> (print_field p t k = Inl Out_Of_Bounds \<longleftrightarrow>
         is_integer_type t \<and> n < type_size t * k + type_size t))"
proof -
  have good: "reads_field n t k" if "\<not> is_integer_type t \<or> type_size t = 1 \<or> k = 0"
    using that assms by (cases t) (auto simp: reads_field_def field_at_def peek_def)
  moreover have "\<not> reads_field n t k" if "is_integer_type t" "type_size t \<noteq> 1" "k \<noteq> 0"
    using scaled_read_differs [OF that(1) _ _ assms(2)] that(2,3) type_size_pos [of t] by linarith
  moreover have "print_field p t k = Inl Out_Of_Bounds \<longleftrightarrow> is_integer_type t \<and> n < type_size t * k + type_size t"
    if "length p = n" for p
    using that assms by (cases t) (auto simp: peek_def)
  ultimately show ?thesis by blast
qed

theorem stdio_reads_scaled_offset_witness:
  "print_field (replicate 64 0) MAVLINK_TYPE_UINT32_T 16 = Inl Out_Of_Bounds
    \<and> \<not> reads_field 264 MAVLINK_TYPE_UINT16_T 4 \<and> reads_field 264 MAVLINK_TYPE_FLOAT 4"
  using stdio_reads_scaled_offset [of MAVLINK_TYPE_UINT32_T 16 64]
    stdio_reads_scaled_offset [of MAVLINK_TYPE_UINT16_T 4 264] stdio_reads_scaled_offset [of MAVLINK_TYPE_FLOAT 4 264]
  by simp

text \<open>
  The stdio sink is never initialised. Hooking it sets its callbacks but leaves it
  unconnected; connecting and disconnecting the pipeline therefore never call its
  \<^verbatim>\<open>init\<close> and \<^verbatim>\<open>cleanup\<close>, whatever they are, while its route is called like any other.
\<close>

lemma stdio_sink_not_connected:
  assumes "length (snks p) = MAX_SINKS" and "i < MAX_SINKS" and "\<not> snk_is_connected (snks p ! i)"
  shows "\<exists>p'. hook_stdio_sink setnb clrnb get_info emit p i = Inr p'
    \<and> snk_route (snks p' ! i) = Some (stdio_route get_info emit)
    \<and> (\<forall>w. pipeline_connect p' w = pipeline_connect p w)
    \<and> (\<forall>w. pipeline_disconnect p' w = pipeline_disconnect p w)"
proof -
  let ?f = "\<lambda>snk. snk\<lparr>snk_init := Some (stdio_init setnb), snk_cleanup := Some (stdio_cleanup clrnb),
    snk_route := Some (stdio_route get_info emit)\<rparr>"
  have connect: "connect_sinks (ss[j := ?f (ss ! j)]) w = connect_sinks ss w"
    and disconnect: "disconnect_sinks (ss[j := ?f (ss ! j)]) w = disconnect_sinks ss w"
    if "j < length ss" "\<not> snk_is_connected (ss ! j)" for j ss w
    using that
    by (induction ss arbitrary: j w) (auto split: nat.splits intro!: bind_res_cong)
  show ?thesis
    using assms connect [of i "snks p"] disconnect [of i "snks p"]
    by (auto simp: hook_stdio_sink_def sink_modify_def sink_get_def pipeline_connect_def
        pipeline_disconnect_def fun_eq_iff intro!: bind_res_cong)
qed

end
