(* ===== verification/Handoff.thy ===== *)
theory Handoff
  imports Devices
begin

text \<open>
  The receive buffer the UDP and the TCP sources share with their threads, with the two
  threads interleaved: the loop of \<^verbatim>\<open>udp_server\<close> (\<^verbatim>\<open>lib/source_udp.c\<close>) against the calls of
  \<^verbatim>\<open>udp_has_more\<close> and \<^verbatim>\<open>udp_read_byte\<close> the main loop makes. Every access to a shared variable
  outside the lock is a step of its own; the lock, the wait and the wake-up are steps. A
  wait may end at any time, which covers the signal and spurious wake-ups. The server
  copies a datagram into the buffer without the lock.
\<close>

section \<open>The two threads\<close>

datatype owner = No_Owner | Server_Owns | Consumer_Owns

text \<open>Where the server is in its loop.\<close>

datatype server_pc =
    S_Check
  | S_Recv
  | S_Lock
  | S_Set_Cur
  | S_Set_Size
  | S_Test
  | S_Waiting
  | S_Relock
  | S_Unlock
  | S_Done

text \<open>Where the main loop is: in \<^verbatim>\<open>has_more\<close> (\<open>H\<close>) or in \<^verbatim>\<open>read_byte\<close> (\<open>R\<close>).\<close>

datatype consumer_pc =
    H_Size
  | H_Cur
  | H_Less
  | H_Lock
  | H_Unlock
  | R_Lock
  | R_Test
  | R_Read
  | R_Inc
  | R_Unlock

text \<open>
  \<open>incoming\<close> is what \<^verbatim>\<open>recvfrom\<close> will return, \<open>None\<close> for an error. \<open>chunk\<close> and \<open>seen_cur\<close> are
  the threads' local values. \<open>received\<close>, \<open>delivered\<close> and \<open>fillers\<close> only record what happened:
  the bytes the server stored, the bytes \<^verbatim>\<open>read_byte\<close> returned from the buffer, and how
  often it returned the 0 that stands for nothing.
\<close>

record handoff =
  h_rx :: rx_buffer
  h_owner :: owner
  h_server :: server_pc
  h_consumer :: consumer_pc
  h_terminate :: bool
  incoming :: "u8 list option list"
  chunk :: int
  seen_cur :: int
  received :: "u8 list"
  delivered :: "u8 list"
  fillers :: nat

text \<open>A thread that cannot go on stays where it is.\<close>

definition udp_server_step :: "handoff \<Rightarrow> handoff" where
  "udp_server_step s =
     (case h_server s of
        S_Check \<Rightarrow> s\<lparr>h_server := (if h_terminate s then S_Done else S_Recv)\<rparr>
      | S_Recv \<Rightarrow>
          (case incoming s of
             [] \<Rightarrow> s
           | None # later \<Rightarrow> s\<lparr>incoming := later, h_server := S_Check\<rparr>
           | Some bs # later \<Rightarrow>
               if bs = [] then s\<lparr>incoming := later, h_server := S_Check\<rparr>
               else let got = take BUFFER_BYTES bs
                    in s\<lparr>incoming := later, h_server := S_Lock, chunk := int (length got),
                         h_rx := (h_rx s)\<lparr>rx_data := got @ drop (length got) (rx_data (h_rx s))\<rparr>,
                         received := received s @ got\<rparr>)
      | S_Lock \<Rightarrow> if h_owner s = No_Owner then s\<lparr>h_owner := Server_Owns, h_server := S_Set_Cur\<rparr> else s
      | S_Set_Cur \<Rightarrow> s\<lparr>h_rx := (h_rx s)\<lparr>cur_read := 0\<rparr>, h_server := S_Set_Size\<rparr>
      | S_Set_Size \<Rightarrow> s\<lparr>h_rx := (h_rx s)\<lparr>buffer_size := chunk s\<rparr>, h_server := S_Test\<rparr>
      | S_Test \<Rightarrow>
          if cur_read (h_rx s) < buffer_size (h_rx s)
          then s\<lparr>h_owner := No_Owner, h_server := S_Waiting\<rparr>
          else s\<lparr>h_server := S_Unlock\<rparr>
      | S_Waiting \<Rightarrow> s\<lparr>h_server := S_Relock\<rparr>
      | S_Relock \<Rightarrow> if h_owner s = No_Owner then s\<lparr>h_owner := Server_Owns, h_server := S_Test\<rparr> else s
      | S_Unlock \<Rightarrow> s\<lparr>h_owner := No_Owner, h_server := S_Check\<rparr>
      | S_Done \<Rightarrow> s)"

definition udp_consumer_step :: "handoff \<Rightarrow> handoff" where
  "udp_consumer_step s =
     (case h_consumer s of
        H_Size \<Rightarrow> s\<lparr>h_consumer := (if 0 < buffer_size (h_rx s) then H_Cur else H_Lock)\<rparr>
      | H_Cur \<Rightarrow> s\<lparr>seen_cur := cur_read (h_rx s), h_consumer := H_Less\<rparr>
      | H_Less \<Rightarrow> s\<lparr>h_consumer := (if seen_cur s < buffer_size (h_rx s) then R_Lock else H_Lock)\<rparr>
      | H_Lock \<Rightarrow> if h_owner s = No_Owner then s\<lparr>h_owner := Consumer_Owns, h_consumer := H_Unlock\<rparr> else s
      | H_Unlock \<Rightarrow> s\<lparr>h_owner := No_Owner, h_consumer := H_Size\<rparr>
      | R_Lock \<Rightarrow> if h_owner s = No_Owner then s\<lparr>h_owner := Consumer_Owns, h_consumer := R_Test\<rparr> else s
      | R_Test \<Rightarrow>
          if buffer_size (h_rx s) \<le> cur_read (h_rx s)
          then s\<lparr>fillers := fillers s + 1, h_consumer := R_Unlock\<rparr>
          else s\<lparr>h_consumer := R_Read\<rparr>
      | R_Read \<Rightarrow> s\<lparr>delivered := delivered s @ [rx_data (h_rx s) ! nat (cur_read (h_rx s))], h_consumer := R_Inc\<rparr>
      | R_Inc \<Rightarrow> s\<lparr>h_rx := (h_rx s)\<lparr>cur_read := cur_read (h_rx s) + 1\<rparr>, h_consumer := R_Unlock\<rparr>
      | R_Unlock \<Rightarrow> s\<lparr>h_owner := No_Owner, h_consumer := H_Size\<rparr>)"

definition handoff_init :: "u8 list \<Rightarrow> u8 list option list \<Rightarrow> handoff" where
  "handoff_init data arrivals = \<lparr>h_rx = \<lparr>rx_data = data, cur_read = 0, buffer_size = 0\<rparr>, h_owner = No_Owner,
     h_server = S_Check, h_consumer = H_Size, h_terminate = False, incoming = arrivals, chunk = 0,
     seen_cur = 0, received = [], delivered = [], fillers = 0\<rparr>"

text \<open>Any interleaving, with a request to terminate at any time.\<close>

inductive handoff_step :: "handoff \<Rightarrow> handoff \<Rightarrow> bool" where
  Server: "handoff_step s (udp_server_step s)"
| Consumer: "handoff_step s (udp_consumer_step s)"
| Terminate: "handoff_step s (s\<lparr>h_terminate := True\<rparr>)"

inductive reachable :: "handoff \<Rightarrow> bool" where
  Init: "length data = BUFFER_BYTES \<Longrightarrow> reachable (handoff_init data arrivals)"
| Step: "reachable s \<Longrightarrow> handoff_step s s' \<Longrightarrow> reachable s'"

section \<open>The invariant\<close>

definition server_has_lock :: "server_pc \<Rightarrow> bool" where
  "server_has_lock pc \<longleftrightarrow> pc \<in> {S_Set_Cur, S_Set_Size, S_Test, S_Unlock}"

definition consumer_has_lock :: "consumer_pc \<Rightarrow> bool" where
  "consumer_has_lock pc \<longleftrightarrow> pc \<in> {H_Unlock, R_Test, R_Read, R_Inc, R_Unlock}"

definition lock_inv :: "handoff \<Rightarrow> bool" where
  "lock_inv s \<longleftrightarrow> (h_owner s = Server_Owns \<longleftrightarrow> server_has_lock (h_server s))
     \<and> (h_owner s = Consumer_Owns \<longleftrightarrow> consumer_has_lock (h_consumer s))"

text \<open>The server has offered the buffer, and how far the consumer is in it.\<close>

definition offered :: "handoff \<Rightarrow> bool" where
  "offered s \<longleftrightarrow> h_server s \<in> {S_Test, S_Waiting, S_Relock}"

definition position :: "handoff \<Rightarrow> int" where
  "position s = cur_read (h_rx s) + (if h_consumer s = R_Inc then 1 else 0)"

definition data_inv :: "handoff \<Rightarrow> bool" where
  "data_inv s \<longleftrightarrow> length (rx_data (h_rx s)) = BUFFER_BYTES \<and> 0 \<le> cur_read (h_rx s)
     \<and> buffer_size (h_rx s) \<le> int BUFFER_BYTES
     \<and> (h_server s \<in> {S_Lock, S_Set_Cur, S_Set_Size} \<longrightarrow> 0 < chunk s \<and> chunk s \<le> int BUFFER_BYTES)"

definition stream_inv :: "handoff \<Rightarrow> bool" where
  "stream_inv s \<longleftrightarrow>
     (if offered s
      then received s = delivered s
             @ drop (nat (position s)) (take (nat (buffer_size (h_rx s))) (rx_data (h_rx s)))
      else if h_server s \<in> {S_Lock, S_Set_Cur, S_Set_Size}
      then received s = delivered s @ take (nat (chunk s)) (rx_data (h_rx s))
             \<and> (h_server s = S_Set_Size \<longrightarrow> cur_read (h_rx s) = 0)
             \<and> (h_server s \<noteq> S_Set_Size \<longrightarrow> buffer_size (h_rx s) \<le> cur_read (h_rx s))
      else received s = delivered s \<and> buffer_size (h_rx s) \<le> cur_read (h_rx s))"

text \<open>There is a byte for the consumer, now or once the lock is free.\<close>

definition available :: "handoff \<Rightarrow> bool" where
  "available s \<longleftrightarrow> h_server s = S_Set_Size \<or> offered s \<and> cur_read (h_rx s) < buffer_size (h_rx s)"

definition promise_inv :: "handoff \<Rightarrow> bool" where
  "promise_inv s \<longleftrightarrow> fillers s = 0
     \<and> (h_consumer s = H_Less \<and> seen_cur s < buffer_size (h_rx s) \<longrightarrow> available s)
     \<and> (h_consumer s \<in> {R_Lock, R_Test, R_Read, R_Inc} \<longrightarrow> available s)"

lemmas inv_defs = lock_inv_def data_inv_def stream_inv_def promise_inv_def server_has_lock_def
  consumer_has_lock_def offered_def position_def available_def

lemma inv_init:
  "length data = BUFFER_BYTES \<Longrightarrow> lock_inv (handoff_init data arrivals) \<and> data_inv (handoff_init data arrivals)
     \<and> stream_inv (handoff_init data arrivals) \<and> promise_inv (handoff_init data arrivals)"
  by (simp add: handoff_init_def inv_defs)

lemma server_lock_inv: "lock_inv s \<Longrightarrow> lock_inv (udp_server_step s)"
  by (cases "h_server s") (auto simp: udp_server_step_def inv_defs Let_def split: list.splits option.splits)

lemma consumer_lock_inv: "lock_inv s \<Longrightarrow> lock_inv (udp_consumer_step s)"
  by (cases "h_consumer s") (auto simp: udp_consumer_step_def inv_defs)

lemma server_data_inv: "data_inv s \<Longrightarrow> data_inv (udp_server_step s)"
  by (cases "h_server s") (auto simp: udp_server_step_def inv_defs Let_def split: list.splits option.splits)

lemma consumer_data_inv: "data_inv s \<Longrightarrow> data_inv (udp_consumer_step s)"
  by (cases "h_consumer s") (auto simp: udp_consumer_step_def inv_defs)

lemma server_owns_position:
  assumes "lock_inv s" "server_has_lock (h_server s)"
  shows "h_consumer s \<noteq> R_Inc" "position s = cur_read (h_rx s)"
  using assms by (auto simp: lock_inv_def consumer_has_lock_def position_def)

lemma server_stream_inv:
  assumes lock: "lock_inv s" and data: "data_inv s" and stream: "stream_inv s"
  shows "stream_inv (udp_server_step s)"
proof (cases "h_server s")
  case S_Recv
  show ?thesis
  proof (cases "incoming s")
    case Nil
    with S_Recv stream show ?thesis by (simp add: udp_server_step_def)
  next
    case (Cons arrival later)
    with S_Recv stream data show ?thesis
      by (cases arrival) (auto simp: udp_server_step_def stream_inv_def offered_def data_inv_def Let_def min_def)
  qed
next
  case S_Set_Size
  then have "h_consumer s \<noteq> R_Inc" using server_owns_position [OF lock] by (simp add: server_has_lock_def)
  with S_Set_Size stream show ?thesis
    by (simp add: udp_server_step_def stream_inv_def offered_def position_def)
next
  case S_Test
  then have "position s = cur_read (h_rx s)" "h_consumer s \<noteq> R_Inc"
    using server_owns_position [OF lock] by (simp_all add: server_has_lock_def)
  with S_Test stream data show ?thesis
    by (simp add: udp_server_step_def stream_inv_def offered_def position_def data_inv_def)
qed (use stream in \<open>simp_all add: udp_server_step_def stream_inv_def offered_def position_def\<close>)

lemma server_promise_inv:
  assumes "lock_inv s" "data_inv s" "stream_inv s" "promise_inv s"
  shows "promise_inv (udp_server_step s)"
  using assms
  by (cases "h_server s")
    (auto simp: udp_server_step_def inv_defs Let_def split: list.splits option.splits if_splits)

lemma drop_next:
  assumes "k < n" "n \<le> length xs" shows "drop k (take n xs) = xs ! k # drop (Suc k) (take n xs)"
  using assms by (metis Cons_nth_drop_Suc length_take min.absorb2 nth_take)

lemma consumer_stream_inv:
  assumes "lock_inv s" "data_inv s" "stream_inv s" "promise_inv s"
  shows "stream_inv (udp_consumer_step s)"
proof (cases "h_consumer s = R_Read")
  case True
  then have "h_server s \<notin> {S_Set_Cur, S_Set_Size, S_Test, S_Unlock}"
    using assms(1) by (auto simp: lock_inv_def server_has_lock_def consumer_has_lock_def)
  with True assms(4) have av: "offered s" "cur_read (h_rx s) < buffer_size (h_rx s)"
    by (auto simp: promise_inv_def available_def)
  have pos: "0 \<le> cur_read (h_rx s)" "nat (buffer_size (h_rx s)) \<le> length (rx_data (h_rx s))"
    using assms(2) by (auto simp: data_inv_def)
  have "drop (nat (cur_read (h_rx s))) (take (nat (buffer_size (h_rx s))) (rx_data (h_rx s)))
      = rx_data (h_rx s) ! nat (cur_read (h_rx s))
        # drop (nat (cur_read (h_rx s) + 1)) (take (nat (buffer_size (h_rx s))) (rx_data (h_rx s)))"
    using drop_next [of "nat (cur_read (h_rx s))" "nat (buffer_size (h_rx s))" "rx_data (h_rx s)"] av pos
    by (simp add: nat_add_distrib)
  then show ?thesis
    using True assms(3) av(1) by (simp add: udp_consumer_step_def stream_inv_def offered_def position_def)
next
  case False
  then show ?thesis
    using assms by (cases "h_consumer s") (auto simp: udp_consumer_step_def inv_defs split: if_splits)
qed

lemma consumer_promise_inv:
  assumes "lock_inv s" "data_inv s" "stream_inv s" "promise_inv s"
  shows "promise_inv (udp_consumer_step s)"
  using assms
  by (cases "h_consumer s") (auto simp: udp_consumer_step_def inv_defs split: if_splits)

lemma reachable_inv: "reachable s \<Longrightarrow> lock_inv s \<and> data_inv s \<and> stream_inv s \<and> promise_inv s"
proof (induction rule: reachable.induct)
  case (Init data arrivals)
  then show ?case by (rule inv_init)
next
  case (Step s s')
  from Step.hyps(2) show ?case
  proof (cases rule: handoff_step.cases)
    case Server
    with Step.IH show ?thesis
      by (simp add: server_lock_inv server_data_inv server_stream_inv server_promise_inv)
  next
    case Consumer
    with Step.IH show ?thesis
      by (simp add: consumer_lock_inv consumer_data_inv consumer_stream_inv consumer_promise_inv)
  next
    case Terminate
    with Step.IH show ?thesis by (simp add: inv_defs)
  qed
qed

section \<open>Schedules\<close>

text \<open>A schedule says whose turn it is; \<open>True\<close> is the server's.\<close>

fun run :: "bool list \<Rightarrow> handoff \<Rightarrow> handoff" where
  "run [] s = s"
| "run (b # bs) s = run bs (if b then udp_server_step s else udp_consumer_step s)"

lemma run_reachable: "reachable s \<Longrightarrow> reachable (run sch s)"
  by (induction sch arbitrary: s) (auto intro: reachable.Step handoff_step.intros)

text \<open>
  With the server waiting, nothing unread and the consumer between calls, five turns take
  the server back to receiving unless it has been told to end.
\<close>

lemma handoff_turnaround:
  assumes "reachable s" "h_consumer s = H_Size" "h_server s = S_Waiting" "\<not> h_terminate s"
    "buffer_size (h_rx s) \<le> cur_read (h_rx s)"
  shows "h_server (run [True, True, True, True, True] s) = S_Recv
    \<and> delivered (run [True, True, True, True, True] s) = received s"
proof -
  have inv: "lock_inv s" "stream_inv s" "data_inv s" using reachable_inv [OF assms(1)] by auto
  have "h_owner s = No_Owner"
    using inv(1) assms(2,3)
    by (cases "h_owner s") (auto simp: lock_inv_def server_has_lock_def consumer_has_lock_def)
  moreover have "received s = delivered s"
    using inv(2,3) assms by (simp add: stream_inv_def offered_def position_def data_inv_def)
  ultimately show ?thesis
    using assms by (simp add: udp_server_step_def)
qed

section \<open>Properties\<close>

text \<open>
  C28. The handoff between the threads. In every interleaving: the threads never hold the
  lock together; what \<^verbatim>\<open>read_byte\<close> has returned is a prefix of what the server has received,
  so no byte is lost, repeated or reordered; \<^verbatim>\<open>read_byte\<close> never returns the 0 that means
  nothing, although \<^verbatim>\<open>has_more\<close> looks at the shared variables without the lock; and when
  the server receives into the buffer, also without the lock, every byte in it has been
  returned.
\<close>

theorem handoff_delivers_in_order:
  assumes "reachable s"
  shows "\<not> (server_has_lock (h_server s) \<and> consumer_has_lock (h_consumer s))
    \<and> (\<exists>later. received s = delivered s @ later)
    \<and> fillers s = 0
    \<and> (h_server s = S_Recv \<longrightarrow> rx_unread (h_rx s) = [] \<and> delivered s = received s)"
proof -
  have inv: "lock_inv s" "data_inv s" "stream_inv s" "promise_inv s"
    using reachable_inv [OF assms] by auto
  have "\<exists>later. received s = delivered s @ later"
    using inv(3) by (auto simp: stream_inv_def split: if_splits)
  moreover have "rx_unread (h_rx s) = [] \<and> delivered s = received s" if "h_server s = S_Recv"
    using that inv(2,3) by (auto simp: stream_inv_def offered_def data_inv_def rx_unread_def nat_mono)
  ultimately show ?thesis
    using inv(1,4) by (cases "h_owner s") (auto simp: lock_inv_def promise_inv_def)
qed

theorem handoff_delivers_in_order_witness:
  "let s = run [True, True, True, True, True, True, False, False, False, False, False, False]
             (handoff_init (replicate BUFFER_BYTES 0) [Some [5, 6]])
   in h_server s = S_Waiting \<and> h_consumer s = R_Inc \<and> delivered s = [5] \<and> fillers s = 0"
proof -
  let ?s0 = "handoff_init (replicate BUFFER_BYTES 0) [Some [5, 6]]"
  let ?s = "run [True, True, True, True, True, True, False, False, False, False, False, False] ?s0"
  have "reachable ?s" by (intro run_reachable reachable.Init) simp
  from handoff_delivers_in_order [OF this] have "fillers ?s = 0" by blast
  moreover have "h_server ?s = S_Waiting \<and> h_consumer ?s = R_Inc \<and> delivered ?s = [5]"
    by (simp add: handoff_init_def udp_server_step_def udp_consumer_step_def BUFFER_BYTES_def)
  ultimately show ?thesis by (simp add: Let_def)
qed

end
