(* ===== verification/Source_Udp.thy ===== *)
theory Source_Udp
  imports Handoff
begin

text \<open>
  The UDP port of \<^verbatim>\<open>lib/source_udp.c\<close> as the main thread sees it: initialisation, cleanup,
  the source's and the sink's operations, the hook, and one pass of the receiving thread
  as a whole. \<open>Handoff\<close> shows that the pass and the source's operations may be interleaved.
\<close>

section \<open>The receiving thread\<close>

text \<open>One pass up to the wait; the first client that sends becomes the peer.\<close>

definition udp_server_pass ::
  "('a, 'o) os \<Rightarrow> nat \<Rightarrow> ('a, 'o) world \<Rightarrow> (int option \<times> ('a, 'o) world) res" where
  "udp_server_pass os a w =
     bind_res (as_udp (heap w a)) (\<lambda>u.
       if udp_terminate u then Inr (Some (error_code SUCC), w)
       else let (r, w1) = sys_step (os_recvfrom os (udp_fd u) BUFFER_BYTES) w
            in case r of
                 None \<Rightarrow> Inr (None, heap_put a (Udp (u\<lparr>udp_has_client := False\<rparr>)) w1)
               | Some (bs, peer) \<Rightarrow>
                   if bs = [] then Inr (None, heap_put a (Udp (u\<lparr>udp_has_client := False\<rparr>)) w1)
                   else let u1 = (if \<not> udp_has_client u then u\<lparr>udp_has_client := True, udp_clt_addr := peer\<rparr> else u)
                        in bind_res (rx_fill (udp_rx u1) bs) (\<lambda>rx.
                             Inr (None, heap_put a (Udp (u1\<lparr>udp_rx := rx\<rparr>)) w1)))"

section \<open>Initialisation and cleanup\<close>

definition udp_init :: "('a, 'o) os \<Rightarrow> nat \<Rightarrow> ('a, 'o) world \<Rightarrow> (int \<times> ('a, 'o) world) res" where
  "udp_init os a w =
     bind_res (as_udp (heap w a)) (\<lambda>u.
       if udp_initialized u then Inr (error_code SUCC, w)
       else let u1 = u\<lparr>udp_thread := False, udp_terminate := False, udp_has_client := False,
                       udp_rx := (udp_rx u)\<lparr>cur_read := 0, buffer_size := 0\<rparr>\<rparr>;
                (fd, w1) = sys_step (socket_dgram os) w;
                u2 = u1\<lparr>udp_fd := fd\<rparr>
            in if fd = -1 then Inr (error_code SEC_GATEWAY_IO_FAULT, heap_put a (Udp u2) w1)
               else let (bound, w2) = sys_step (os_bind os fd (udp_port u2)) w1
                    in if \<not> bound then Inr (error_code SEC_GATEWAY_IO_FAULT, heap_put a (Udp u2) w2)
                       else let (created, w3) = sys_step (thrd_create os a) w2
                            in if \<not> created then Inr (error_code SEC_GATEWAY_THREAD_ERROR, heap_put a (Udp u2) w3)
                               else Inr (error_code SUCC,
                                      heap_put a (Udp (u2\<lparr>udp_thread := True, udp_initialized := True\<rparr>)) w3))"

fun udp_init_cb :: "('a, 'o) os \<Rightarrow> ('a, 'o) world init_t" where
  "udp_init_cb os (Device_Obj a) w = udp_init os a w"
| "udp_init_cb os (Source_Obj flag) w = (if flag then Inr (error_code SUCC, w) else Inl Type_Confusion)"
| "udp_init_cb os (Sink_Obj flag) w = (if flag then Inr (error_code SUCC, w) else Inl Type_Confusion)"

definition udp_cleanup :: "('a, 'o) os \<Rightarrow> nat \<Rightarrow> ('a, 'o) world \<Rightarrow> ('a, 'o) world res" where
  "udp_cleanup os a w =
     bind_res (as_udp (heap w a)) (\<lambda>u.
       if \<not> udp_initialized u then Inr w
       else let w1 = heap_put a (Udp (u\<lparr>udp_initialized := False, udp_terminate := True\<rparr>)) w;
                w2 = (if udp_thread u then sys_do (thrd_join os a) w1 else w1);
                w3 = (if udp_fd u \<noteq> -1 then sys_do (os_close os (udp_fd u)) w2 else w2)
            in Inr (heap_free a w3))"

fun udp_cleanup_cb :: "('a, 'o) os \<Rightarrow> ('a, 'o) world cleanup_t" where
  "udp_cleanup_cb os (Device_Obj a) w = udp_cleanup os a w"
| "udp_cleanup_cb os (Source_Obj flag) w = (if \<not> flag then Inr w else Inl Type_Confusion)"
| "udp_cleanup_cb os (Sink_Obj flag) w = (if \<not> flag then Inr w else Inl Type_Confusion)"

section \<open>The source and the sink\<close>

definition udp_has_more :: "('a, 'o) os \<Rightarrow> ('a, 'o) world has_more_t" where
  "udp_has_more os opq w =
     (case opq of
        None \<Rightarrow> Inl Assert_Failed
      | Some a \<Rightarrow>
          bind_res (as_udp (heap w a)) (\<lambda>u.
          bind_res (if udp_initialized u then Inr (error_code SUCC, w) else udp_init os a w) (\<lambda>(rv, w1).
            if rv \<noteq> error_code SUCC then Inr (0, w1)
            else bind_res (as_udp (heap w1 a)) (\<lambda>u1.
                 if rx_has_data (udp_rx u1) then Inr (1, w1)
                 else Inr (0, sys_do (cnd_signal os a) w1)))))"

definition udp_read_byte :: "('a, 'o) os \<Rightarrow> ('a, 'o) world read_byte_t" where
  "udp_read_byte os opq w =
     (case opq of
        None \<Rightarrow> Inl Assert_Failed
      | Some a \<Rightarrow>
          bind_res (as_udp (heap w a)) (\<lambda>u.
            if buffer_size (udp_rx u) \<le> cur_read (udp_rx u)
            then Inr (0, sys_do (cnd_signal os a) w)
            else bind_res (rx_take (udp_rx u)) (\<lambda>(byte, rx).
                 Inr (byte, heap_put a (Udp (u\<lparr>udp_rx := rx\<rparr>)) w))))"

definition udp_route_to ::
  "('x, 's, 'c) mavlink_lib \<Rightarrow> ('a, 'o) os \<Rightarrow> (('a, 'o) world, 'x, 's) route_t" where
  "udp_route_to lib os opq m w =
     (case opq of
        None \<Rightarrow> Inl Assert_Failed
      | Some a \<Rightarrow>
          bind_res (as_udp (heap w a)) (\<lambda>u.
          bind_res (if udp_initialized u then Inr (error_code SUCC, w) else udp_init os a w) (\<lambda>(rv, w1).
            if rv \<noteq> error_code SUCC then Inr (rv, w1)
            else bind_res (as_udp (heap w1 a)) (\<lambda>u1.
                 if \<not> udp_has_client u1 then Inr (error_code SEC_GATEWAY_NO_CLIENT, w1)
                 else let frame = mavlink_msg_to_send_buffer lib (msg m)
                      in bind_res (write_front (udp_output u1) frame) (\<lambda>out.
                         let (sent, w2) = sys_step (os_sendto os (udp_fd u1) frame (udp_clt_addr u1))
                                            (heap_put a (Udp (u1\<lparr>udp_output := out\<rparr>)) w1)
                         in Inr (if sent < 0 then error_code SEC_GATEWAY_IO_FAULT else error_code SUCC, w2))))))"

definition hook_udp ::
  "('x, 's, 'c) mavlink_lib \<Rightarrow> ('a, 'o) os \<Rightarrow> 'a udp_socket \<Rightarrow> int \<Rightarrow> nat \<Rightarrow> nat
     \<Rightarrow> (('a, 'o) world, 'x, 's) pipeline_t \<Rightarrow> ('a, 'o) world
     \<Rightarrow> (int \<times> (('a, 'o) world, 'x, 's) pipeline_t \<times> ('a, 'o) world) res" where
  "hook_udp lib os garbage port source_id sink_type p w =
     (let (r, w1) = sys_step (malloc os) w
      in case r of
           None \<Rightarrow> Inr (error_code SEC_GATEWAY_IO_FAULT, p, w1)
         | Some a \<Rightarrow>
             let w2 = heap_put a (Udp (garbage\<lparr>udp_port := port, udp_initialized := False\<rparr>)) w1
             in bind_res (source_allocate p source_id (\<lambda>src. src\<lparr>src_opaque := Some a,
                    src_has_more := Some (udp_has_more os), src_read_byte := Some (udp_read_byte os),
                    src_init := Some (udp_init_cb os), src_cleanup := Some (udp_cleanup_cb os)\<rparr>)) (\<lambda>p1.
                bind_res (sink_allocate p1 sink_type (\<lambda>snk. snk\<lparr>snk_opaque := Some a,
                    snk_route := Some (udp_route_to lib os), snk_init := Some (udp_init_cb os),
                    snk_cleanup := Some (udp_cleanup_cb os)\<rparr>)) (\<lambda>p2.
                  Inr (error_code SUCC, p2, w2))))"

section \<open>The open port as a source of bytes\<close>

definition udp_buffer :: "nat \<Rightarrow> ('a, 'o) world \<Rightarrow> rx_buffer option" where
  "udp_buffer a w = (case as_udp (heap w a) of Inl _ \<Rightarrow> None
     | Inr u \<Rightarrow> if udp_initialized u \<and> rx_wf (udp_rx u) \<and> length (udp_output u) = BUFFER_BYTES then Some (udp_rx u) else None)"

definition udp_open :: "nat \<Rightarrow> ('a, 'o) world \<Rightarrow> bool" where
  "udp_open a w \<longleftrightarrow> udp_buffer a w \<noteq> None"

definition udp_pending :: "nat \<Rightarrow> ('a, 'o) world \<Rightarrow> u8 list" where
  "udp_pending a w = buffer_bytes (udp_buffer a w)"

lemma udp_buffer_iff:
  "udp_buffer a w = Some rx \<longleftrightarrow> (\<exists>u. heap w a = Some (Udp u) \<and> udp_initialized u \<and> rx_wf (udp_rx u)
     \<and> length (udp_output u) = BUFFER_BYTES \<and> rx = udp_rx u)"
  by (cases "as_udp (heap w a)") (auto simp: udp_buffer_def res_simps)

lemma udp_open_iff:
  "udp_open a w \<longleftrightarrow> (\<exists>u. heap w a = Some (Udp u) \<and> udp_initialized u \<and> rx_wf (udp_rx u)
     \<and> length (udp_output u) = BUFFER_BYTES)"
  using udp_buffer_iff [of a w] by (auto simp: udp_open_def)

interpretation udp_rx: rx_port "udp_has_more os" "udp_read_byte os" udp_buffer
  for os :: "('a, 'o) os"
proof unfold_locales
  fix a rx and w w' :: "('a, 'o) world"
  show "udp_buffer a w = Some rx \<Longrightarrow>
      \<exists>w'. udp_has_more os (Some a) w = Inr (if rx_has_data rx then 1 else 0, w') \<and> heap w' = heap w"
    by (cases "rx_has_data rx") (auto simp: udp_has_more_def udp_buffer_iff)
  show "udp_buffer a w = Some rx \<Longrightarrow> rx_wf rx" by (auto simp: udp_buffer_iff)
  show "heap w' a = heap w a \<Longrightarrow> udp_buffer a w' = udp_buffer a w" by (simp add: udp_buffer_def)
next
  fix a rx rx' b and w :: "('a, 'o) world"
  assume "udp_buffer a w = Some rx" "rx_has_data rx" "rx_take rx = Inr (b, rx')" "rx_wf rx'"
  then show "\<exists>w'. udp_read_byte os (Some a) w = Inr (b, w') \<and> udp_buffer a w' = Some rx' \<and> (\<forall>c. c \<noteq> a \<longrightarrow> heap w' c = heap w c)"
    by (auto simp: udp_buffer_iff udp_read_byte_def rx_has_data_def)
qed

interpretation udp_src: byte_source "udp_has_more os" "udp_read_byte os" "Some a" "udp_open a" "udp_pending a"
  for os :: "('a, 'o) os" and a
  using udp_rx.source_alone [of os a] by (simp add: udp_open_def [abs_def] udp_pending_def [abs_def])

interpretation udp_net: network_port "udp_has_more os" "udp_read_byte os" udp_buffer "udp_route_to lib os" "frame_fits lib"
  for os :: "('a, 'o) os" and lib :: "('x, 's, 'c) mavlink_lib"
proof unfold_locales
  fix a rx m and w :: "('a, 'o) world"
  assume "udp_buffer a w = Some rx" and fits: "frame_fits lib m"
  then obtain u where u: "heap w a = Some (Udp u)" "udp_initialized u" "rx_wf (udp_rx u)"
      "length (udp_output u) = BUFFER_BYTES" "rx = udp_rx u" by (auto simp: udp_buffer_iff)
  show "\<exists>v w'. udp_route_to lib os (Some a) m w = Inr (v, w') \<and> udp_buffer a w' = Some rx
      \<and> (\<forall>c. c \<noteq> a \<longrightarrow> heap w' c = heap w c)"
  proof (cases "udp_has_client u")
    case True
    obtain n s where "os_sendto os (udp_fd u) (mavlink_msg_to_send_buffer lib (msg m)) (udp_clt_addr u) (sys w) = (n, s)" by (rule prod.exhaust)
    with True u fits show ?thesis by (simp add: udp_route_to_def frame_fits_def udp_buffer_iff sys_step_def Let_def)
  next
    case False
    with u show ?thesis by (simp add: udp_route_to_def udp_buffer_iff)
  qed
qed

section \<open>Properties\<close>

text \<open>
  C30. The UDP port from end to end. With the buffer used up, a datagram is received whole
  and handed out byte by byte; a peer that is not yet known becomes the one messages are
  sent to, and stays it while others send.
\<close>

theorem udp_datagram_path:
  assumes "heap w a = Some (Udp u)" and "udp_open a w" and "\<not> udp_terminate u"
    and "os_recvfrom os (udp_fd u) BUFFER_BYTES (sys w) = (Some (bs, peer), s)"
    and "bs \<noteq> []" and "length bs \<le> BUFFER_BYTES"
  shows "\<exists>w1 w2 u1. udp_server_pass os a w = Inr (None, w1)
    \<and> read_n (udp_has_more os) (udp_read_byte os) (Some a) (length bs) w1 = Inr (bs, w2)
    \<and> heap w1 a = Some (Udp u1) \<and> udp_has_client u1
    \<and> udp_clt_addr u1 = (if udp_has_client u then udp_clt_addr u else peer)"
proof -
  have wf: "rx_wf (udp_rx u)" "udp_initialized u" "length (udp_output u) = BUFFER_BYTES"
    using assms(1,2) by (auto simp: udp_open_iff)
  obtain rx where rx: "rx_fill (udp_rx u) bs = Inr rx" "rx_wf rx" "rx_unread rx = bs"
    using rx_fill_ok [OF wf(1) assms(6)] by blast
  let ?u1 = "(if \<not> udp_has_client u then u\<lparr>udp_has_client := True, udp_clt_addr := peer\<rparr> else u)\<lparr>udp_rx := rx\<rparr>"
  let ?w1 = "heap_put a (Udp ?u1) (w\<lparr>sys := s\<rparr>)"
  have pass: "udp_server_pass os a w = Inr (None, ?w1)"
    using assms rx by (simp add: udp_server_pass_def sys_step_def Let_def)
  have "udp_open a ?w1" "udp_pending a ?w1 = bs"
    using wf rx by (simp_all add: udp_open_iff udp_pending_def udp_buffer_def)
  then obtain w2 where "read_n (udp_has_more os) (udp_read_byte os) (Some a) (length bs) ?w1 = Inr (bs, w2)"
    using udp_src.drained [of a ?w1 os] by auto
  with pass show ?thesis by auto
qed

definition demo_udp :: "unit udp_socket" where
  "demo_udp = \<lparr>udp_initialized = True, udp_port = 14551, udp_fd = 4, udp_terminate = False, udp_thread = True,
     udp_has_client = False, udp_clt_addr = (), udp_rx = demo_rx, udp_output = replicate BUFFER_BYTES 0\<rparr>"

theorem udp_datagram_path_witness:
  "\<exists>w1 w2. udp_server_pass demo_os 7 (demo_world [(7, Udp demo_udp)] [[8, 9]]) = Inr (None, w1)
    \<and> read_n (udp_has_more demo_os) (udp_read_byte demo_os) (Some 7) 2 w1 = Inr ([8, 9], w2)"
proof -
  let ?w = "demo_world [(7, Udp demo_udp)] [[8, 9]]"
  have 1: "heap ?w 7 = Some (Udp demo_udp)" by (simp add: demo_world_def)
  have 2: "udp_open 7 ?w"
    by (simp add: udp_open_iff 1) (simp add: demo_udp_def demo_rx_def rx_wf_def)
  have 3: "\<not> udp_terminate demo_udp" by (simp add: demo_udp_def)
  have 4: "os_recvfrom demo_os (udp_fd demo_udp) BUFFER_BYTES (sys ?w) = (Some ([8, 9], ()), ([], [], 100))"
    by (simp add: demo_os_def demo_receive_def demo_world_def)
  from udp_datagram_path [OF 1 2 3 4] show ?thesis
    by (auto simp: BUFFER_BYTES_def numeral_2_eq_2)
qed

end
