(* ===== verification/Source_Tcp.thy ===== *)
theory Source_Tcp
  imports Devices
begin

text \<open>
  The listening TCP port of \<^verbatim>\<open>lib/source_tcp.c\<close>, in its two variants: with a thread that
  accepts and receives (\<open>_mt\<close>, what the hook installs where C11 threads exist), and without
  threads, where \<^verbatim>\<open>has_more\<close> itself receives. The lemmas show the contract of the first and
  what a closed connection does to the second.
\<close>

section \<open>Listening and accepting\<close>

definition tcp_state_init :: "tcp_socket \<Rightarrow> tcp_socket" where
  "tcp_state_init t = t\<lparr>tcp_thread := False, tcp_terminate := False,
     tcp_rx := (tcp_rx t)\<lparr>cur_read := 0, buffer_size := 0\<rparr>, tcp_connection := -1\<rparr>"

definition tcp_listen_to ::
  "('a, 'o) os \<Rightarrow> tcp_socket \<Rightarrow> ('a, 'o) world \<Rightarrow> int \<times> tcp_socket \<times> ('a, 'o) world" where
  "tcp_listen_to os t w =
     (let (fd, w1) = sys_step (socket_stream os) w;
          t1 = t\<lparr>tcp_fd := fd\<rparr>
      in if fd = -1 then (error_code SEC_GATEWAY_IO_FAULT, t1, w1)
         else let (reuse, w2) = sys_step (set_reuseaddr os fd) w1
              in if \<not> reuse then (error_code SEC_GATEWAY_IO_FAULT, t1, w2)
                 else let (bound, w3) = sys_step (os_bind os fd (tcp_port t1)) w2
                      in if \<not> bound then (error_code SEC_GATEWAY_IO_FAULT, t1, w3)
                         else let (listening, w4) = sys_step (os_listen os fd) w3
                              in (if listening then error_code SUCC else error_code SEC_GATEWAY_IO_FAULT, t1, w4))"

definition tcp_accept_client ::
  "('a, 'o) os \<Rightarrow> tcp_socket \<Rightarrow> ('a, 'o) world \<Rightarrow> int \<times> tcp_socket \<times> ('a, 'o) world" where
  "tcp_accept_client os t w =
     (let (c, w1) = sys_step (os_accept os (tcp_fd t)) w
      in (if c = -1 then error_code SEC_GATEWAY_IO_FAULT else error_code SUCC, t\<lparr>tcp_connection := c\<rparr>, w1))"

definition tcp_init :: "('a, 'o) os \<Rightarrow> nat \<Rightarrow> ('a, 'o) world \<Rightarrow> (int \<times> ('a, 'o) world) res" where
  "tcp_init os a w =
     bind_res (as_tcp (heap w a)) (\<lambda>t.
       if tcp_initialized t then Inr (error_code SUCC, w)
       else let (rv, t1, w1) = tcp_listen_to os (tcp_state_init t) w
            in if rv \<noteq> error_code SUCC then Inr (rv, heap_put a (Tcp t1) w1)
               else let (rv2, t2, w2) = tcp_accept_client os t1 w1
                    in if rv2 \<noteq> error_code SUCC then Inr (rv2, heap_put a (Tcp t2) w2)
                       else Inr (error_code SUCC, heap_put a (Tcp (t2\<lparr>tcp_initialized := True\<rparr>)) w2))"

definition tcp_init_mt :: "('a, 'o) os \<Rightarrow> nat \<Rightarrow> ('a, 'o) world \<Rightarrow> (int \<times> ('a, 'o) world) res" where
  "tcp_init_mt os a w =
     bind_res (as_tcp (heap w a)) (\<lambda>t.
       if tcp_initialized t then Inr (error_code SUCC, w)
       else let (rv, t1, w1) = tcp_listen_to os (tcp_state_init t) w
            in if rv \<noteq> error_code SUCC then Inr (rv, heap_put a (Tcp t1) w1)
               else let (created, w2) = sys_step (thrd_create os a) w1
                    in if \<not> created then Inr (error_code SEC_GATEWAY_THREAD_ERROR, heap_put a (Tcp t1) w2)
                       else Inr (error_code SUCC,
                              heap_put a (Tcp (t1\<lparr>tcp_thread := True, tcp_initialized := True\<rparr>)) w2))"

text \<open>Called with the port in place of the struct, as for the other devices.\<close>

fun tcp_init_cb :: "('a, 'o) os \<Rightarrow> ('a, 'o) world init_t" where
  "tcp_init_cb os (Device_Obj a) w = tcp_init os a w"
| "tcp_init_cb os (Source_Obj flag) w = (if flag then Inr (error_code SUCC, w) else Inl Type_Confusion)"
| "tcp_init_cb os (Sink_Obj flag) w = (if flag then Inr (error_code SUCC, w) else Inl Type_Confusion)"

fun tcp_init_mt_cb :: "('a, 'o) os \<Rightarrow> ('a, 'o) world init_t" where
  "tcp_init_mt_cb os (Device_Obj a) w = tcp_init_mt os a w"
| "tcp_init_mt_cb os (Source_Obj flag) w = (if flag then Inr (error_code SUCC, w) else Inl Type_Confusion)"
| "tcp_init_mt_cb os (Sink_Obj flag) w = (if flag then Inr (error_code SUCC, w) else Inl Type_Confusion)"

definition tcp_cleanup :: "('a, 'o) os \<Rightarrow> nat \<Rightarrow> ('a, 'o) world \<Rightarrow> ('a, 'o) world res" where
  "tcp_cleanup os a w =
     bind_res (as_tcp (heap w a)) (\<lambda>t.
       let w1 = heap_put a (Tcp (t\<lparr>tcp_initialized := False, tcp_terminate := True\<rparr>)) w;
           w2 = (if tcp_thread t then sys_do (thrd_join os a) w1 else w1);
           w3 = (if tcp_fd t \<noteq> -1 then sys_do (os_close os (tcp_fd t)) w2 else w2);
           w4 = (if tcp_connection t \<noteq> -1 then sys_do (os_close os (tcp_connection t)) w3 else w3)
       in Inr (heap_free a w4))"

fun tcp_cleanup_cb :: "('a, 'o) os \<Rightarrow> ('a, 'o) world cleanup_t" where
  "tcp_cleanup_cb os (Device_Obj a) w = tcp_cleanup os a w"
| "tcp_cleanup_cb os _ w = Inl Type_Confusion"

section \<open>The receiving thread\<close>

definition tcp_receive ::
  "('a, 'o) os \<Rightarrow> nat \<Rightarrow> tcp_socket \<Rightarrow> ('a, 'o) world \<Rightarrow> (int option \<times> ('a, 'o) world) res" where
  "tcp_receive os a t w =
     (let (r, w1) = sys_step (os_recv os (tcp_connection t) BUFFER_BYTES) w;
          closed = heap_put a (Tcp (t\<lparr>tcp_connection := -1\<rparr>)) (sys_do (os_close os (tcp_connection t)) w1)
      in case r of
           None \<Rightarrow> Inr (None, closed)
         | Some bs \<Rightarrow>
             if bs = [] then Inr (None, closed)
             else bind_res (rx_fill (tcp_rx t) bs) (\<lambda>rx. Inr (None, heap_put a (Tcp (t\<lparr>tcp_rx := rx\<rparr>)) w1)))"

definition tcp_server_pass ::
  "('a, 'o) os \<Rightarrow> nat \<Rightarrow> ('a, 'o) world \<Rightarrow> (int option \<times> ('a, 'o) world) res" where
  "tcp_server_pass os a w =
     bind_res (as_tcp (heap w a)) (\<lambda>t.
       if tcp_terminate t then Inr (Some (error_code SUCC), w)
       else if tcp_connection t = -1
       then let (rv, t1, w1) = tcp_accept_client os t w
            in if rv \<noteq> error_code SUCC then Inr (None, heap_put a (Tcp t1) w1)
               else tcp_receive os a t1 w1
       else tcp_receive os a t w)"

section \<open>The source\<close>

text \<open>Without threads: the buffer is refilled here, and 1 is returned whatever \<^verbatim>\<open>recv\<close> gave.\<close>

definition tcp_poll ::
  "('a, 'o) os \<Rightarrow> nat \<Rightarrow> tcp_socket \<Rightarrow> ('a, 'o) world \<Rightarrow> (int \<times> ('a, 'o) world) res" where
  "tcp_poll os a t w =
     (if rx_has_data (tcp_rx t) then Inr (1, w)
      else let (r, w1) = sys_step (os_recv os (tcp_connection t) BUFFER_BYTES) w
           in case r of
                None \<Rightarrow> Inr (0, heap_put a (Tcp (t\<lparr>tcp_rx := (tcp_rx t)\<lparr>buffer_size := -1\<rparr>\<rparr>)) w1)
              | Some bs \<Rightarrow> bind_res (rx_fill (tcp_rx t) bs) (\<lambda>rx.
                  Inr (1, heap_put a (Tcp (t\<lparr>tcp_rx := rx\<rparr>)) w1)))"

definition tcp_has_more :: "('a, 'o) os \<Rightarrow> ('a, 'o) world has_more_t" where
  "tcp_has_more os opq w =
     (case opq of
        None \<Rightarrow> Inl Assert_Failed
      | Some a \<Rightarrow>
          bind_res (as_tcp (heap w a)) (\<lambda>t.
          bind_res (if tcp_initialized t then Inr (error_code SUCC, w) else tcp_init os a w) (\<lambda>(rv, w1).
            if rv \<noteq> error_code SUCC then Inr (0, w1)
            else bind_res (as_tcp (heap w1 a)) (\<lambda>t1. tcp_poll os a t1 w1))))"

definition tcp_has_more_mt :: "('a, 'o) os \<Rightarrow> ('a, 'o) world has_more_t" where
  "tcp_has_more_mt os opq w =
     (case opq of
        None \<Rightarrow> Inl Assert_Failed
      | Some a \<Rightarrow>
          bind_res (as_tcp (heap w a)) (\<lambda>t.
          bind_res (if tcp_initialized t then Inr (error_code SUCC, w) else tcp_init_mt os a w) (\<lambda>(rv, w1).
            if rv \<noteq> error_code SUCC then Inr (0, w1)
            else bind_res (as_tcp (heap w1 a)) (\<lambda>t1.
                 if rx_has_data (tcp_rx t1) then Inr (1, w1)
                 else Inr (0, sys_do (cnd_signal os a) w1)))))"

definition tcp_read_byte :: "('a, 'o) os \<Rightarrow> ('a, 'o) world read_byte_t" where
  "tcp_read_byte os opq w =
     (case opq of
        None \<Rightarrow> Inl Assert_Failed
      | Some a \<Rightarrow>
          bind_res (as_tcp (heap w a)) (\<lambda>t.
            assert_that (tcp_initialized t)
             (if buffer_size (tcp_rx t) \<le> cur_read (tcp_rx t)
              then Inr (0, heap_put a (Tcp (t\<lparr>tcp_rx := (tcp_rx t)\<lparr>cur_read := 0, buffer_size := 0\<rparr>\<rparr>)) w)
              else bind_res (rx_take (tcp_rx t)) (\<lambda>(byte, rx).
                   Inr (byte, heap_put a (Tcp (t\<lparr>tcp_rx := rx\<rparr>)) w)))))"

definition tcp_read_byte_mt :: "('a, 'o) os \<Rightarrow> ('a, 'o) world read_byte_t" where
  "tcp_read_byte_mt os opq w =
     (case opq of
        None \<Rightarrow> Inl Assert_Failed
      | Some a \<Rightarrow>
          bind_res (as_tcp (heap w a)) (\<lambda>t.
            assert_that (tcp_initialized t)
             (if buffer_size (tcp_rx t) \<le> cur_read (tcp_rx t)
              then Inr (0, sys_do (cnd_signal os a) w)
              else bind_res (rx_take (tcp_rx t)) (\<lambda>(byte, rx).
                   Inr (byte, heap_put a (Tcp (t\<lparr>tcp_rx := rx\<rparr>)) w)))))"

section \<open>The sink\<close>

text \<open>
  Without threads the route sends the message struct as it lies in memory, \<open>raw\<close>, cut to the
  length of the encoded message, and compares the bytes sent with the payload's length.
\<close>

definition tcp_route_to ::
  "('x, 's, 'c) mavlink_lib \<Rightarrow> ('x mavlink_message \<Rightarrow> u8 list) \<Rightarrow> ('a, 'o) os \<Rightarrow> (('a, 'o) world, 'x, 's) route_t" where
  "tcp_route_to lib raw os opq m w =
     (case opq of
        None \<Rightarrow> Inl Assert_Failed
      | Some a \<Rightarrow>
          bind_res (as_tcp (heap w a)) (\<lambda>t.
          bind_res (if tcp_initialized t then Inr (error_code SUCC, w) else tcp_init os a w) (\<lambda>(rv, w1).
            if rv \<noteq> 0 then Inr (error_code SEC_GATEWAY_IO_FAULT, w1)
            else bind_res (as_tcp (heap w1 a)) (\<lambda>t1.
                 let frame = take (mavlink_msg_length lib (msg m)) (raw (msg m));
                     (sent, w2) = sys_step (os_send os (tcp_connection t1) frame) w1
                 in Inr (if sent < 0 \<or> sent < int (unat (len (msg m)))
                         then error_code SEC_GATEWAY_IO_FAULT else error_code SUCC, w2)))))"

definition tcp_route_to_mt ::
  "('x, 's, 'c) mavlink_lib \<Rightarrow> ('a, 'o) os \<Rightarrow> (('a, 'o) world, 'x, 's) route_t" where
  "tcp_route_to_mt lib os opq m w =
     (case opq of
        None \<Rightarrow> Inl Assert_Failed
      | Some a \<Rightarrow>
          bind_res (as_tcp (heap w a)) (\<lambda>t.
          bind_res (if tcp_initialized t then Inr (error_code SUCC, w) else tcp_init_mt os a w) (\<lambda>(rv, w1).
            if rv \<noteq> 0 then Inr (error_code SEC_GATEWAY_IO_FAULT, w1)
            else bind_res (as_tcp (heap w1 a)) (\<lambda>t1.
                 if tcp_connection t1 = -1 then Inr (error_code SUCC, w1)
                 else let frame = mavlink_msg_to_send_buffer lib (msg m)
                      in bind_res (write_front (tcp_output t1) frame) (\<lambda>out.
                         let (sent, w2) = sys_step (os_send os (tcp_connection t1) frame)
                                            (heap_put a (Tcp (t1\<lparr>tcp_output := out\<rparr>)) w1)
                         in Inr (if sent < 0 \<or> sent < int (length frame)
                                 then error_code SEC_GATEWAY_IO_FAULT else error_code SUCC, w2))))))"

section \<open>The hook\<close>

definition hook_tcp ::
  "bool \<Rightarrow> ('x, 's, 'c) mavlink_lib \<Rightarrow> ('x mavlink_message \<Rightarrow> u8 list) \<Rightarrow> ('a, 'o) os \<Rightarrow> tcp_socket
     \<Rightarrow> int \<Rightarrow> nat \<Rightarrow> nat \<Rightarrow> (('a, 'o) world, 'x, 's) pipeline_t \<Rightarrow> ('a, 'o) world
     \<Rightarrow> (int \<times> (('a, 'o) world, 'x, 's) pipeline_t \<times> ('a, 'o) world) res" where
  "hook_tcp no_threads lib raw os garbage port source_id sink_type p w =
     (let (r, w1) = sys_step (malloc os) w
      in case r of
           None \<Rightarrow> Inr (error_code SEC_GATEWAY_NO_MEMORY, p, w1)
         | Some a \<Rightarrow>
             let w2 = heap_put a (Tcp (garbage\<lparr>tcp_port := port, tcp_initialized := False\<rparr>)) w1;
                 init = (if no_threads then tcp_init_cb os else tcp_init_mt_cb os)
             in bind_res (source_allocate p source_id (\<lambda>src. src\<lparr>src_opaque := Some a,
                    src_has_more := Some (if no_threads then tcp_has_more os else tcp_has_more_mt os),
                    src_read_byte := Some (if no_threads then tcp_read_byte os else tcp_read_byte_mt os),
                    src_init := Some init, src_cleanup := Some (tcp_cleanup_cb os)\<rparr>)) (\<lambda>p1.
                bind_res (sink_allocate p1 sink_type (\<lambda>snk. snk\<lparr>snk_opaque := Some a,
                    snk_route := Some (if no_threads then tcp_route_to lib raw os else tcp_route_to_mt lib os),
                    snk_init := Some init, snk_cleanup := Some (tcp_cleanup_cb os)\<rparr>)) (\<lambda>p2.
                  Inr (error_code SUCC, p2, w2))))"

section \<open>The open port as a source of bytes\<close>

definition tcp_buffer :: "nat \<Rightarrow> ('a, 'o) world \<Rightarrow> rx_buffer option" where
  "tcp_buffer a w = (case as_tcp (heap w a) of Inl _ \<Rightarrow> None
     | Inr t \<Rightarrow> if tcp_initialized t \<and> rx_wf (tcp_rx t) \<and> length (tcp_output t) = BUFFER_BYTES then Some (tcp_rx t) else None)"

definition tcp_open :: "nat \<Rightarrow> ('a, 'o) world \<Rightarrow> bool" where
  "tcp_open a w \<longleftrightarrow> tcp_buffer a w \<noteq> None"

definition tcp_pending :: "nat \<Rightarrow> ('a, 'o) world \<Rightarrow> u8 list" where
  "tcp_pending a w = buffer_bytes (tcp_buffer a w)"

lemma tcp_buffer_iff:
  "tcp_buffer a w = Some rx \<longleftrightarrow> (\<exists>t. heap w a = Some (Tcp t) \<and> tcp_initialized t \<and> rx_wf (tcp_rx t)
     \<and> length (tcp_output t) = BUFFER_BYTES \<and> rx = tcp_rx t)"
  by (cases "as_tcp (heap w a)") (auto simp: tcp_buffer_def res_simps)

lemma tcp_open_iff:
  "tcp_open a w \<longleftrightarrow> (\<exists>t. heap w a = Some (Tcp t) \<and> tcp_initialized t \<and> rx_wf (tcp_rx t)
     \<and> length (tcp_output t) = BUFFER_BYTES)"
  using tcp_buffer_iff [of a w] by (auto simp: tcp_open_def)

interpretation tcp_rx: rx_port "tcp_has_more_mt os" "tcp_read_byte_mt os" tcp_buffer
  for os :: "('a, 'o) os"
proof unfold_locales
  fix a rx and w w' :: "('a, 'o) world"
  show "tcp_buffer a w = Some rx \<Longrightarrow>
      \<exists>w'. tcp_has_more_mt os (Some a) w = Inr (if rx_has_data rx then 1 else 0, w') \<and> heap w' = heap w"
    by (cases "rx_has_data rx") (auto simp: tcp_has_more_mt_def tcp_buffer_iff)
  show "tcp_buffer a w = Some rx \<Longrightarrow> rx_wf rx" by (auto simp: tcp_buffer_iff)
  show "heap w' a = heap w a \<Longrightarrow> tcp_buffer a w' = tcp_buffer a w" by (simp add: tcp_buffer_def)
next
  fix a rx rx' b and w :: "('a, 'o) world"
  assume "tcp_buffer a w = Some rx" "rx_has_data rx" "rx_take rx = Inr (b, rx')" "rx_wf rx'"
  then show "\<exists>w'. tcp_read_byte_mt os (Some a) w = Inr (b, w') \<and> tcp_buffer a w' = Some rx' \<and> (\<forall>c. c \<noteq> a \<longrightarrow> heap w' c = heap w c)"
    by (auto simp: tcp_buffer_iff tcp_read_byte_mt_def rx_has_data_def)
qed

interpretation tcp_src: byte_source "tcp_has_more_mt os" "tcp_read_byte_mt os" "Some a" "tcp_open a" "tcp_pending a"
  for os :: "('a, 'o) os" and a
  using tcp_rx.source_alone [of os a] by (simp add: tcp_open_def [abs_def] tcp_pending_def [abs_def])

interpretation tcp_net: network_port "tcp_has_more_mt os" "tcp_read_byte_mt os" tcp_buffer "tcp_route_to_mt lib os" "frame_fits lib"
  for os :: "('a, 'o) os" and lib :: "('x, 's, 'c) mavlink_lib"
proof unfold_locales
  fix a rx m and w :: "('a, 'o) world"
  assume "tcp_buffer a w = Some rx" and fits: "frame_fits lib m"
  then obtain t where t: "heap w a = Some (Tcp t)" "tcp_initialized t" "rx_wf (tcp_rx t)"
      "length (tcp_output t) = BUFFER_BYTES" "rx = tcp_rx t" by (auto simp: tcp_buffer_iff)
  show "\<exists>v w'. tcp_route_to_mt lib os (Some a) m w = Inr (v, w') \<and> tcp_buffer a w' = Some rx
      \<and> (\<forall>c. c \<noteq> a \<longrightarrow> heap w' c = heap w c)"
  proof (cases "tcp_connection t \<noteq> -1")
    case True
    obtain n s where "os_send os (tcp_connection t) (mavlink_msg_to_send_buffer lib (msg m)) (sys w) = (n, s)" by (rule prod.exhaust)
    with True t fits show ?thesis by (simp add: tcp_route_to_mt_def frame_fits_def tcp_buffer_iff sys_step_def Let_def)
  next
    case False
    with t show ?thesis by (simp add: tcp_route_to_mt_def tcp_buffer_iff)
  qed
qed

section \<open>Errors of the variant without threads\<close>

text \<open>
  The calls \<^verbatim>\<open>has_more\<close> makes, as the system sees them: on an open port with nothing unread
  a \<^verbatim>\<open>recv\<close>, on one that is not open the five calls that open it and then a \<^verbatim>\<open>recv\<close>. Each is
  made only if those before it succeed; \<open>calls_fail\<close> says that one of them reports an error.
\<close>

definition recv_fails :: "('a, 'o) os \<Rightarrow> int \<Rightarrow> 'o \<Rightarrow> bool" where
  "recv_fails os fd s \<longleftrightarrow> fst (os_recv os fd BUFFER_BYTES s) = None"

definition opening_fails :: "('a, 'o) os \<Rightarrow> int \<Rightarrow> 'o \<Rightarrow> bool" where
  "opening_fails os port s \<longleftrightarrow>
     (let (fd, s1) = socket_stream os s in fd = -1 \<or>
     (let (reuse, s2) = set_reuseaddr os fd s1 in \<not> reuse \<or>
     (let (bound, s3) = os_bind os fd port s2 in \<not> bound \<or>
     (let (listening, s4) = os_listen os fd s3 in \<not> listening \<or>
     (let (c, s5) = os_accept os fd s4 in c = -1 \<or> recv_fails os c s5)))))"

definition calls_fail :: "('a, 'o) os \<Rightarrow> tcp_socket \<Rightarrow> 'o \<Rightarrow> bool" where
  "calls_fail os t s \<longleftrightarrow>
     (if tcp_initialized t then \<not> rx_has_data (tcp_rx t) \<and> recv_fails os (tcp_connection t) s
      else opening_fails os (tcp_port t) s)"

lemma tcp_poll_zero_iff:
  "(\<exists>w'. tcp_poll os a t w = Inr (0, w')) \<longleftrightarrow> \<not> rx_has_data (tcp_rx t) \<and> recv_fails os (tcp_connection t) (sys w)"
proof -
  obtain r s where r: "os_recv os (tcp_connection t) BUFFER_BYTES (sys w) = (r, s)" by (rule prod.exhaust)
  show ?thesis
  proof (cases r)
    case None
    with r show ?thesis by (simp add: tcp_poll_def sys_step_def recv_fails_def)
  next
    case (Some bs)
    with r show ?thesis by (cases "rx_fill (tcp_rx t) bs") (simp_all add: tcp_poll_def sys_step_def recv_fails_def)
  qed
qed

lemma tcp_opening_zero_iff:
  assumes "heap w a = Some (Tcp t)" "\<not> tcp_initialized t"
  shows "(\<exists>w'. tcp_has_more os (Some a) w = Inr (0, w')) \<longleftrightarrow> opening_fails os (tcp_port t) (sys w)"
proof -
  obtain fd s1 where 1: "socket_stream os (sys w) = (fd, s1)" by (rule prod.exhaust)
  obtain reuse s2 where 2: "set_reuseaddr os fd s1 = (reuse, s2)" by (rule prod.exhaust)
  obtain bound s3 where 3: "os_bind os fd (tcp_port t) s2 = (bound, s3)" by (rule prod.exhaust)
  obtain listening s4 where 4: "os_listen os fd s3 = (listening, s4)" by (rule prod.exhaust)
  obtain c s5 where 5: "os_accept os fd s4 = (c, s5)" by (rule prod.exhaust)
  let ?t1 = "(tcp_state_init t)\<lparr>tcp_fd := fd\<rparr>"
  let ?t2 = "?t1\<lparr>tcp_connection := c, tcp_initialized := True\<rparr>"
  have idle: "\<not> rx_has_data (tcp_rx ?t2)" by (simp add: tcp_state_init_def rx_has_data_def)
  have state: "tcp_port (tcp_state_init t) = tcp_port t" by (simp add: tcp_state_init_def)
  note steps = assms 1 2 3 4 5 state tcp_has_more_def tcp_init_def tcp_listen_to_def tcp_accept_client_def sys_step_def
    opening_fails_def Let_def
  show ?thesis
  proof (cases "fd \<noteq> -1 \<and> reuse \<and> bound \<and> listening \<and> c \<noteq> -1")
    case True
    then have "tcp_has_more os (Some a) w = tcp_poll os a ?t2 (heap_put a (Tcp ?t2) (w\<lparr>sys := s5\<rparr>))"
      by (simp add: steps)
    with True idle tcp_poll_zero_iff [of os a ?t2] show ?thesis by (simp add: steps)
  next
    case False
    then show ?thesis by (auto simp: steps)
  qed
qed

lemma tcp_has_more_zero_iff:
  assumes "heap w a = Some (Tcp t)"
  shows "(\<exists>w'. tcp_has_more os (Some a) w = Inr (0, w')) \<longleftrightarrow> calls_fail os t (sys w)"
proof (cases "tcp_initialized t")
  case True
  with assms tcp_poll_zero_iff [of os a t w] show ?thesis by (simp add: tcp_has_more_def calls_fail_def)
next
  case False
  with tcp_opening_zero_iff [OF assms False] show ?thesis by (simp add: calls_fail_def)
qed

section \<open>Properties\<close>



text \<open>
  Losing the client. When the peer closes the connection, or receiving fails, the
  thread closes its end and forgets it; until the next client is accepted every message
  for the port is dropped, unsent, and reported as sent; the next pass accepts a client
  and receives from it.
\<close>

lemma tcp_client_lost:
  assumes "heap w a = Some (Tcp t)" and "tcp_initialized t" and "\<not> tcp_terminate t" and "tcp_connection t \<noteq> -1"
    and "os_recv os (tcp_connection t) BUFFER_BYTES (sys w) = (r, s)" and "r = None \<or> r = Some []"
  shows "\<exists>w1. tcp_server_pass os a w = Inr (None, w1)
    \<and> heap w1 a = Some (Tcp (t\<lparr>tcp_connection := -1\<rparr>)) \<and> sys w1 = os_close os (tcp_connection t) s
    \<and> tcp_route_to_mt lib os (Some a) m w1 = Inr (error_code SUCC, w1)
    \<and> (\<forall>c s2. os_accept os (tcp_fd t) (sys w1) = (c, s2) \<longrightarrow> c \<noteq> -1 \<longrightarrow>
         tcp_server_pass os a w1 = tcp_receive os a (t\<lparr>tcp_connection := c\<rparr>) (w1\<lparr>sys := s2\<rparr>))"
proof -
  let ?w1 = "heap_put a (Tcp (t\<lparr>tcp_connection := -1\<rparr>))
      (sys_do (os_close os (tcp_connection t)) (w\<lparr>sys := s\<rparr>))"
  have "tcp_server_pass os a w = Inr (None, ?w1)"
    using assms by (auto simp: tcp_server_pass_def tcp_receive_def sys_step_def)
  moreover have "tcp_route_to_mt lib os (Some a) m ?w1 = Inr (error_code SUCC, ?w1)"
    using assms(2) by (simp add: tcp_route_to_mt_def)
  moreover have "tcp_server_pass os a ?w1 = tcp_receive os a (t\<lparr>tcp_connection := c\<rparr>) (?w1\<lparr>sys := s2\<rparr>)"
    if "os_accept os (tcp_fd t) (sys ?w1) = (c, s2)" "c \<noteq> -1" for c s2
    using that assms(3) by (simp add: tcp_server_pass_def tcp_accept_client_def sys_step_def)
  ultimately show ?thesis by (intro exI [of _ ?w1]) simp
qed

definition demo_tcp :: tcp_socket where
  "demo_tcp = \<lparr>tcp_initialized = True, tcp_port = 12001, tcp_fd = 5, tcp_connection = 6, tcp_terminate = False,
     tcp_thread = True, tcp_rx = demo_rx, tcp_output = replicate BUFFER_BYTES 0\<rparr>"

end
