(* ===== verification/Source_Tcpout.thy ===== *)
theory Source_Tcpout
  imports Devices
begin

text \<open>
  The outgoing TCP port of \<^verbatim>\<open>lib/source_tcpout.c\<close>: a thread connects to the server, again
  and again until it succeeds, and receives; the main thread reads the shared buffer and
  sends. The pass of the thread is up to its wait for the main thread, as for UDP.
\<close>

section \<open>Connecting and receiving\<close>

definition tcpout_state_init :: "tcpout_socket \<Rightarrow> tcpout_socket" where
  "tcpout_state_init t = t\<lparr>tcpout_thread := False, tcpout_terminate := False,
     tcpout_rx := (tcpout_rx t)\<lparr>cur_read := 0, buffer_size := 0\<rparr>, tcpout_fd := -1\<rparr>"

definition tcpout_connect_to ::
  "('a, 'o) os \<Rightarrow> tcpout_socket \<Rightarrow> ('a, 'o) world \<Rightarrow> int \<times> tcpout_socket \<times> ('a, 'o) world" where
  "tcpout_connect_to os t w =
     (let (fd, w1) = sys_step (socket_stream os) w;
          t1 = t\<lparr>tcpout_fd := fd\<rparr>
      in if fd = -1 then (error_code SEC_GATEWAY_IO_FAULT, t1, w1)
         else let (reuse, w2) = sys_step (set_reuseaddr os fd) w1
              in if \<not> reuse then (error_code SEC_GATEWAY_IO_FAULT, t1, w2)
                 else if \<not> inet_pton os (tcpout_ip t1) then (error_code SEC_GATEWAY_IO_FAULT, t1, w2)
                 else let (connected, w3) = sys_step (os_connect os fd (tcpout_ip t1) (tcpout_port t1)) w2
                      in (if connected then error_code SUCC else error_code SEC_GATEWAY_IO_FAULT, t1, w3))"

definition tcpout_receive ::
  "('a, 'o) os \<Rightarrow> nat \<Rightarrow> tcpout_socket \<Rightarrow> ('a, 'o) world \<Rightarrow> (int option \<times> ('a, 'o) world) res" where
  "tcpout_receive os a t w =
     (let (r, w1) = sys_step (os_recv os (tcpout_fd t) BUFFER_BYTES) w
      in case r of
           None \<Rightarrow> Inr (None, heap_put a (Tcpout (t\<lparr>tcpout_fd := -1\<rparr>)) (sys_do (os_close os (tcpout_fd t)) w1))
         | Some bs \<Rightarrow>
             if bs = [] then Inr (None, heap_put a (Tcpout (t\<lparr>tcpout_fd := -1\<rparr>)) (sys_do (os_close os (tcpout_fd t)) w1))
             else bind_res (rx_fill (tcpout_rx t) bs) (\<lambda>rx. Inr (None, heap_put a (Tcpout (t\<lparr>tcpout_rx := rx\<rparr>)) w1)))"

definition tcpout_server_pass ::
  "('a, 'o) os \<Rightarrow> nat \<Rightarrow> ('a, 'o) world \<Rightarrow> (int option \<times> ('a, 'o) world) res" where
  "tcpout_server_pass os a w =
     bind_res (as_tcpout (heap w a)) (\<lambda>t.
       if tcpout_terminate t then Inr (Some (error_code SUCC), w)
       else if tcpout_fd t = -1
       then let (rv, t1, w1) = tcpout_connect_to os t w
            in if rv \<noteq> error_code SUCC then Inr (None, heap_put a (Tcpout t1) w1)
               else tcpout_receive os a t1 w1
       else tcpout_receive os a t w)"

section \<open>Initialisation and cleanup\<close>

definition tcpout_init :: "('a, 'o) os \<Rightarrow> nat \<Rightarrow> ('a, 'o) world \<Rightarrow> (int \<times> ('a, 'o) world) res" where
  "tcpout_init os a w =
     bind_res (as_tcpout (heap w a)) (\<lambda>t.
       if tcpout_initialized t then Inr (error_code SUCC, w)
       else let t1 = tcpout_state_init t;
                (created, w1) = sys_step (thrd_create os a) w
            in if \<not> created then Inr (error_code SEC_GATEWAY_THREAD_ERROR, heap_put a (Tcpout t1) w1)
               else Inr (error_code SUCC,
                      heap_put a (Tcpout (t1\<lparr>tcpout_thread := True, tcpout_initialized := True\<rparr>)) w1))"

fun tcpout_init_cb :: "('a, 'o) os \<Rightarrow> ('a, 'o) world init_t" where
  "tcpout_init_cb os (Device_Obj a) w = tcpout_init os a w"
| "tcpout_init_cb os (Source_Obj flag) w = (if flag then Inr (error_code SUCC, w) else Inl Type_Confusion)"
| "tcpout_init_cb os (Sink_Obj flag) w = (if flag then Inr (error_code SUCC, w) else Inl Type_Confusion)"

definition tcpout_cleanup :: "('a, 'o) os \<Rightarrow> nat \<Rightarrow> ('a, 'o) world \<Rightarrow> ('a, 'o) world res" where
  "tcpout_cleanup os a w =
     bind_res (as_tcpout (heap w a)) (\<lambda>t.
       let w1 = heap_put a (Tcpout (t\<lparr>tcpout_initialized := False, tcpout_terminate := True\<rparr>)) w;
           w2 = (if tcpout_thread t then sys_do (thrd_join os a) w1 else w1);
           w3 = (if tcpout_fd t \<noteq> -1 then sys_do (os_close os (tcpout_fd t)) w2 else w2)
       in Inr (heap_free a w3))"

fun tcpout_cleanup_cb :: "('a, 'o) os \<Rightarrow> ('a, 'o) world cleanup_t" where
  "tcpout_cleanup_cb os (Device_Obj a) w = tcpout_cleanup os a w"
| "tcpout_cleanup_cb os _ w = Inl Type_Confusion"

section \<open>The source and the sink\<close>

definition tcpout_has_more :: "('a, 'o) os \<Rightarrow> ('a, 'o) world has_more_t" where
  "tcpout_has_more os opq w =
     (case opq of
        None \<Rightarrow> Inl Assert_Failed
      | Some a \<Rightarrow>
          bind_res (as_tcpout (heap w a)) (\<lambda>t.
          bind_res (if tcpout_initialized t then Inr (error_code SUCC, w) else tcpout_init os a w) (\<lambda>(rv, w1).
            if rv \<noteq> error_code SUCC then Inr (0, w1)
            else bind_res (as_tcpout (heap w1 a)) (\<lambda>t1.
                 if rx_has_data (tcpout_rx t1) then Inr (1, w1)
                 else Inr (0, sys_do (cnd_signal os a) w1)))))"

definition tcpout_read_byte :: "('a, 'o) os \<Rightarrow> ('a, 'o) world read_byte_t" where
  "tcpout_read_byte os opq w =
     (case opq of
        None \<Rightarrow> Inl Assert_Failed
      | Some a \<Rightarrow>
          bind_res (as_tcpout (heap w a)) (\<lambda>t.
            assert_that (tcpout_initialized t)
             (if buffer_size (tcpout_rx t) \<le> cur_read (tcpout_rx t)
              then Inr (0, sys_do (cnd_signal os a) w)
              else bind_res (rx_take (tcpout_rx t)) (\<lambda>(byte, rx).
                   Inr (byte, heap_put a (Tcpout (t\<lparr>tcpout_rx := rx\<rparr>)) w)))))"

text \<open>Without a connection the message is dropped and the route reports success.\<close>

definition tcpout_route_to ::
  "('x, 's, 'c) mavlink_lib \<Rightarrow> ('a, 'o) os \<Rightarrow> (('a, 'o) world, 'x, 's) route_t" where
  "tcpout_route_to lib os opq m w =
     (case opq of
        None \<Rightarrow> Inl Assert_Failed
      | Some a \<Rightarrow>
          bind_res (as_tcpout (heap w a)) (\<lambda>t.
          bind_res (if tcpout_initialized t then Inr (error_code SUCC, w) else tcpout_init os a w) (\<lambda>(rv, w1).
            if rv \<noteq> 0 then Inr (error_code SEC_GATEWAY_IO_FAULT, w1)
            else bind_res (as_tcpout (heap w1 a)) (\<lambda>t1.
                 if tcpout_fd t1 = -1 then Inr (error_code SUCC, w1)
                 else let frame = mavlink_msg_to_send_buffer lib (msg m)
                      in bind_res (write_front (tcpout_output t1) frame) (\<lambda>out.
                         let (sent, w2) = sys_step (os_send os (tcpout_fd t1) frame)
                                            (heap_put a (Tcpout (t1\<lparr>tcpout_output := out\<rparr>)) w1)
                         in Inr (if sent < 0 \<or> sent < int (length frame)
                                 then error_code SEC_GATEWAY_IO_FAULT else error_code SUCC, w2))))))"

text \<open>
  \<^verbatim>\<open>strncpy\<close> fills the 16 bytes of the address; a name of 16 characters or more is cut and
  not terminated.
\<close>

definition hook_tcpout ::
  "('x, 's, 'c) mavlink_lib \<Rightarrow> ('a, 'o) os \<Rightarrow> tcpout_socket \<Rightarrow> string \<Rightarrow> int \<Rightarrow> nat \<Rightarrow> nat
     \<Rightarrow> (('a, 'o) world, 'x, 's) pipeline_t \<Rightarrow> ('a, 'o) world
     \<Rightarrow> (int \<times> (('a, 'o) world, 'x, 's) pipeline_t \<times> ('a, 'o) world) res" where
  "hook_tcpout lib os garbage ip port source_id sink_type p w =
     (let (r, w1) = sys_step (malloc os) w
      in case r of
           None \<Rightarrow> Inr (error_code SEC_GATEWAY_NO_MEMORY, p, w1)
         | Some a \<Rightarrow>
             let w2 = heap_put a (Tcpout (garbage\<lparr>tcpout_ip := take 16 ip, tcpout_port := port,
                        tcpout_initialized := False\<rparr>)) w1
             in bind_res (source_allocate p source_id (\<lambda>src. src\<lparr>src_opaque := Some a,
                    src_has_more := Some (tcpout_has_more os), src_read_byte := Some (tcpout_read_byte os),
                    src_init := Some (tcpout_init_cb os), src_cleanup := Some (tcpout_cleanup_cb os)\<rparr>)) (\<lambda>p1.
                bind_res (sink_allocate p1 sink_type (\<lambda>snk. snk\<lparr>snk_opaque := Some a,
                    snk_route := Some (tcpout_route_to lib os), snk_init := Some (tcpout_init_cb os),
                    snk_cleanup := Some (tcpout_cleanup_cb os)\<rparr>)) (\<lambda>p2.
                  Inr (error_code SUCC, p2, w2))))"

section \<open>The open port as a source of bytes\<close>

definition tcpout_buffer :: "nat \<Rightarrow> ('a, 'o) world \<Rightarrow> rx_buffer option" where
  "tcpout_buffer a w = (case as_tcpout (heap w a) of Inl _ \<Rightarrow> None
     | Inr t \<Rightarrow> if tcpout_initialized t \<and> rx_wf (tcpout_rx t) \<and> length (tcpout_output t) = BUFFER_BYTES then Some (tcpout_rx t) else None)"

definition tcpout_open :: "nat \<Rightarrow> ('a, 'o) world \<Rightarrow> bool" where
  "tcpout_open a w \<longleftrightarrow> tcpout_buffer a w \<noteq> None"

definition tcpout_pending :: "nat \<Rightarrow> ('a, 'o) world \<Rightarrow> u8 list" where
  "tcpout_pending a w = buffer_bytes (tcpout_buffer a w)"

lemma tcpout_buffer_iff:
  "tcpout_buffer a w = Some rx \<longleftrightarrow> (\<exists>t. heap w a = Some (Tcpout t) \<and> tcpout_initialized t \<and> rx_wf (tcpout_rx t)
     \<and> length (tcpout_output t) = BUFFER_BYTES \<and> rx = tcpout_rx t)"
  by (cases "as_tcpout (heap w a)") (auto simp: tcpout_buffer_def res_simps)

lemma tcpout_open_iff:
  "tcpout_open a w \<longleftrightarrow> (\<exists>t. heap w a = Some (Tcpout t) \<and> tcpout_initialized t \<and> rx_wf (tcpout_rx t)
     \<and> length (tcpout_output t) = BUFFER_BYTES)"
  using tcpout_buffer_iff [of a w] by (auto simp: tcpout_open_def)

interpretation tcpout_rx: rx_port "tcpout_has_more os" "tcpout_read_byte os" tcpout_buffer
  for os :: "('a, 'o) os"
proof unfold_locales
  fix a rx and w w' :: "('a, 'o) world"
  show "tcpout_buffer a w = Some rx \<Longrightarrow>
      \<exists>w'. tcpout_has_more os (Some a) w = Inr (if rx_has_data rx then 1 else 0, w') \<and> heap w' = heap w"
    by (cases "rx_has_data rx") (auto simp: tcpout_has_more_def tcpout_buffer_iff)
  show "tcpout_buffer a w = Some rx \<Longrightarrow> rx_wf rx" by (auto simp: tcpout_buffer_iff)
  show "heap w' a = heap w a \<Longrightarrow> tcpout_buffer a w' = tcpout_buffer a w" by (simp add: tcpout_buffer_def)
next
  fix a rx rx' b and w :: "('a, 'o) world"
  assume "tcpout_buffer a w = Some rx" "rx_has_data rx" "rx_take rx = Inr (b, rx')" "rx_wf rx'"
  then show "\<exists>w'. tcpout_read_byte os (Some a) w = Inr (b, w') \<and> tcpout_buffer a w' = Some rx' \<and> (\<forall>c. c \<noteq> a \<longrightarrow> heap w' c = heap w c)"
    by (auto simp: tcpout_buffer_iff tcpout_read_byte_def rx_has_data_def)
qed

interpretation tcpout_src: byte_source "tcpout_has_more os" "tcpout_read_byte os" "Some a" "tcpout_open a" "tcpout_pending a"
  for os :: "('a, 'o) os" and a
  using tcpout_rx.source_alone [of os a] by (simp add: tcpout_open_def [abs_def] tcpout_pending_def [abs_def])

interpretation tcpout_net: network_port "tcpout_has_more os" "tcpout_read_byte os" tcpout_buffer "tcpout_route_to lib os" "frame_fits lib"
  for os :: "('a, 'o) os" and lib :: "('x, 's, 'c) mavlink_lib"
proof unfold_locales
  fix a rx m and w :: "('a, 'o) world"
  assume "tcpout_buffer a w = Some rx" and fits: "frame_fits lib m"
  then obtain t where t: "heap w a = Some (Tcpout t)" "tcpout_initialized t" "rx_wf (tcpout_rx t)"
      "length (tcpout_output t) = BUFFER_BYTES" "rx = tcpout_rx t" by (auto simp: tcpout_buffer_iff)
  show "\<exists>v w'. tcpout_route_to lib os (Some a) m w = Inr (v, w') \<and> tcpout_buffer a w' = Some rx
      \<and> (\<forall>c. c \<noteq> a \<longrightarrow> heap w' c = heap w c)"
  proof (cases "tcpout_fd t \<noteq> -1")
    case True
    obtain n s where "os_send os (tcpout_fd t) (mavlink_msg_to_send_buffer lib (msg m)) (sys w) = (n, s)" by (rule prod.exhaust)
    with True t fits show ?thesis by (simp add: tcpout_route_to_def frame_fits_def tcpout_buffer_iff sys_step_def Let_def)
  next
    case False
    with t show ?thesis by (simp add: tcpout_route_to_def tcpout_buffer_iff)
  qed
qed

section \<open>Properties\<close>

text \<open>
  C31. A failed connection attempt is not retried as one. The struct keeps the descriptor
  of the socket whose connection was refused, so the thread's next pass does not connect
  again but receives on the unconnected socket; only when that fails too, which closes
  it, does a later pass open a new one.
\<close>

theorem tcpout_failed_connect:
  assumes "heap w a = Some (Tcpout t)" and "\<not> tcpout_terminate t" and "tcpout_fd t = -1"
    and "socket_stream os (sys w) = (fd, s1)" and "fd \<noteq> -1"
    and "set_reuseaddr os fd s1 = (True, s2)" and "inet_pton os (tcpout_ip t)"
    and "os_connect os fd (tcpout_ip t) (tcpout_port t) s2 = (False, s3)"
    and "os_recv os fd BUFFER_BYTES s3 = (None, s4)"
  shows "\<exists>w1 w2. tcpout_server_pass os a w = Inr (None, w1)
    \<and> heap w1 a = Some (Tcpout (t\<lparr>tcpout_fd := fd\<rparr>)) \<and> sys w1 = s3
    \<and> tcpout_server_pass os a w1 = Inr (None, w2)
    \<and> heap w2 a = Some (Tcpout t) \<and> sys w2 = os_close os fd s4"
proof -
  let ?w1 = "heap_put a (Tcpout (t\<lparr>tcpout_fd := fd\<rparr>)) (w\<lparr>sys := s3\<rparr>)"
  have "tcpout_server_pass os a w = Inr (None, ?w1)"
    using assms by (simp add: tcpout_server_pass_def tcpout_connect_to_def sys_step_def)
  moreover have "\<exists>w2. tcpout_server_pass os a ?w1 = Inr (None, w2)
      \<and> heap w2 a = Some (Tcpout (t\<lparr>tcpout_fd := -1\<rparr>)) \<and> sys w2 = os_close os fd s4"
    using assms by (simp add: tcpout_server_pass_def tcpout_receive_def sys_step_def)
  moreover have "t\<lparr>tcpout_fd := -1\<rparr> = t" using assms(3) by (cases t) simp
  ultimately show ?thesis by auto
qed

definition demo_tcpout :: tcpout_socket where
  "demo_tcpout = \<lparr>tcpout_initialized = True, tcpout_ip = ''127.0.0.1'', tcpout_port = 5760, tcpout_fd = -1,
     tcpout_terminate = False, tcpout_thread = True, tcpout_rx = demo_rx, tcpout_output = replicate BUFFER_BYTES 0\<rparr>"

theorem tcpout_failed_connect_witness:
  "\<exists>w1. tcpout_server_pass (demo_os\<lparr>os_connect := \<lambda>fd ip port s. (False, s)\<rparr>) 7
      (demo_world [(7, Tcpout demo_tcpout)] []) = Inr (None, w1)
    \<and> heap w1 7 = Some (Tcpout (demo_tcpout\<lparr>tcpout_fd := 5\<rparr>))"
proof -
  let ?os = "demo_os\<lparr>os_connect := \<lambda>fd ip port s. (False, s)\<rparr>"
  let ?w = "demo_world [(7, Tcpout demo_tcpout)] []"
  let ?s = "([], [], 100) :: demo_sys"
  have "heap ?w 7 = Some (Tcpout demo_tcpout)" "\<not> tcpout_terminate demo_tcpout" "tcpout_fd demo_tcpout = -1"
    "socket_stream ?os (sys ?w) = (5, ?s)" "(5 :: int) \<noteq> -1" "set_reuseaddr ?os 5 ?s = (True, ?s)"
    "inet_pton ?os (tcpout_ip demo_tcpout)"
    "os_connect ?os 5 (tcpout_ip demo_tcpout) (tcpout_port demo_tcpout) ?s = (False, ?s)"
    "os_recv ?os 5 BUFFER_BYTES ?s = (None, ?s)"
    by (simp_all add: demo_world_def demo_tcpout_def demo_os_def demo_receive_def)
  from tcpout_failed_connect [OF this] show ?thesis by blast
qed

end
