(* ===== verification/Certikos_Devices.thy ===== *)
theory Certikos_Devices
  imports Pipeline_Spin Devices
begin

text \<open>
  The devices behind the ports of the CertiKOS build. Their structs are static variables,
  so the world holds one of each, and the address of a struct is a constant. The calls of
  CertiKOS, of its publish-subscribe service (\<^verbatim>\<open>partee\<close>) and of \<^verbatim>\<open>thinros\<close> are not part of the
  repository; they are one record of functions on the system's state \<open>'o\<close>.

  The three sources keep a block of received bytes, a length and a read position. What
  they share is \<open>inbox\<close>; lengths and positions are \<^verbatim>\<open>size_t\<close>, here 64 bits.
\<close>

section \<open>A received block\<close>

record inbox =
  in_data :: "u8 list"
  in_len :: u64
  in_cur :: u64

definition inbox_has_data :: "inbox \<Rightarrow> bool" where
  "inbox_has_data ib \<longleftrightarrow> 0 < in_len ib \<and> in_cur ib < in_len ib"

definition inbox_next :: "inbox \<Rightarrow> (u8 \<times> inbox) res" where
  "inbox_next ib = bind_res (arr_get (in_data ib) (unat (in_cur ib)))
     (\<lambda>b. Inr (b, ib\<lparr>in_cur := in_cur ib + 1\<rparr>))"

text \<open>A call that stores bytes in the block and returns a length.\<close>

definition inbox_receive :: "u64 \<times> u8 list \<Rightarrow> inbox \<Rightarrow> inbox res" where
  "inbox_receive r ib = bind_res (write_front (in_data ib) (snd r))
     (\<lambda>d. Inr \<lparr>in_data = d, in_len = fst r, in_cur = 0\<rparr>)"

definition inbox_wf :: "nat \<Rightarrow> inbox \<Rightarrow> bool" where
  "inbox_wf n ib \<longleftrightarrow> length (in_data ib) = n \<and> unat (in_len ib) \<le> n"

definition inbox_unread :: "inbox \<Rightarrow> u8 list" where
  "inbox_unread ib = drop (unat (in_cur ib)) (take (unat (in_len ib)) (in_data ib))"

lemma inbox_has_data_iff:
  "inbox_wf n ib \<Longrightarrow> inbox_has_data ib \<longleftrightarrow> inbox_unread ib \<noteq> []"
  by (auto simp: inbox_has_data_def inbox_unread_def inbox_wf_def word_less_nat_alt)

lemma unat_u64_less: "unat (w :: u64) < 18446744073709551616"
  using unsigned_less [of w] by simp

lemma inbox_next_ok:
  assumes "inbox_wf n ib" "inbox_unread ib = b # bs"
  shows "\<exists>ib'. inbox_next ib = Inr (b, ib') \<and> inbox_wf n ib' \<and> inbox_unread ib' = bs"
proof -
  let ?xs = "take (unat (in_len ib)) (in_data ib)"
  have lt: "unat (in_cur ib) < unat (in_len ib)" "unat (in_cur ib) < length ?xs"
    using assms by (auto simp: inbox_unread_def inbox_wf_def dest: arg_cong [where f = length])
  from Cons_nth_drop_Suc [OF lt(2)] assms(2)
  have "in_data ib ! unat (in_cur ib) = b" "drop (Suc (unat (in_cur ib))) ?xs = bs"
    using lt by (simp_all add: inbox_unread_def)
  moreover have "unat (in_cur ib + 1) = Suc (unat (in_cur ib))"
    using lt(1) unat_u64_less [of "in_len ib"] by (simp add: unat_word_ariths)
  ultimately show ?thesis
    using assms(1) lt by (simp add: inbox_next_def inbox_wf_def inbox_unread_def)
qed

section \<open>A system that delivers\<close>

text \<open>
  The documented behaviour of a receiving call: it stores the first bytes of what the
  peer will send, \<open>line\<close>, at most \<open>n\<close> of them, and returns their number; it returns 0 only
  when there is nothing.
\<close>

definition delivers :: "('o \<Rightarrow> (u64 \<times> u8 list) \<times> 'o) \<Rightarrow> nat \<Rightarrow> ('o \<Rightarrow> u8 list) \<Rightarrow> bool" where
  "delivers f n line \<longleftrightarrow> (\<forall>s. \<exists>bs s'. f s = ((of_nat (length bs), bs), s') \<and> length bs \<le> n
     \<and> line s = bs @ line s' \<and> (bs = [] \<longrightarrow> line s = []))"

lemma inbox_receive_ok:
  assumes "delivers f n line" "inbox_wf n ib" "n < 2 ^ 64" "f s = (r, s')"
  shows "\<exists>ib'. inbox_receive r ib = Inr ib' \<and> inbox_wf n ib' \<and> inbox_unread ib' @ line s' = line s
    \<and> (inbox_has_data ib' \<longleftrightarrow> line s \<noteq> []) \<and> (0 < in_len ib' \<longleftrightarrow> line s \<noteq> [])"
proof -
  obtain bs where bs: "r = (of_nat (length bs), bs)" "length bs \<le> n" "line s = bs @ line s'"
      "bs = [] \<longrightarrow> line s = []"
    using assms(1,4) by (auto simp: delivers_def dest!: spec [of _ s])
  have "unat (of_nat (length bs) :: u64) = length bs"
    using bs(2) assms(3) by (simp add: unat_of_nat)
  with bs assms(2) show ?thesis
    by (auto simp: inbox_receive_def inbox_wf_def inbox_unread_def inbox_has_data_def word_less_nat_alt)
qed

section \<open>A port that hands out such blocks\<close>

text \<open>
  \<open>get\<close> and \<open>put\<close> are the block of a port in its world, \<open>live\<close> says that the port is
  initialised. Nothing is assumed about the lengths.
\<close>

locale inbox_port =
  fixes has_more :: "'w has_more_t"
    and read_byte :: "'w read_byte_t"
    and opq :: "nat option"
    and get :: "'w \<Rightarrow> inbox"
    and put :: "inbox \<Rightarrow> 'w \<Rightarrow> 'w"
    and live :: "'w \<Rightarrow> bool"
  assumes has_more_data: "live w \<Longrightarrow> inbox_has_data (get w) \<Longrightarrow> has_more opq w = Inr (1, w)"
    and read_byte_data: "live w \<Longrightarrow> inbox_has_data (get w) \<Longrightarrow>
      read_byte opq w = bind_res (inbox_next (get w)) (\<lambda>(b, ib). Inr (b, put ib w))"
    and get_put: "get (put ib w) = ib"
    and live_put: "live w \<Longrightarrow> live (put ib w)"
begin

text \<open>A length beyond the block lets the reader run out of it.\<close>

lemma overread:
  assumes "live w" and "length (in_data (get w)) < unat (in_len (get w))"
    and "unat (in_cur (get w)) \<le> length (in_data (get w))"
  shows "read_n has_more read_byte opq (Suc (length (in_data (get w)) - unat (in_cur (get w)))) w = Inl Out_Of_Bounds"
  using assms
proof (induction "length (in_data (get w)) - unat (in_cur (get w))" arbitrary: w)
  case 0
  then have "inbox_has_data (get w)" by (auto simp: inbox_has_data_def word_less_nat_alt)
  with 0 show ?case
    by (simp add: has_more_data read_byte_data inbox_next_def)
next
  case (Suc n)
  let ?ib = "get w" and ?ib' = "(get w)\<lparr>in_cur := in_cur (get w) + 1\<rparr>"
  have lt: "unat (in_cur ?ib) < length (in_data ?ib)" using Suc.hyps(2) by simp
  have data: "inbox_has_data ?ib" using Suc.prems(2) lt by (auto simp: inbox_has_data_def word_less_nat_alt)
  have cur: "unat (in_cur ?ib + 1) = Suc (unat (in_cur ?ib))"
    using lt Suc.prems(2) unat_u64_less [of "in_len ?ib"] by (simp add: unat_word_ariths)
  have "read_n has_more read_byte opq (Suc (length (in_data ?ib) - Suc (unat (in_cur ?ib)))) (put ?ib' w)
      = Inl Out_Of_Bounds"
    using Suc.hyps(1) [of "put ?ib' w"] Suc.hyps(2) Suc.prems lt cur by (simp add: get_put live_put)
  moreover have "length (in_data ?ib) - unat (in_cur ?ib) = Suc (length (in_data ?ib) - Suc (unat (in_cur ?ib)))"
    using lt by simp
  ultimately show ?case
    using Suc.prems(1) data lt by (simp add: has_more_data read_byte_data inbox_next_def del: read_n.simps(2))
       (simp add: has_more_data read_byte_data inbox_next_def)
qed

end

text \<open>With a system that delivers \<open>line\<close>, the port is a source of bytes.\<close>

locale inbox_source = inbox_port has_more read_byte opq get put live
  for has_more :: "'w has_more_t" and read_byte and opq and get and put and live +
  fixes size_of_block :: nat
    and line :: "'w \<Rightarrow> u8 list"
    and ok :: "'w \<Rightarrow> bool"
  assumes ok_live: "ok w \<Longrightarrow> live w \<and> inbox_wf size_of_block (get w)"
    and ok_put: "ok w \<Longrightarrow> inbox_wf size_of_block ib \<Longrightarrow> ok (put ib w)"
    and line_put: "line (put ib w) = line w"
    and refill: "ok w \<Longrightarrow> \<not> inbox_has_data (get w) \<Longrightarrow> \<exists>v w'. has_more opq w = Inr (v, w') \<and> ok w'
      \<and> inbox_unread (get w') @ line w' = line w \<and> (v = 0 \<longleftrightarrow> line w = [])
      \<and> (inbox_has_data (get w') \<longleftrightarrow> line w \<noteq> [])"
begin

lemma asked:
  assumes "ok w"
  shows "\<exists>v w'. has_more opq w = Inr (v, w') \<and> ok w'
    \<and> inbox_unread (get w') @ line w' = inbox_unread (get w) @ line w
    \<and> (v = 0 \<longleftrightarrow> inbox_unread (get w) @ line w = []) \<and> (v \<noteq> 0 \<longrightarrow> inbox_has_data (get w'))"
proof (cases "inbox_has_data (get w)")
  case True
  with assms ok_live [OF assms] has_more_data show ?thesis by (auto simp: inbox_has_data_iff)
next
  case False
  then have "inbox_unread (get w) = []" using inbox_has_data_iff ok_live [OF assms] by blast
  with refill [OF assms False] show ?thesis by auto
qed

lemma taken:
  assumes "ok w" "inbox_has_data (get w)" "inbox_unread (get w) @ line w = b # bs"
  shows "\<exists>w'. read_byte opq w = Inr (b, w') \<and> ok w' \<and> inbox_unread (get w') @ line w' = bs"
proof -
  have wf: "inbox_wf size_of_block (get w)" "live w" using ok_live [OF assms(1)] by auto
  then obtain xs where xs: "inbox_unread (get w) = b # xs" "bs = xs @ line w"
    using assms inbox_has_data_iff [OF wf(1)] by (auto simp: append_eq_Cons_conv)
  obtain ib where ib: "inbox_next (get w) = Inr (b, ib)" "inbox_wf size_of_block ib" "inbox_unread ib = xs"
    using inbox_next_ok [OF wf(1) xs(1)] by blast
  then have "ok (put ib w)" using ok_put [OF assms(1)] by blast
  then show ?thesis
    using ib xs(2) wf(2) assms(2) by (intro exI [of _ "put ib w"]) (simp add: read_byte_data get_put line_put)
qed

end

sublocale inbox_source \<subseteq> bytes: byte_source has_more read_byte opq ok "\<lambda>w. inbox_unread (get w) @ line w"
proof unfold_locales
  fix w w1 b bs v
  assume w: "ok w" "inbox_unread (get w) @ line w = b # bs" "has_more opq w = Inr (v, w1)"
  then have "ok w1" "inbox_has_data (get w1)" "inbox_unread (get w1) @ line w1 = b # bs"
    using asked [OF w(1)] by auto
  then show "\<exists>w'. read_byte opq w1 = Inr (b, w') \<and> ok w' \<and> inbox_unread (get w') @ line w' = bs"
    by (rule taken)
qed (use asked in blast)

section \<open>The structs\<close>

record certikos_uart_socket =
  cu_initialized :: bool
  cu_dev :: u64
  cu_stream :: int
  cu_inbox :: inbox
  cu_output :: "u8 list"

record partee_socket =
  pt_initialized :: bool
  pt_publisher :: "nat option"
  pt_subscriber :: "nat option"
  pt_inbox :: inbox

text \<open>\<open>tr_output\<close> is \<^verbatim>\<open>output_msg\<close>: its length and its data.\<close>

record thinros_socket =
  tr_initialized :: bool
  tr_sub_topic :: string
  tr_pub_topic :: string
  tr_node_name :: string
  tr_publisher :: "int option"
  tr_inbox :: inbox
  tr_output :: "u64 \<times> u8 list"

section \<open>The world\<close>

record 'o cworld =
  uart_static :: certikos_uart_socket
  partee_static :: partee_socket
  thinros_static :: thinros_socket
  csys :: 'o

definition ADDR_certikos_uart :: nat where "ADDR_certikos_uart = 1"
definition ADDR_partee :: nat where "ADDR_partee = 2"
definition ADDR_thinros :: nat where "ADDR_thinros = 3"

text \<open>A port's \<^verbatim>\<open>opaque\<close> must not be null and must be the struct it is cast to.\<close>

definition static_at :: "nat \<Rightarrow> nat option \<Rightarrow> 'a \<Rightarrow> 'a res" where
  "static_at addr opq x =
     (case opq of None \<Rightarrow> Inl Assert_Failed | Some a \<Rightarrow> if a = addr then Inr x else Inl Type_Confusion)"

lemma static_at_simps [simp]:
  "static_at addr None x = Inl Assert_Failed" "static_at addr (Some addr) x = Inr x"
  by (simp_all add: static_at_def)

section \<open>The system\<close>

text \<open>
  \<^verbatim>\<open>reads\<close> and \<^verbatim>\<open>partee_topic_read\<close> return what they say is the length, and store bytes.
  \<^verbatim>\<open>partee_msg_alloc\<close> gives a slot, as the bytes it holds, or fails. \<^verbatim>\<open>ros_spin_one_message\<close>
  hands the callback at most one message: the length it states and its bytes.
\<close>

record 'o certikos =
  sys_device_control :: "u64 \<Rightarrow> int \<Rightarrow> 'o \<Rightarrow> int \<times> 'o"
  reads :: "int \<Rightarrow> nat \<Rightarrow> 'o \<Rightarrow> (u64 \<times> u8 list) \<times> 'o"
  writes :: "int \<Rightarrow> u8 list \<Rightarrow> 'o \<Rightarrow> 'o"
  partee_create_publisher :: "string \<Rightarrow> nat \<Rightarrow> 'o \<Rightarrow> nat option \<times> 'o"
  partee_create_subscription :: "string \<Rightarrow> nat \<Rightarrow> 'o \<Rightarrow> nat option \<times> 'o"
  partee_msg_alloc :: "nat option \<Rightarrow> 'o \<Rightarrow> u8 list option \<times> 'o"
  partee_topic_publish :: "nat option \<Rightarrow> u8 list \<Rightarrow> 'o \<Rightarrow> 'o"
  partee_topic_read :: "nat option \<Rightarrow> 'o \<Rightarrow> (u64 \<times> u8 list) \<times> 'o"
  ros_node :: "string \<Rightarrow> 'o \<Rightarrow> 'o"
  ros_advertise :: "string \<Rightarrow> 'o \<Rightarrow> int option \<times> 'o"
  ros_subscribe :: "string \<Rightarrow> 'o \<Rightarrow> 'o"
  ros_start :: "'o \<Rightarrow> 'o"
  ros_publish :: "int option \<Rightarrow> u64 \<times> u8 list \<Rightarrow> 'o \<Rightarrow> 'o"
  ros_spin_one_message :: "'o \<Rightarrow> (u64 \<times> u8 list) option \<times> 'o"

section \<open>A concrete system, for witnesses\<close>

text \<open>Its state: the bytes still to arrive and what was sent. The calls give them in blocks of \<open>n\<close>.\<close>

type_synonym demo_csys = "u8 list \<times> u8 list list"

definition demo_read :: "nat \<Rightarrow> demo_csys \<Rightarrow> (u64 \<times> u8 list) \<times> demo_csys" where
  "demo_read n s = (case s of (bs, out) \<Rightarrow> ((of_nat (length (take n bs)), take n bs), (drop n bs, out)))"

definition demo_certikos :: "demo_csys certikos" where
  "demo_certikos = \<lparr>
     sys_device_control = (\<lambda>dev stream s. (1, s)),
     reads = (\<lambda>stream n. demo_read n), writes = (\<lambda>stream bs (cs, out). (cs, out @ [bs])),
     partee_create_publisher = (\<lambda>topic n s. (Some 1, s)), partee_create_subscription = (\<lambda>topic n s. (Some 2, s)),
     partee_msg_alloc = (\<lambda>p s. (Some (replicate 280 0), s)),
     partee_topic_publish = (\<lambda>p bs (cs, out). (cs, out @ [bs])), partee_topic_read = (\<lambda>p. demo_read 2),
     ros_node = (\<lambda>name s. s), ros_advertise = (\<lambda>topic s. (Some 1, s)), ros_subscribe = (\<lambda>topic s. s),
     ros_start = (\<lambda>s. s), ros_publish = (\<lambda>p m (cs, out). (cs, out @ [snd m])),
     ros_spin_one_message = (\<lambda>s. if fst s = [] then (None, s) else (let (r, s') = demo_read 1 s in (Some r, s')))\<rparr>"

definition demo_inbox :: "nat \<Rightarrow> inbox" where
  "demo_inbox n = \<lparr>in_data = replicate n 0, in_len = 0, in_cur = 0\<rparr>"

definition demo_cworld :: "u8 list \<Rightarrow> demo_csys cworld" where
  "demo_cworld arrivals = \<lparr>
     uart_static = \<lparr>cu_initialized = True, cu_dev = 1, cu_stream = 1, cu_inbox = demo_inbox BUFFER_BYTES,
       cu_output = replicate 280 0\<rparr>,
     partee_static = \<lparr>pt_initialized = True, pt_publisher = Some 1, pt_subscriber = Some 2,
       pt_inbox = demo_inbox 280\<rparr>,
     thinros_static = \<lparr>tr_initialized = True, tr_sub_topic = ''in'', tr_pub_topic = ''out'',
       tr_node_name = ''mavlink_gateway'', tr_publisher = Some 1, tr_inbox = demo_inbox 280,
       tr_output = (0, replicate 280 0)\<rparr>,
     csys = (arrivals, [])\<rparr>"

lemma demo_inbox_wf: "inbox_wf n (demo_inbox n)" "inbox_unread (demo_inbox n) = []"
    "\<not> inbox_has_data (demo_inbox n)"
  by (simp_all add: inbox_wf_def demo_inbox_def inbox_unread_def inbox_has_data_def)

lemma demo_read_delivers: "0 < k \<Longrightarrow> k \<le> n \<Longrightarrow> delivers (demo_read k) n fst"
  unfolding delivers_def
proof (intro allI)
  fix s :: demo_csys
  assume "0 < k" "k \<le> n"
  then show "\<exists>bs s'. demo_read k s = ((of_nat (length bs), bs), s') \<and> length bs \<le> n
      \<and> fst s = bs @ fst s' \<and> (bs = [] \<longrightarrow> fst s = [])"
    by (intro exI [of _ "take k (fst s)"] exI [of _ "(drop k (fst s), snd s)"])
       (auto simp: demo_read_def split: prod.splits)
qed

end
