(* ===== verification/Source_Certikos_Uart.thy ===== *)
theory Source_Certikos_Uart
  imports Certikos_Devices
begin

text \<open>
  The serial port of the CertiKOS build, \<^verbatim>\<open>lib/source_certikos_uart.c\<close>: a non-blocking
  console stream read in blocks of up to 4096 bytes.
\<close>

definition certikos_uart_socket_init ::
  "'o certikos \<Rightarrow> certikos_uart_socket \<Rightarrow> 'o \<Rightarrow> int \<times> certikos_uart_socket \<times> 'o" where
  "certikos_uart_socket_init ck u s =
     (if cu_initialized u then (error_code SUCC, u, s)
      else let u1 = u\<lparr>cu_inbox := (cu_inbox u)\<lparr>in_cur := 0, in_len := 0\<rparr>\<rparr>;
               (stream, s1) = sys_device_control ck (cu_dev u) (cu_stream u) s
           in (error_code SUCC, u1\<lparr>cu_stream := stream, cu_initialized := True\<rparr>, s1))"

text \<open>The operations open the device first if that has not been done.\<close>

definition certikos_uart_open_first ::
  "'o certikos \<Rightarrow> 'o cworld \<Rightarrow> certikos_uart_socket \<times> 'o cworld" where
  "certikos_uart_open_first ck w =
     (if cu_initialized (uart_static w) = False
      then let (_, u, s) = certikos_uart_socket_init ck (uart_static w) (csys w)
           in (u, w\<lparr>uart_static := u, csys := s\<rparr>)
      else (uart_static w, w))"

fun certikos_uart_init_cb :: "'o certikos \<Rightarrow> 'o cworld init_t" where
  "certikos_uart_init_cb ck (Device_Obj a) w =
     bind_res (static_at ADDR_certikos_uart (Some a) (uart_static w)) (\<lambda>u.
       let (rv, u1, s) = certikos_uart_socket_init ck u (csys w) in Inr (rv, w\<lparr>uart_static := u1, csys := s\<rparr>))"
| "certikos_uart_init_cb ck (Source_Obj flag) w = (if flag then Inr (error_code SUCC, w) else Inl Type_Confusion)"
| "certikos_uart_init_cb ck (Sink_Obj flag) w = (if flag then Inr (error_code SUCC, w) else Inl Type_Confusion)"

definition certikos_uart_socket_deinit :: "'o cworld cleanup_t" where
  "certikos_uart_socket_deinit x w = Inr w"

definition certikos_uart_route_to ::
  "('x, 's, 'c) mavlink_lib \<Rightarrow> 'o certikos \<Rightarrow> ('o cworld, 'x, 's) route_t" where
  "certikos_uart_route_to lib ck opq m w =
     bind_res (static_at ADDR_certikos_uart opq ()) (\<lambda>_.
       let (u, w1) = certikos_uart_open_first ck w;
           frame = mavlink_msg_to_send_buffer lib (msg m)
       in bind_res (write_front (cu_output u) frame) (\<lambda>out.
          assert_that (length frame \<le> MAVLINK_MAX_PACKET_LEN lib)
            (Inr (error_code SUCC, w1\<lparr>uart_static := u\<lparr>cu_output := out\<rparr>,
               csys := writes ck (cu_stream u) frame (csys w1)\<rparr>))))"

definition certikos_uart_has_more :: "'o certikos \<Rightarrow> 'o cworld has_more_t" where
  "certikos_uart_has_more ck opq w =
     bind_res (static_at ADDR_certikos_uart opq ()) (\<lambda>_.
       let (u, w1) = certikos_uart_open_first ck w
       in if inbox_has_data (cu_inbox u) then Inr (1, w1)
          else let (r, s) = reads ck (cu_stream u) BUFFER_BYTES (csys w1)
               in bind_res (inbox_receive r (cu_inbox u)) (\<lambda>ib.
                    Inr (if 0 < in_len ib then 1 else 0, w1\<lparr>uart_static := u\<lparr>cu_inbox := ib\<rparr>, csys := s\<rparr>)))"

definition certikos_uart_read_byte :: "'o certikos \<Rightarrow> 'o cworld read_byte_t" where
  "certikos_uart_read_byte ck opq w =
     bind_res (static_at ADDR_certikos_uart opq ()) (\<lambda>_.
       let (u, w1) = certikos_uart_open_first ck w
       in if inbox_has_data (cu_inbox u)
          then bind_res (inbox_next (cu_inbox u)) (\<lambda>(b, ib). Inr (b, w1\<lparr>uart_static := u\<lparr>cu_inbox := ib\<rparr>\<rparr>))
          else Inr (0, w1))"

definition hook_certikos_uart ::
  "('x, 's, 'c) mavlink_lib \<Rightarrow> 'o certikos \<Rightarrow> u64 \<Rightarrow> nat \<Rightarrow> nat \<Rightarrow> ('o cworld, 'x, 's) pipeline_t \<Rightarrow> 'o cworld
     \<Rightarrow> (int \<times> ('o cworld, 'x, 's) pipeline_t \<times> 'o cworld) res" where
  "hook_certikos_uart lib ck dev source_id sink_type p w =
     bind_res (source_allocate p source_id (\<lambda>src. src\<lparr>src_opaque := Some ADDR_certikos_uart,
         src_init := Some (certikos_uart_init_cb ck), src_cleanup := Some certikos_uart_socket_deinit,
         src_has_more := Some (certikos_uart_has_more ck), src_read_byte := Some (certikos_uart_read_byte ck)\<rparr>))
       (\<lambda>p1.
     bind_res (sink_allocate p1 sink_type (\<lambda>snk. snk\<lparr>snk_opaque := Some ADDR_certikos_uart,
         snk_init := Some (certikos_uart_init_cb ck), snk_cleanup := Some certikos_uart_socket_deinit,
         snk_route := Some (certikos_uart_route_to lib ck)\<rparr>)) (\<lambda>p2.
       Inr (error_code SUCC, p2, w\<lparr>uart_static := (uart_static w)\<lparr>cu_dev := dev\<rparr>\<rparr>)))"

section \<open>The open port as a source of bytes\<close>

definition uart_get :: "'o cworld \<Rightarrow> inbox" where
  "uart_get w = cu_inbox (uart_static w)"

definition uart_put :: "inbox \<Rightarrow> 'o cworld \<Rightarrow> 'o cworld" where
  "uart_put ib w = w\<lparr>uart_static := (uart_static w)\<lparr>cu_inbox := ib\<rparr>\<rparr>"

definition uart_live :: "'o cworld \<Rightarrow> bool" where
  "uart_live w \<longleftrightarrow> cu_initialized (uart_static w)"

text \<open>\<open>line\<close> is what the stream will still deliver.\<close>

definition uart_ready :: "'o certikos \<Rightarrow> ('o \<Rightarrow> u8 list) \<Rightarrow> 'o cworld \<Rightarrow> bool" where
  "uart_ready ck line w \<longleftrightarrow> uart_live w \<and> inbox_wf BUFFER_BYTES (uart_get w)
     \<and> delivers (reads ck (cu_stream (uart_static w)) BUFFER_BYTES) BUFFER_BYTES line"

lemmas certikos_uart_defs = certikos_uart_has_more_def certikos_uart_read_byte_def certikos_uart_open_first_def
  uart_get_def uart_put_def uart_live_def

interpretation certikos_uart: inbox_port "certikos_uart_has_more ck" "certikos_uart_read_byte ck"
  "Some ADDR_certikos_uart" uart_get uart_put uart_live
  for ck :: "'o certikos"
  by unfold_locales (simp_all add: certikos_uart_defs)

interpretation certikos_uart_src: inbox_source "certikos_uart_has_more ck" "certikos_uart_read_byte ck"
  "Some ADDR_certikos_uart" uart_get uart_put uart_live BUFFER_BYTES "\<lambda>w. line (csys w)" "uart_ready ck line"
  for ck :: "'o certikos" and line
proof unfold_locales
  fix w :: "'o cworld"
  assume w: "uart_ready ck line w" "\<not> inbox_has_data (uart_get w)"
  then have del: "delivers (reads ck (cu_stream (uart_static w)) BUFFER_BYTES) BUFFER_BYTES line"
    and wf: "inbox_wf BUFFER_BYTES (uart_get w)" by (simp_all add: uart_ready_def)
  obtain r s where r: "reads ck (cu_stream (uart_static w)) BUFFER_BYTES (csys w) = (r, s)"
    by (rule prod.exhaust)
  obtain ib where "inbox_receive r (uart_get w) = Inr ib" "inbox_wf BUFFER_BYTES ib"
      "inbox_unread ib @ line s = line (csys w)" "0 < in_len ib \<longleftrightarrow> line (csys w) \<noteq> []"
      "inbox_has_data ib \<longleftrightarrow> line (csys w) \<noteq> []"
    using inbox_receive_ok [OF del wf _ r] by (auto simp: BUFFER_BYTES_def)
  with w r show "\<exists>v w'. certikos_uart_has_more ck (Some ADDR_certikos_uart) w = Inr (v, w') \<and> uart_ready ck line w'
      \<and> inbox_unread (uart_get w') @ line (csys w') = line (csys w) \<and> (v = 0 \<longleftrightarrow> line (csys w) = [])
      \<and> (inbox_has_data (uart_get w') \<longleftrightarrow> line (csys w) \<noteq> [])"
    by (simp add: uart_ready_def certikos_uart_defs)
qed (simp_all add: uart_ready_def uart_live_def uart_get_def uart_put_def)

end
