(* ===== verification/Source_Partee.thy ===== *)
theory Source_Partee
  imports Certikos_Devices
begin

text \<open>
  The publish-subscribe port of \<^verbatim>\<open>lib/source_partee.c\<close>. The hook creates publisher and
  subscriber; the struct is initialised statically, so the callbacks for connecting and
  disconnecting do nothing.
\<close>

definition partee_socket_init :: "'o cworld init_t" where
  "partee_socket_init x w = Inr (error_code SUCC, w)"

definition partee_socket_deinit :: "'o cworld cleanup_t" where
  "partee_socket_deinit x w = Inr w"

text \<open>
  The frame is written to the slot before its length is looked at. A frame that is too
  long leaves a slot that is neither published nor given back.
\<close>

definition partee_socket_route_to ::
  "('x, 's, 'c) mavlink_lib \<Rightarrow> 'o certikos \<Rightarrow> ('o cworld, 'x, 's) route_t" where
  "partee_socket_route_to lib ck opq m w =
     bind_res (static_at ADDR_partee opq (partee_static w)) (\<lambda>p.
       assert_that (pt_initialized p)
         (let (r, s1) = partee_msg_alloc ck (pt_publisher p) (csys w)
          in case r of
               None \<Rightarrow> Inr (error_code SEC_GATEWAY_IO_FAULT, w\<lparr>csys := s1\<rparr>)
             | Some slot \<Rightarrow>
                 let frame = mavlink_msg_to_send_buffer lib (msg m)
                 in bind_res (write_front slot frame) (\<lambda>_.
                      if MAVLINK_MAX_PACKET_LEN lib < length frame
                      then Inr (error_code SEC_GATEWAY_INVALID_PARAM, w\<lparr>csys := s1\<rparr>)
                      else Inr (error_code SUCC, w\<lparr>csys := partee_topic_publish ck (pt_publisher p) frame s1\<rparr>))))"

definition partee_socket_has_more :: "'o certikos \<Rightarrow> 'o cworld has_more_t" where
  "partee_socket_has_more ck opq w =
     bind_res (static_at ADDR_partee opq (partee_static w)) (\<lambda>p.
       assert_that (pt_initialized p)
         (if inbox_has_data (pt_inbox p) then Inr (1, w)
          else let (r, s) = partee_topic_read ck (pt_subscriber p) (csys w)
               in bind_res (inbox_receive r (pt_inbox p)) (\<lambda>ib.
                    Inr (if inbox_has_data ib then 1 else 0, w\<lparr>partee_static := p\<lparr>pt_inbox := ib\<rparr>, csys := s\<rparr>))))"

definition partee_socket_read_byte :: "'o certikos \<Rightarrow> 'o cworld read_byte_t" where
  "partee_socket_read_byte ck opq w =
     bind_res (static_at ADDR_partee opq (partee_static w)) (\<lambda>p.
       assert_that (pt_initialized p)
         (if inbox_has_data (pt_inbox p)
          then bind_res (inbox_next (pt_inbox p)) (\<lambda>(b, ib). Inr (b, w\<lparr>partee_static := p\<lparr>pt_inbox := ib\<rparr>\<rparr>))
          else Inr (0, w)))"

definition hook_partee ::
  "('x, 's, 'c) mavlink_lib \<Rightarrow> 'o certikos \<Rightarrow> string \<Rightarrow> string \<Rightarrow> ('o cworld, 'x, 's) pipeline_t \<Rightarrow> 'o cworld
     \<Rightarrow> (int \<times> ('o cworld, 'x, 's) pipeline_t \<times> 'o cworld) res" where
  "hook_partee lib ck pub_topic sub_topic p w =
     (let (publisher, s1) = partee_create_publisher ck pub_topic (MAVLINK_MAX_PACKET_LEN lib) (csys w);
          w1 = w\<lparr>partee_static := (partee_static w)\<lparr>pt_publisher := publisher\<rparr>, csys := s1\<rparr>
      in if publisher = None then Inr (error_code SEC_GATEWAY_IO_FAULT, p, w1)
         else let (subscriber, s2) = partee_create_subscription ck sub_topic (MAVLINK_MAX_PACKET_LEN lib) s1;
                  w2 = w1\<lparr>partee_static := (partee_static w1)\<lparr>pt_subscriber := subscriber\<rparr>, csys := s2\<rparr>
              in if subscriber = None then Inr (error_code SEC_GATEWAY_IO_FAULT, p, w2)
                 else bind_res (source_allocate p (source_index SOURCE_TYPE_LEGACY) (\<lambda>src. src\<lparr>
                          src_opaque := Some ADDR_partee, src_init := Some partee_socket_init,
                          src_cleanup := Some partee_socket_deinit, src_has_more := Some (partee_socket_has_more ck),
                          src_read_byte := Some (partee_socket_read_byte ck)\<rparr>)) (\<lambda>p1.
                      bind_res (sink_allocate p1 (sink_index SINK_TYPE_LEGACY) (\<lambda>snk. snk\<lparr>
                          snk_opaque := Some ADDR_partee, snk_route := Some (partee_socket_route_to lib ck),
                          snk_init := Some partee_socket_init, snk_cleanup := Some partee_socket_deinit\<rparr>)) (\<lambda>p2.
                        Inr (error_code SUCC, p2, w2))))"

section \<open>The port as a source of bytes\<close>

definition partee_get :: "'o cworld \<Rightarrow> inbox" where
  "partee_get w = pt_inbox (partee_static w)"

definition partee_put :: "inbox \<Rightarrow> 'o cworld \<Rightarrow> 'o cworld" where
  "partee_put ib w = w\<lparr>partee_static := (partee_static w)\<lparr>pt_inbox := ib\<rparr>\<rparr>"

definition partee_live :: "'o cworld \<Rightarrow> bool" where
  "partee_live w \<longleftrightarrow> pt_initialized (partee_static w)"

text \<open>\<open>n\<close> is \<^verbatim>\<open>MAVLINK_MAX_PACKET_LEN\<close>, the size of the block.\<close>

definition partee_ready :: "'o certikos \<Rightarrow> nat \<Rightarrow> ('o \<Rightarrow> u8 list) \<Rightarrow> 'o cworld \<Rightarrow> bool" where
  "partee_ready ck n line w \<longleftrightarrow> partee_live w \<and> n < 2 ^ 64 \<and> inbox_wf n (partee_get w)
     \<and> delivers (partee_topic_read ck (pt_subscriber (partee_static w))) n line"

lemmas partee_defs = partee_socket_has_more_def partee_socket_read_byte_def partee_get_def partee_put_def
  partee_live_def

interpretation partee: inbox_port "partee_socket_has_more ck" "partee_socket_read_byte ck"
  "Some ADDR_partee" partee_get partee_put partee_live
  for ck :: "'o certikos"
  by unfold_locales (simp_all add: partee_defs)

interpretation partee_src: inbox_source "partee_socket_has_more ck" "partee_socket_read_byte ck"
  "Some ADDR_partee" partee_get partee_put partee_live n "\<lambda>w. line (csys w)" "partee_ready ck n line"
  for ck :: "'o certikos" and n and line
proof unfold_locales
  fix w :: "'o cworld"
  assume w: "partee_ready ck n line w" "\<not> inbox_has_data (partee_get w)"
  then have del: "delivers (partee_topic_read ck (pt_subscriber (partee_static w))) n line"
    and wf: "inbox_wf n (partee_get w)" and n: "n < 2 ^ 64" by (simp_all add: partee_ready_def)
  obtain r s where r: "partee_topic_read ck (pt_subscriber (partee_static w)) (csys w) = (r, s)"
    by (rule prod.exhaust)
  obtain ib where "inbox_receive r (partee_get w) = Inr ib" "inbox_wf n ib"
      "inbox_unread ib @ line s = line (csys w)" "inbox_has_data ib \<longleftrightarrow> line (csys w) \<noteq> []"
    using inbox_receive_ok [OF del wf n r] by blast
  with w r show "\<exists>v w'. partee_socket_has_more ck (Some ADDR_partee) w = Inr (v, w') \<and> partee_ready ck n line w'
      \<and> inbox_unread (partee_get w') @ line (csys w') = line (csys w) \<and> (v = 0 \<longleftrightarrow> line (csys w) = [])
      \<and> (inbox_has_data (partee_get w') \<longleftrightarrow> line (csys w) \<noteq> [])"
    by (simp add: partee_ready_def partee_defs)
qed (simp_all add: partee_ready_def partee_live_def partee_get_def partee_put_def)

section \<open>Sending\<close>

lemma partee_route_too_long:
  assumes "pt_initialized (partee_static w)" "partee_msg_alloc ck (pt_publisher (partee_static w)) (csys w) = (Some slot, s)"
    and "MAVLINK_MAX_PACKET_LEN lib < length (mavlink_msg_to_send_buffer lib (msg m))"
  shows "partee_socket_route_to lib ck (Some ADDR_partee) m w =
    (if length (mavlink_msg_to_send_buffer lib (msg m)) \<le> length slot
     then Inr (error_code SEC_GATEWAY_INVALID_PARAM, w\<lparr>csys := s\<rparr>) else Inl Out_Of_Bounds)"
  using assms by (simp add: partee_socket_route_to_def write_front_def)

end
