(* ===== verification/Source_Thinros.thy ===== *)
theory Source_Thinros
  imports Certikos_Devices
begin

text \<open>
  The \<^verbatim>\<open>thinros\<close> port of \<^verbatim>\<open>lib/source_thinros_certikos.c\<close>. A subscription's callback copies a
  message into the struct; it runs inside \<^verbatim>\<open>ros_spin_one_message\<close>, which only \<^verbatim>\<open>has_more\<close>
  calls.
\<close>

text \<open>The copy takes the length the message states and keeps the bytes beyond it.\<close>

definition on_thinros_mavlink_recv :: "u64 \<times> u8 list \<Rightarrow> thinros_socket \<Rightarrow> thinros_socket res" where
  "on_thinros_mavlink_recv message ros =
     (if length (snd message) < unat (fst message) then Inl Out_Of_Bounds
      else bind_res (write_front (in_data (tr_inbox ros)) (take (unat (fst message)) (snd message))) (\<lambda>d.
        Inr (ros\<lparr>tr_inbox := \<lparr>in_data = d, in_len = fst message, in_cur = 0\<rparr>\<rparr>)))"

definition on_thinros_recv :: "u64 \<times> u8 list \<Rightarrow> 'o cworld \<Rightarrow> 'o cworld res" where
  "on_thinros_recv message w =
     bind_res (on_thinros_mavlink_recv message (thinros_static w)) (\<lambda>ros. Inr (w\<lparr>thinros_static := ros\<rparr>))"

definition thinros_socket_init ::
  "'o certikos \<Rightarrow> thinros_socket \<Rightarrow> 'o \<Rightarrow> int \<times> thinros_socket \<times> 'o" where
  "thinros_socket_init ck ros s =
     (if tr_initialized ros then (error_code SUCC, ros, s)
      else let s1 = ros_node ck (tr_node_name ros) s;
               (publisher, s2) = ros_advertise ck (tr_pub_topic ros) s1;
               ros1 = ros\<lparr>tr_publisher := publisher\<rparr>
           in if publisher = None then (error_code SEC_GATEWAY_IO_FAULT, ros1, s2)
              else let s3 = ros_start ck (ros_subscribe ck (tr_sub_topic ros) s2)
                   in (error_code SUCC,
                       ros1\<lparr>tr_inbox := (tr_inbox ros1)\<lparr>in_cur := 0, in_len := 0\<rparr>, tr_initialized := True\<rparr>, s3))"

fun thinros_init_cb :: "'o certikos \<Rightarrow> 'o cworld init_t" where
  "thinros_init_cb ck (Device_Obj a) w =
     bind_res (static_at ADDR_thinros (Some a) (thinros_static w)) (\<lambda>ros.
       let (rv, ros1, s) = thinros_socket_init ck ros (csys w) in Inr (rv, w\<lparr>thinros_static := ros1, csys := s\<rparr>))"
| "thinros_init_cb ck (Source_Obj flag) w = (if flag then Inr (error_code SUCC, w) else Inl Type_Confusion)"
| "thinros_init_cb ck (Sink_Obj flag) w = (if flag then Inr (error_code SUCC, w) else Inl Type_Confusion)"

definition thinros_socket_deinit :: "'o cworld cleanup_t" where
  "thinros_socket_deinit x w = Inr w"

text \<open>The operations try to initialise and go on whatever comes of it.\<close>

definition thinros_open_first :: "'o certikos \<Rightarrow> 'o cworld \<Rightarrow> 'o cworld" where
  "thinros_open_first ck w =
     (if tr_initialized (thinros_static w) = False
      then let (_, ros, s) = thinros_socket_init ck (thinros_static w) (csys w)
           in w\<lparr>thinros_static := ros, csys := s\<rparr>
      else w)"

definition thinros_socket_route_to ::
  "('x, 's, 'c) mavlink_lib \<Rightarrow> 'o certikos \<Rightarrow> ('o cworld, 'x, 's) route_t" where
  "thinros_socket_route_to lib ck opq m w =
     bind_res (static_at ADDR_thinros opq ()) (\<lambda>_.
       let w1 = thinros_open_first ck w;
           ros = thinros_static w1;
           frame = mavlink_msg_to_send_buffer lib (msg m)
       in bind_res (write_front (snd (tr_output ros)) frame) (\<lambda>d.
          assert_that (length frame \<le> MAVLINK_MAX_PACKET_LEN lib)
            (let out = (of_nat (length frame), d)
             in Inr (error_code SUCC, w1\<lparr>thinros_static := ros\<lparr>tr_output := out\<rparr>,
                  csys := ros_publish ck (tr_publisher ros) out (csys w1)\<rparr>))))"

definition thinros_socket_has_more :: "'o certikos \<Rightarrow> 'o cworld has_more_t" where
  "thinros_socket_has_more ck opq w =
     bind_res (static_at ADDR_thinros opq ()) (\<lambda>_.
       let w1 = thinros_open_first ck w
       in if inbox_has_data (tr_inbox (thinros_static w1)) then Inr (1, w1)
          else let (r, s) = ros_spin_one_message ck (csys w1);
                   w2 = w1\<lparr>csys := s\<rparr>
               in bind_res (case r of None \<Rightarrow> Inr w2 | Some message \<Rightarrow> on_thinros_recv message w2) (\<lambda>w3.
                    Inr (if inbox_has_data (tr_inbox (thinros_static w3)) then 1 else 0, w3)))"

definition thinros_socket_read_byte :: "'o certikos \<Rightarrow> 'o cworld read_byte_t" where
  "thinros_socket_read_byte ck opq w =
     bind_res (static_at ADDR_thinros opq ()) (\<lambda>_.
       let w1 = thinros_open_first ck w;
           ros = thinros_static w1
       in if inbox_has_data (tr_inbox ros)
          then bind_res (inbox_next (tr_inbox ros)) (\<lambda>(b, ib). Inr (b, w1\<lparr>thinros_static := ros\<lparr>tr_inbox := ib\<rparr>\<rparr>))
          else Inr (0, w1))"

text \<open>The hook sets the source's callbacks twice where the sink's were meant; the sink keeps its own.\<close>

definition hook_thinros ::
  "('x, 's, 'c) mavlink_lib \<Rightarrow> 'o certikos \<Rightarrow> string \<Rightarrow> string \<Rightarrow> ('o cworld, 'x, 's) pipeline_t \<Rightarrow> 'o cworld
     \<Rightarrow> (int \<times> ('o cworld, 'x, 's) pipeline_t \<times> 'o cworld) res" where
  "hook_thinros lib ck pub_topic sub_topic p w =
     bind_res (source_allocate p (source_index SOURCE_TYPE_LEGACY) (\<lambda>src. src\<lparr>src_opaque := Some ADDR_thinros,
         src_init := Some (thinros_init_cb ck), src_cleanup := Some thinros_socket_deinit,
         src_has_more := Some (thinros_socket_has_more ck), src_read_byte := Some (thinros_socket_read_byte ck)\<rparr>))
       (\<lambda>p1.
     bind_res (sink_allocate p1 (sink_index SINK_TYPE_LEGACY) (\<lambda>snk. snk\<lparr>snk_opaque := Some ADDR_thinros,
         snk_route := Some (thinros_socket_route_to lib ck)\<rparr>)) (\<lambda>p2.
       let ros = thinros_static w
       in Inr (error_code SUCC, p2, w\<lparr>thinros_static := ros\<lparr>tr_pub_topic := pub_topic, tr_sub_topic := sub_topic,
            tr_initialized := False, tr_inbox := (tr_inbox ros)\<lparr>in_len := 0\<rparr>\<rparr>\<rparr>)))"

section \<open>The port as a source of bytes\<close>

definition thinros_get :: "'o cworld \<Rightarrow> inbox" where
  "thinros_get w = tr_inbox (thinros_static w)"

definition thinros_put :: "inbox \<Rightarrow> 'o cworld \<Rightarrow> 'o cworld" where
  "thinros_put ib w = w\<lparr>thinros_static := (thinros_static w)\<lparr>tr_inbox := ib\<rparr>\<rparr>"

definition thinros_live :: "'o cworld \<Rightarrow> bool" where
  "thinros_live w \<longleftrightarrow> tr_initialized (thinros_static w)"

text \<open>What a message puts into the block; no message is an empty block.\<close>

definition spin_one_block :: "'o certikos \<Rightarrow> 'o \<Rightarrow> (u64 \<times> u8 list) \<times> 'o" where
  "spin_one_block ck s = (case ros_spin_one_message ck s of (None, s') \<Rightarrow> ((0, []), s') | (Some r, s') \<Rightarrow> ((fst r, take (unat (fst r)) (snd r)), s'))"

definition thinros_ready :: "'o certikos \<Rightarrow> nat \<Rightarrow> ('o \<Rightarrow> u8 list) \<Rightarrow> 'o cworld \<Rightarrow> bool" where
  "thinros_ready ck n line w \<longleftrightarrow> thinros_live w \<and> n < 2 ^ 64 \<and> inbox_wf n (thinros_get w)
     \<and> delivers (spin_one_block ck) n line"

lemmas thinros_defs = thinros_socket_has_more_def thinros_socket_read_byte_def thinros_open_first_def
  thinros_get_def thinros_put_def thinros_live_def

interpretation thinros: inbox_port "thinros_socket_has_more ck" "thinros_socket_read_byte ck"
  "Some ADDR_thinros" thinros_get thinros_put thinros_live
  for ck :: "'o certikos"
  by unfold_locales (simp_all add: thinros_defs Let_def)

lemma on_thinros_recv_ok:
  assumes "unat (fst r) \<le> length (snd r)"
  shows "on_thinros_mavlink_recv r ros
    = bind_res (inbox_receive (fst r, take (unat (fst r)) (snd r)) (tr_inbox ros)) (\<lambda>ib. Inr (ros\<lparr>tr_inbox := ib\<rparr>))"
  using assms by (simp add: on_thinros_mavlink_recv_def inbox_receive_def write_front_def)

lemma delivers_length:
  assumes "delivers f n line" "n < 2 ^ 64" "f s = (r, s')"
  shows "unat (fst r) = length (snd r)"
proof -
  obtain bs where "r = (of_nat (length bs), bs)" "length bs \<le> n"
    using assms(1,3) by (auto simp: delivers_def dest!: spec [of _ s])
  with assms(2) show ?thesis by (simp add: unat_of_nat)
qed

interpretation thinros_src: inbox_source "thinros_socket_has_more ck" "thinros_socket_read_byte ck"
  "Some ADDR_thinros" thinros_get thinros_put thinros_live n "\<lambda>w. line (csys w)" "thinros_ready ck n line"
  for ck :: "'o certikos" and n and line
proof unfold_locales
  fix w :: "'o cworld"
  assume w: "thinros_ready ck n line w" "\<not> inbox_has_data (thinros_get w)"
  then have live: "thinros_live w" and wf: "inbox_wf n (thinros_get w)" and n: "n < 2 ^ 64"
    and del: "delivers (spin_one_block ck) n line" by (simp_all add: thinros_ready_def)
  obtain r s where r: "ros_spin_one_message ck (csys w) = (r, s)" by (rule prod.exhaust)
  show "\<exists>v w'. thinros_socket_has_more ck (Some ADDR_thinros) w = Inr (v, w') \<and> thinros_ready ck n line w'
      \<and> inbox_unread (thinros_get w') @ line (csys w') = line (csys w) \<and> (v = 0 \<longleftrightarrow> line (csys w) = [])
      \<and> (inbox_has_data (thinros_get w') \<longleftrightarrow> line (csys w) \<noteq> [])"
  proof (cases r)
    case None
    then have "spin_one_block ck (csys w) = ((0, []), s)" using r by (simp add: spin_one_block_def)
    then have "line (csys w) = []" "line s = []"
      using del by (auto simp: delivers_def dest!: spec [of _ "csys w"])
    moreover have "inbox_unread (thinros_get w) = []" using w(2) inbox_has_data_iff [OF wf] by simp
    ultimately show ?thesis using None r w live
      by (simp add: thinros_defs thinros_ready_def)
  next
    case (Some r0)
    let ?b = "(fst r0, take (unat (fst r0)) (snd r0))"
    have b: "spin_one_block ck (csys w) = (?b, s)" using Some r by (simp add: spin_one_block_def)
    have len: "unat (fst r0) \<le> length (snd r0)"
      using delivers_length [OF del n b] by simp
    obtain ib where "inbox_receive ?b (thinros_get w) = Inr ib" "inbox_wf n ib"
        "inbox_unread ib @ line s = line (csys w)" "inbox_has_data ib \<longleftrightarrow> line (csys w) \<noteq> []"
      using inbox_receive_ok [OF del wf n b] by blast
    then show ?thesis
      using Some r w live on_thinros_recv_ok [OF len]
      by (simp add: thinros_defs thinros_ready_def on_thinros_recv_def)
  qed
qed (simp_all add: thinros_ready_def thinros_live_def thinros_get_def thinros_put_def)

end
