(* ===== verification/Certikos_Ports.thy ===== *)
theory Certikos_Ports
  imports Source_Certikos_Uart Source_Partee Source_Thinros
begin

text \<open>
  The three sources of the CertiKOS build side by side: fed the same bytes they are
  indistinguishable, and all three trust the length they are told.
\<close>

lemma refilled_overread:
  assumes "inbox_port has_more read_byte opq get put live"
    and "has_more opq w = Inr (1, w1)" and "live w1"
    and "length (in_data (get w1)) = n" and "n < unat (in_len (get w1))" and "in_cur (get w1) = 0"
  shows "read_n has_more read_byte opq (Suc n) w = Inl Out_Of_Bounds"
proof -
  have "inbox_has_data (get w1)" using assms(5,6) by (auto simp: inbox_has_data_def word_less_nat_alt)
  then have "has_more opq w1 = Inr (1, w1)"
    using inbox_port.has_more_data [OF assms(1)] assms(3) by blast
  moreover have "read_n has_more read_byte opq (Suc n) w1 = Inl Out_Of_Bounds"
    using inbox_port.overread [OF assms(1,3)] assms(4-6) by simp
  ultimately show ?thesis using assms(2) by simp
qed

section \<open>Properties\<close>

text \<open>
  C33. The ports are interchangeable. A serial line, a \<^verbatim>\<open>partee\<close> topic and a \<^verbatim>\<open>thinros\<close> topic
  that have the same bytes to give, however these are cut into blocks, give the main loop
  the same bytes in the same order, as many as it asks for.
\<close>

theorem certikos_sources_agree:
  assumes "uart_ready ck1 line1 w1" and "partee_ready ck2 n2 line2 w2" and "thinros_ready ck3 n3 line3 w3"
    and "inbox_unread (uart_get w1) @ line1 (csys w1) = bs"
    and "inbox_unread (partee_get w2) @ line2 (csys w2) = bs"
    and "inbox_unread (thinros_get w3) @ line3 (csys w3) = bs"
  shows "\<exists>w1' w2' w3'.
      read_n (certikos_uart_has_more ck1) (certikos_uart_read_byte ck1) (Some ADDR_certikos_uart) k w1 = Inr (take k bs, w1')
    \<and> read_n (partee_socket_has_more ck2) (partee_socket_read_byte ck2) (Some ADDR_partee) k w2 = Inr (take k bs, w2')
    \<and> read_n (thinros_socket_has_more ck3) (thinros_socket_read_byte ck3) (Some ADDR_thinros) k w3 = Inr (take k bs, w3')"
  using certikos_uart_src.bytes.read_n_ok [OF assms(1), of k] partee_src.bytes.read_n_ok [OF assms(2), of k]
    thinros_src.bytes.read_n_ok [OF assms(3), of k] assms(4-6) by auto

text \<open>The concrete system reads up to the block's size, 2 bytes and 1 byte at a time.\<close>

lemma demo_ready:
  "uart_ready demo_certikos fst (demo_cworld bs)" "partee_ready demo_certikos 280 fst (demo_cworld bs)"
  "thinros_ready demo_certikos 280 fst (demo_cworld bs)"
proof -
  show "uart_ready demo_certikos fst (demo_cworld bs)"
    using demo_read_delivers [of BUFFER_BYTES BUFFER_BYTES]
    by (simp add: uart_ready_def uart_live_def uart_get_def demo_cworld_def demo_inbox_wf demo_certikos_def)
  show "partee_ready demo_certikos 280 fst (demo_cworld bs)"
    using demo_read_delivers [of 2 280]
    by (simp add: partee_ready_def partee_live_def partee_get_def demo_cworld_def demo_inbox_wf demo_certikos_def)
  have "spin_one_block demo_certikos = demo_read 1"
  proof (rule ext)
    fix s :: demo_csys
    obtain bs out where "s = (bs, out)" by (rule prod.exhaust)
    then show "spin_one_block demo_certikos s = demo_read 1 s"
      by (cases bs) (simp_all add: spin_one_block_def demo_certikos_def demo_read_def)
  qed
  then show "thinros_ready demo_certikos 280 fst (demo_cworld bs)"
    using demo_read_delivers [of 1 280]
    by (simp add: thinros_ready_def thinros_live_def thinros_get_def demo_cworld_def demo_inbox_wf)
qed

theorem certikos_sources_agree_witness:
  "\<exists>w1 w2 w3. let h = demo_certikos; w = demo_cworld [7, 8, 9] in
      read_n (certikos_uart_has_more h) (certikos_uart_read_byte h) (Some ADDR_certikos_uart) 5 w = Inr ([7, 8, 9], w1)
    \<and> read_n (partee_socket_has_more h) (partee_socket_read_byte h) (Some ADDR_partee) 5 w = Inr ([7, 8, 9], w2)
    \<and> read_n (thinros_socket_has_more h) (thinros_socket_read_byte h) (Some ADDR_thinros) 5 w = Inr ([7, 8, 9], w3)"
proof -
  let ?w = "demo_cworld [7, 8, 9]"
  have "inbox_unread (uart_get ?w) @ fst (csys ?w) = [7, 8, 9]" "inbox_unread (partee_get ?w) @ fst (csys ?w) = [7, 8, 9]"
    "inbox_unread (thinros_get ?w) @ fst (csys ?w) = [7, 8, 9]"
    by (simp_all add: uart_get_def partee_get_def thinros_get_def demo_cworld_def demo_inbox_wf)
  from certikos_sources_agree [OF demo_ready this, of 5] show ?thesis by (simp add: Let_def)
qed

text \<open>
  C34. Lengths are taken on trust. When a call states a length beyond the block the source
  keeps, 4096 bytes for the serial line and the size of a packet for the other two, the
  \<^verbatim>\<open>thinros\<close> callback copies past its struct at once, and the other two say that there is more
  and hand out the block and then what lies behind it. For the serial line that includes
  the -1 of an error.
\<close>

theorem certikos_lengths_trusted:
  assumes "uart_live w" and "partee_live w" and "thinros_live w"
    and "\<not> inbox_has_data (uart_get w)" and "\<not> inbox_has_data (partee_get w)" and "\<not> inbox_has_data (thinros_get w)"
    and "length (in_data (uart_get w)) = BUFFER_BYTES"
    and "length (in_data (partee_get w)) = MAVLINK_MAX_PACKET_LEN lib"
    and "length (in_data (thinros_get w)) = MAVLINK_MAX_PACKET_LEN lib"
    and "reads ck (cu_stream (uart_static w)) BUFFER_BYTES (csys w) = ((n1, bs1), s1)"
    and "partee_topic_read ck (pt_subscriber (partee_static w)) (csys w) = ((n2, bs2), s2)"
    and "ros_spin_one_message ck (csys w) = (Some (n3, bs3), s3)"
    and "length bs1 \<le> BUFFER_BYTES" and "length bs2 \<le> MAVLINK_MAX_PACKET_LEN lib"
    and "BUFFER_BYTES < unat n1" and "MAVLINK_MAX_PACKET_LEN lib < unat n2" and "MAVLINK_MAX_PACKET_LEN lib < unat n3"
  shows "read_n (certikos_uart_has_more ck) (certikos_uart_read_byte ck) (Some ADDR_certikos_uart)
      (Suc BUFFER_BYTES) w = Inl Out_Of_Bounds
    \<and> read_n (partee_socket_has_more ck) (partee_socket_read_byte ck) (Some ADDR_partee)
      (Suc (MAVLINK_MAX_PACKET_LEN lib)) w = Inl Out_Of_Bounds
    \<and> thinros_socket_has_more ck (Some ADDR_thinros) w = Inl Out_Of_Bounds"
proof (intro conjI)
  have n: "0 < n1" "0 < n2" using assms(15,16) by (auto simp: word_less_nat_alt)
  let ?ib = "\<lambda>bs n ib. \<lparr>in_data = bs @ drop (length bs) (in_data ib), in_len = n, in_cur = 0\<rparr>"
  have data: "inbox_has_data (?ib bs n1 ib)" "inbox_has_data (?ib bs n2 ib)" for bs ib
    using n by (simp_all add: inbox_has_data_def)
  show "read_n (certikos_uart_has_more ck) (certikos_uart_read_byte ck) (Some ADDR_certikos_uart)
      (Suc BUFFER_BYTES) w = Inl Out_Of_Bounds"
    by (rule refilled_overread [OF certikos_uart.inbox_port_axioms, where ?w1.0 = "(uart_put (?ib bs1 n1 (uart_get w)) w)\<lparr>csys := s1\<rparr>"])
       (use assms n in \<open>simp_all add: certikos_uart_defs inbox_receive_def\<close>)
  show "read_n (partee_socket_has_more ck) (partee_socket_read_byte ck) (Some ADDR_partee)
      (Suc (MAVLINK_MAX_PACKET_LEN lib)) w = Inl Out_Of_Bounds"
    by (rule refilled_overread [OF partee.inbox_port_axioms, where ?w1.0 = "(partee_put (?ib bs2 n2 (partee_get w)) w)\<lparr>csys := s2\<rparr>"])
       (use assms n data in \<open>simp_all add: partee_defs inbox_receive_def\<close>)
  show "thinros_socket_has_more ck (Some ADDR_thinros) w = Inl Out_Of_Bounds"
    using assms
    by (cases "length bs3 < unat n3")
       (simp_all add: thinros_defs on_thinros_recv_def on_thinros_mavlink_recv_def write_front_def Let_def)
qed

text \<open>A failed read of the serial line, and topics that state 281 bytes.\<close>

theorem certikos_lengths_trusted_witness:
  "let ck = demo_certikos\<lparr>reads := \<lambda>_ _ s. ((-1, []), s), partee_topic_read := \<lambda>_ s. ((281, []), s),
       ros_spin_one_message := \<lambda>s. (Some (281, []), s)\<rparr>
   in read_n (certikos_uart_has_more ck) (certikos_uart_read_byte ck) (Some ADDR_certikos_uart)
        (Suc BUFFER_BYTES) (demo_cworld []) = Inl Out_Of_Bounds
    \<and> read_n (partee_socket_has_more ck) (partee_socket_read_byte ck) (Some ADDR_partee) 281 (demo_cworld [])
        = Inl Out_Of_Bounds
    \<and> thinros_socket_has_more ck (Some ADDR_thinros) (demo_cworld []) = Inl Out_Of_Bounds"
proof -
  let ?ck = "demo_certikos\<lparr>reads := \<lambda>_ _ s. ((-1, []), s), partee_topic_read := \<lambda>_ s. ((281, []), s),
       ros_spin_one_message := \<lambda>s. (Some (281, []), s)\<rparr>"
  let ?w = "demo_cworld []"
  have packet: "MAVLINK_MAX_PACKET_LEN demo_lib = 280" by (simp add: demo_lib_def)
  have 1: "uart_live ?w" "partee_live ?w" "thinros_live ?w"
    "\<not> inbox_has_data (uart_get ?w)" "\<not> inbox_has_data (partee_get ?w)" "\<not> inbox_has_data (thinros_get ?w)"
    by (simp_all add: demo_cworld_def uart_live_def partee_live_def thinros_live_def uart_get_def partee_get_def
        thinros_get_def demo_inbox_wf)
  have 2: "length (in_data (uart_get ?w)) = BUFFER_BYTES" "length (in_data (partee_get ?w)) = MAVLINK_MAX_PACKET_LEN demo_lib"
    "length (in_data (thinros_get ?w)) = MAVLINK_MAX_PACKET_LEN demo_lib"
    by (simp_all add: demo_cworld_def uart_get_def partee_get_def thinros_get_def demo_inbox_def demo_lib_def)
  have 3: "reads ?ck (cu_stream (uart_static ?w)) BUFFER_BYTES (csys ?w) = ((-1, []), csys ?w)"
    "partee_topic_read ?ck (pt_subscriber (partee_static ?w)) (csys ?w) = ((281, []), csys ?w)"
    "ros_spin_one_message ?ck (csys ?w) = (Some (281, []), csys ?w)" by simp_all
  have 4: "length ([] :: u8 list) \<le> BUFFER_BYTES" "length ([] :: u8 list) \<le> MAVLINK_MAX_PACKET_LEN demo_lib"
    "BUFFER_BYTES < unat (-1 :: u64)" "MAVLINK_MAX_PACKET_LEN demo_lib < unat (281 :: u64)"
    by (simp_all add: packet BUFFER_BYTES_def unsigned_minus_1_eq_mask mask_eq_exp_minus_1)
  show ?thesis using certikos_lengths_trusted [OF 1 2 3 4(1-4) 4(4)] by (simp add: Let_def packet)
qed

end
