(* ===== verification/Source_Ringleader.thy ===== *)
theory Source_Ringleader
  imports Pipeline_Spin Devices
begin

text \<open>
  The TCP port over \<^verbatim>\<open>io_uring\<close> of \<^verbatim>\<open>lib/source_ringleader.c\<close>, with \<^verbatim>\<open>get_rl\<close> of
  \<^verbatim>\<open>lib/log_ringleader.c\<close>. Every operation of the port first runs \<^verbatim>\<open>ringleader_tcp_tick\<close>,
  which takes the completions the kernel has queued, runs the callback of each, and issues
  the requests that open the port. The library \<^verbatim>\<open>ringleader\<close> is not part of the repository:
  its calls are a record of functions on the system's state \<open>'o\<close>. A request is one value, with
  the callback and user data the code sets for it; a completion is the callback that runs.
  The completions one tick finds are a finite list, chosen by the system: a tick that found
  completions for ever would not end.
\<close>

section \<open>Data\<close>

definition MAVLINK_MAX_PACKET_SIZE :: nat where "MAVLINK_MAX_PACKET_SIZE = 512"
definition MAVLINK_RECV_PACKET_DEPTH :: nat where "MAVLINK_RECV_PACKET_DEPTH = 16"
definition READY_SIZE :: nat where "READY_SIZE = MAVLINK_MAX_PACKET_SIZE * MAVLINK_RECV_PACKET_DEPTH"

record pkt_send_data =
  ps_mavrl :: nat
  ps_arena :: "nat option"
  ps_buffer :: "u8 list"
  ps_buffer_size :: nat

record mavlink_rl =
  flag_arena :: bool
  flag_socket :: bool
  flag_bind_listen :: bool
  rl_port :: int
  rl_arena :: "nat option"
  rl_sockfd :: int
  rl_clientfd :: int
  arena_client_sockaddr :: "nat option"
  arena_client_socklen :: "nat option"
  arena_packets :: "nat option list"
  ready :: "u8 list"
  ready_head :: nat
  ready_tail :: nat

text \<open>
  Completions, by their callback: the address of the struct, and what the kernel reports.
  For a received packet that is its index, the result, and the 512 bytes of its buffer.
  Requests without a callback complete as \<open>Ignored\<close>.
\<close>

datatype completion =
    Recv_Arena nat
  | Socket nat int
  | Accept nat int
  | Recv nat nat int "u8 list"
  | Send_Arena nat
  | Send nat int
  | Ignored

datatype request =
    Req_Socket nat
  | Req_Bind int int
  | Req_Listen int nat
  | Req_Accept nat int
  | Req_Recv nat nat int "nat option"
  | Req_Send nat int "u8 list"

record 'o ringleader =
  ringleader_factory :: "'o \<Rightarrow> nat option \<times> 'o"
  ringleader_init_finished :: "nat option \<Rightarrow> 'o \<Rightarrow> bool \<times> 'o"
  completions :: "'o \<Rightarrow> completion list \<times> 'o"
  ringleader_init_arena :: "'o \<Rightarrow> (int \<times> nat option) \<times> 'o"
  ringleader_arena_push :: "nat option \<Rightarrow> nat \<Rightarrow> 'o \<Rightarrow> nat option \<times> 'o"
  ringleader_free_arena :: "nat option \<Rightarrow> 'o \<Rightarrow> int \<times> 'o"
  request_recv_arena :: "nat \<Rightarrow> nat \<Rightarrow> 'o \<Rightarrow> int \<times> 'o"
  request_send_arena :: "nat \<Rightarrow> nat \<Rightarrow> 'o \<Rightarrow> int \<times> 'o"
  prep :: "request \<Rightarrow> 'o \<Rightarrow> 'o"
  submit :: "'o \<Rightarrow> 'o"
  rl_malloc :: "'o \<Rightarrow> nat option \<times> 'o"
  ERR_NO_MEM :: int

text \<open>The structs by address, the two static variables of \<^verbatim>\<open>get_rl\<close>, and the system.\<close>

record 'o rworld =
  rl_heap :: "nat \<Rightarrow> mavlink_rl option"
  sends :: "nat \<Rightarrow> pkt_send_data option"
  rl_made :: "nat option"
  rl_ready :: "nat option"
  rsys :: 'o

definition rl_at :: "nat \<Rightarrow> 'o rworld \<Rightarrow> mavlink_rl res" where
  "rl_at a w = (case rl_heap w a of None \<Rightarrow> Inl Use_After_Free | Some rl \<Rightarrow> Inr rl)"

definition rl_store :: "nat \<Rightarrow> mavlink_rl \<Rightarrow> 'o rworld \<Rightarrow> 'o rworld" where
  "rl_store a rl w = w\<lparr>rl_heap := (rl_heap w)(a := Some rl)\<rparr>"

definition rl_do :: "('o \<Rightarrow> 'o) \<Rightarrow> 'o rworld \<Rightarrow> 'o rworld" where
  "rl_do f w = w\<lparr>rsys := f (rsys w)\<rparr>"

definition rl_call :: "('o \<Rightarrow> 'r \<times> 'o) \<Rightarrow> 'o rworld \<Rightarrow> 'r \<times> 'o rworld" where
  "rl_call f w = (let (r, s) = f (rsys w) in (r, w\<lparr>rsys := s\<rparr>))"

lemma rl_store_simps [simp]:
  "rl_heap (rl_store a rl w) b = (if b = a then Some rl else rl_heap w b)" "rsys (rl_store a rl w) = rsys w"
  "rl_ready (rl_store a rl w) = rl_ready w" "rl_made (rl_store a rl w) = rl_made w"
  by (simp_all add: rl_store_def)

definition get_rl :: "'o ringleader \<Rightarrow> 'o rworld \<Rightarrow> nat option \<times> 'o rworld" where
  "get_rl lib w =
     (if rl_ready w \<noteq> None then (rl_ready w, w)
      else let (made, w1) = (if rl_made w = None then rl_call (ringleader_factory lib) w else (rl_made w, w));
               (finished, w2) = rl_call (ringleader_init_finished lib made) (w1\<lparr>rl_made := made\<rparr>);
               w3 = (if finished then w2\<lparr>rl_ready := made\<rparr> else w2)
           in (rl_ready w3, w3))"

section \<open>The callbacks\<close>

text \<open>Allocating the sixteen receive buffers.\<close>

fun push_packets :: "'o ringleader \<Rightarrow> nat option \<Rightarrow> nat \<Rightarrow> 'o rworld \<Rightarrow> nat option list \<times> 'o rworld" where
  "push_packets lib arena 0 w = ([], w)"
| "push_packets lib arena (Suc n) w =
     (let (p, w1) = rl_call (ringleader_arena_push lib arena MAVLINK_MAX_PACKET_SIZE) w;
          (ps, w2) = push_packets lib arena n w1
      in (p # ps, w2))"

definition ringleader_tcp_recv_arena_cb :: "'o ringleader \<Rightarrow> nat \<Rightarrow> 'o rworld \<Rightarrow> 'o rworld res" where
  "ringleader_tcp_recv_arena_cb lib a w =
     bind_res (rl_at a w) (\<lambda>rl.
       let ((err, arena), w1) = rl_call (ringleader_init_arena lib) w;
           (ps, w2) = push_packets lib arena MAVLINK_RECV_PACKET_DEPTH w1
       in Inr (rl_store a (rl\<lparr>rl_arena := arena, arena_packets := ps\<rparr>) w2))"

definition ringleader_tcp_socket_cb :: "nat \<Rightarrow> int \<Rightarrow> 'o rworld \<Rightarrow> 'o rworld res" where
  "ringleader_tcp_socket_cb a r w =
     bind_res (rl_at a w) (\<lambda>rl. Inr (rl_store a (rl\<lparr>rl_sockfd := r\<rparr>) w))"

text \<open>A block of bytes written at an offset.\<close>

definition write_at :: "nat \<Rightarrow> u8 list \<Rightarrow> u8 list \<Rightarrow> u8 list res" where
  "write_at i bs buf =
     (if i + length bs \<le> length buf then Inr (take i buf @ bs @ drop (i + length bs) buf) else Inl Out_Of_Bounds)"

text \<open>
  One turn of the loop of \<^verbatim>\<open>ringleader_tcp_recv_cb\<close>: a copy from the start of the packet to the
  head, up to the end of the ring. The mask with the power of two \<^verbatim>\<open>READY_SIZE\<close> is a remainder.
\<close>

definition ready_overwrites :: "nat \<Rightarrow> nat \<Rightarrow> nat \<Rightarrow> bool" where
  "ready_overwrites h t n \<longleftrightarrow> h < t \<and> t \<le> n \<or> t \<le> n \<and> n < h"

definition ready_copy :: "u8 list \<Rightarrow> nat \<Rightarrow> mavlink_rl \<Rightarrow> mavlink_rl res" where
  "ready_copy packet to_copy rl =
     (let new_head = (ready_head rl + to_copy) mod READY_SIZE
      in if length packet < to_copy then Inl Out_Of_Bounds
         else bind_res (write_at (ready_head rl) (take to_copy packet) (ready rl)) (\<lambda>buf.
           Inr (rl\<lparr>ready := buf,
                   ready_tail := (if ready_overwrites (ready_head rl) (ready_tail rl) new_head
                                  then (new_head + 1) mod READY_SIZE else ready_tail rl),
                   ready_head := new_head\<rparr>)))"

function ready_loop :: "u8 list \<Rightarrow> nat \<Rightarrow> mavlink_rl \<Rightarrow> mavlink_rl res" where
  "ready_loop packet n rl =
     (if n = 0 then Inr rl
      else if READY_SIZE \<le> ready_head rl then Inl Out_Of_Bounds
      else let to_copy = min n (READY_SIZE - ready_head rl)
           in bind_res (ready_copy packet to_copy rl) (\<lambda>rl1. ready_loop packet (n - to_copy) rl1))"
  by pat_completeness auto
termination
  by (relation "measure (\<lambda>(packet, n, rl). n)") auto

declare ready_loop.simps [simp del]

definition ringleader_tcp_recv_cb ::
  "'o ringleader \<Rightarrow> nat \<Rightarrow> nat \<Rightarrow> int \<Rightarrow> u8 list \<Rightarrow> 'o rworld \<Rightarrow> 'o rworld res" where
  "ringleader_tcp_recv_cb lib a index r packet w =
     bind_res (rl_at a w) (\<lambda>rl.
       if r \<le> 0 then Inr w
       else bind_res (ready_loop packet (nat r) rl) (\<lambda>rl1.
            bind_res (arr_get (arena_packets rl1) index) (\<lambda>p.
              Inr (rl_do (\<lambda>s. submit lib (prep lib (Req_Recv a index (rl_clientfd rl1) p) s)) (rl_store a rl1 w)))))"

fun recv_requests :: "nat \<Rightarrow> int \<Rightarrow> nat \<Rightarrow> nat option list \<Rightarrow> request list" where
  "recv_requests a fd j [] = []"
| "recv_requests a fd j (p # ps) = Req_Recv a j fd p # recv_requests a fd (Suc j) ps"

definition ringleader_tcp_accept_cb :: "'o ringleader \<Rightarrow> nat \<Rightarrow> int \<Rightarrow> 'o rworld \<Rightarrow> 'o rworld res" where
  "ringleader_tcp_accept_cb lib a r w =
     bind_res (rl_at a w) (\<lambda>rl.
       Inr (rl_do (\<lambda>s. submit lib (fold (prep lib) (recv_requests a r 0 (arena_packets rl)) s))
             (rl_store a (rl\<lparr>rl_clientfd := r\<rparr>) w)))"

definition ringleader_tcp_send_cb :: "'o ringleader \<Rightarrow> nat \<Rightarrow> 'o rworld \<Rightarrow> 'o rworld res" where
  "ringleader_tcp_send_cb lib d w =
     (case sends w d of
        None \<Rightarrow> Inl Use_After_Free
      | Some data \<Rightarrow>
          let (err, w1) = rl_call (ringleader_free_arena lib (ps_arena data)) w
          in Inr (w1\<lparr>sends := (sends w1)(d := None)\<rparr>))"

text \<open>An arena that cannot be had loses the message, and its memory.\<close>

definition ringleader_tcp_send_arena_cb :: "'o ringleader \<Rightarrow> nat \<Rightarrow> 'o rworld \<Rightarrow> 'o rworld res" where
  "ringleader_tcp_send_arena_cb lib d w =
     (case sends w d of
        None \<Rightarrow> Inl Use_After_Free
      | Some data \<Rightarrow>
          let ((err, arena), w1) = rl_call (ringleader_init_arena lib) w;
              w2 = w1\<lparr>sends := (sends w1)(d := Some (data\<lparr>ps_arena := arena\<rparr>))\<rparr>
          in if err \<noteq> 0 then Inr w2
             else bind_res (rl_at (ps_mavrl data) w2) (\<lambda>rl.
               let (p, w3) = rl_call (ringleader_arena_push lib arena (ps_buffer_size data)) w2
               in Inr (rl_do (\<lambda>s. submit lib (prep lib
                    (Req_Send d (rl_clientfd rl) (take (ps_buffer_size data) (ps_buffer data))) s)) w3)))"

fun run_completion :: "'o ringleader \<Rightarrow> completion \<Rightarrow> 'o rworld \<Rightarrow> 'o rworld res" where
  "run_completion lib (Recv_Arena a) w = ringleader_tcp_recv_arena_cb lib a w"
| "run_completion lib (Socket a r) w = ringleader_tcp_socket_cb a r w"
| "run_completion lib (Accept a r) w = ringleader_tcp_accept_cb lib a r w"
| "run_completion lib (Recv a i r packet) w = ringleader_tcp_recv_cb lib a i r packet w"
| "run_completion lib (Send_Arena d) w = ringleader_tcp_send_arena_cb lib d w"
| "run_completion lib (Send d r) w = ringleader_tcp_send_cb lib d w"
| "run_completion lib Ignored w = Inr w"

fun run_completions :: "'o ringleader \<Rightarrow> completion list \<Rightarrow> 'o rworld \<Rightarrow> 'o rworld res" where
  "run_completions lib [] w = Inr w"
| "run_completions lib (c # cs) w = bind_res (run_completion lib c w) (run_completions lib cs)"

section \<open>The tick\<close>

text \<open>The requests that open the port, one stage per tick.\<close>

definition tick_requests :: "'o ringleader \<Rightarrow> nat \<Rightarrow> 'o rworld \<Rightarrow> 'o rworld res" where
  "tick_requests lib a w =
     bind_res (rl_at a w) (\<lambda>rl.
       if rl_arena rl = None
       then let (_, w1) = (if flag_arena rl then (0, w)
                  else rl_call (request_recv_arena lib a (4096 + MAVLINK_RECV_PACKET_DEPTH * 2 * MAVLINK_MAX_PACKET_SIZE)) w);
                w2 = (if flag_socket rl then w1 else rl_do (\<lambda>s. submit lib (prep lib (Req_Socket a) s)) w1)
            in Inr (rl_store a (rl\<lparr>flag_arena := True, flag_socket := True\<rparr>) w2)
       else if rl_sockfd rl \<noteq> -1 \<and> \<not> flag_bind_listen rl
       then let (addr, w1) = rl_call (ringleader_arena_push lib (rl_arena rl) 16) w;
                w2 = rl_do (\<lambda>s. prep lib (Req_Listen (rl_sockfd rl) 16) (prep lib (Req_Bind (rl_sockfd rl) (rl_port rl)) s)) w1;
                (ca, w3) = rl_call (ringleader_arena_push lib (rl_arena rl) 16) w2;
                (cl, w4) = rl_call (ringleader_arena_push lib (rl_arena rl) 4) w3;
                w5 = rl_do (\<lambda>s. submit lib (prep lib (Req_Accept a (rl_sockfd rl)) s)) w4
            in Inr (rl_store a (rl\<lparr>flag_bind_listen := True, arena_client_sockaddr := ca,
                 arena_client_socklen := cl\<rparr>) w5)
       else Inr w)"

definition ringleader_tcp_tick ::
  "'o ringleader \<Rightarrow> nat \<Rightarrow> 'o rworld \<Rightarrow> (nat option \<times> 'o rworld) res" where
  "ringleader_tcp_tick lib a w =
     (let (rl, w1) = get_rl lib w;
          (finished, w2) = rl_call (ringleader_init_finished lib rl) w1
      in if finished
         then let (cs, w3) = rl_call (completions lib) w2
              in bind_res (run_completions lib cs w3) (\<lambda>w4.
                 bind_res (tick_requests lib a w4) (\<lambda>w5. Inr (rl, w5)))
         else Inr (None, w2))"

section \<open>The operations of the port\<close>

definition ringleader_tcp_init :: "'o ringleader \<Rightarrow> nat \<Rightarrow> 'o rworld \<Rightarrow> (int \<times> 'o rworld) res" where
  "ringleader_tcp_init lib a w =
     bind_res (ringleader_tcp_tick lib a w) (\<lambda>(_, w1). Inr (error_code SUCC, w1))"

text \<open>
  What \<^verbatim>\<open>pipeline_connect\<close> calls: the tick then takes the port for its own struct, and reads
  and writes through it.
\<close>

fun ringleader_init_cb :: "'o ringleader \<Rightarrow> 'o rworld init_t" where
  "ringleader_init_cb lib (Device_Obj a) w = ringleader_tcp_init lib a w"
| "ringleader_init_cb lib (Source_Obj flag) w = Inl Type_Confusion"
| "ringleader_init_cb lib (Sink_Obj flag) w = Inl Type_Confusion"

definition ringleader_tcp_cleanup :: "'o rworld cleanup_t" where
  "ringleader_tcp_cleanup x w = Inr w"

definition ringleader_tcp_has_more :: "'o ringleader \<Rightarrow> 'o rworld has_more_t" where
  "ringleader_tcp_has_more lib opq w =
     (case opq of
        None \<Rightarrow> Inl Assert_Failed
      | Some a \<Rightarrow>
          bind_res (ringleader_tcp_tick lib a w) (\<lambda>(_, w1).
          bind_res (rl_at a w1) (\<lambda>rl. Inr (if ready_head rl \<noteq> ready_tail rl then 1 else 0, w1))))"

definition ringleader_tcp_read_byte :: "'o rworld read_byte_t" where
  "ringleader_tcp_read_byte opq w =
     (case opq of
        None \<Rightarrow> Inl Assert_Failed
      | Some a \<Rightarrow>
          bind_res (rl_at a w) (\<lambda>rl.
          bind_res (arr_get (ready rl) (ready_tail rl)) (\<lambda>b.
            Inr (b, rl_store a (rl\<lparr>ready_tail := (ready_tail rl + 1) mod READY_SIZE\<rparr>) w))))"

definition ringleader_tcp_route_to ::
  "('x, 's, 'c) mavlink_lib \<Rightarrow> 'o ringleader \<Rightarrow> ('o rworld, 'x, 's) route_t" where
  "ringleader_tcp_route_to mav lib opq m w =
     (case opq of
        None \<Rightarrow> Inl Assert_Failed
      | Some a \<Rightarrow>
          bind_res (ringleader_tcp_tick lib a w) (\<lambda>(rl, w1).
          bind_res (rl_at a w1) (\<lambda>mavrl.
            if rl = None \<or> rl_clientfd mavrl \<le> 0 then Inr (0, w1)
            else let (p, w2) = rl_call (rl_malloc lib) w1
                 in case p of
                      None \<Rightarrow> Inr (ERR_NO_MEM lib, w2)
                    | Some d \<Rightarrow>
                        let frame = mavlink_msg_to_send_buffer mav (msg m)
                        in bind_res (write_front (replicate 280 0) frame) (\<lambda>buf.
                           let data = \<lparr>ps_mavrl = a, ps_arena = None, ps_buffer = buf, ps_buffer_size = length frame\<rparr>;
                               w3 = w2\<lparr>sends := (sends w2)(d := Some data)\<rparr>;
                               (err, w4) = rl_call (request_send_arena lib d MAVLINK_MAX_PACKET_SIZE) w3
                           in bind_res (ringleader_tcp_tick lib a w4) (\<lambda>(_, w5). Inr (err, w5))))))"

text \<open>The hook sets the source's callbacks twice where the sink's were meant.\<close>

definition hook_ringleader_tcp ::
  "('x, 's, 'c) mavlink_lib \<Rightarrow> 'o ringleader \<Rightarrow> u8 list \<Rightarrow> int \<Rightarrow> nat \<Rightarrow> nat
     \<Rightarrow> ('o rworld, 'x, 's) pipeline_t \<Rightarrow> 'o rworld
     \<Rightarrow> (int \<times> ('o rworld, 'x, 's) pipeline_t \<times> 'o rworld) res" where
  "hook_ringleader_tcp mav lib garbage port source_id sink_type p w =
     (let (r, w1) = rl_call (rl_malloc lib) w
      in case r of
           None \<Rightarrow> Inr (error_code SEC_GATEWAY_NO_MEMORY, p, w1)
         | Some a \<Rightarrow>
             let (r2, w2) = rl_call (rl_malloc lib) w1
             in if r2 = None then Inr (error_code SEC_GATEWAY_NO_MEMORY, p, w2)
                else let w3 = rl_store a \<lparr>flag_arena = False, flag_socket = False, flag_bind_listen = False,
                           rl_port = port, rl_arena = None, rl_sockfd = -1, rl_clientfd = -1,
                           arena_client_sockaddr = None, arena_client_socklen = None,
                           arena_packets = replicate MAVLINK_RECV_PACKET_DEPTH None, ready = garbage,
                           ready_head = 0, ready_tail = 0\<rparr> w2
                     in bind_res (source_allocate p source_id (\<lambda>src. src\<lparr>src_opaque := Some a,
                            src_init := Some (ringleader_init_cb lib), src_cleanup := Some ringleader_tcp_cleanup,
                            src_has_more := Some (ringleader_tcp_has_more lib),
                            src_read_byte := Some ringleader_tcp_read_byte\<rparr>)) (\<lambda>p1.
                        bind_res (sink_allocate p1 sink_type (\<lambda>snk. snk\<lparr>snk_opaque := Some a,
                            snk_route := Some (ringleader_tcp_route_to mav lib)\<rparr>)) (\<lambda>p2.
                          Inr (error_code SUCC, p2, w3))))"

section \<open>The ring of received bytes\<close>

definition ready_wf :: "mavlink_rl \<Rightarrow> bool" where
  "ready_wf rl \<longleftrightarrow> length (ready rl) = READY_SIZE \<and> ready_head rl < READY_SIZE \<and> ready_tail rl < READY_SIZE"

definition ready_count :: "mavlink_rl \<Rightarrow> nat" where
  "ready_count rl = (if ready_tail rl \<le> ready_head rl then ready_head rl - ready_tail rl
     else ready_head rl + READY_SIZE - ready_tail rl)"

definition ready_bytes :: "mavlink_rl \<Rightarrow> u8 list" where
  "ready_bytes rl = window (ready rl) READY_SIZE (ready_tail rl) (ready_count rl)"

lemma READY_SIZE_pos [simp]: "0 < READY_SIZE"
  by (simp add: READY_SIZE_def MAVLINK_MAX_PACKET_SIZE_def MAVLINK_RECV_PACKET_DEPTH_def)

lemma window_write_at:
  assumes "t < m" "length mem = m" "n + length bs < m" "h = (t + n) mod m" "h + length bs \<le> m"
  shows "window (take h mem @ bs @ drop (h + length bs) mem) m t (n + length bs) = window mem m t n @ bs"
proof (rule nth_equalityI)
  fix i assume "i < length (window (take h mem @ bs @ drop (h + length bs) mem) m t (n + length bs))"
  then have i: "i < n + length bs" by (simp add: window_def)
  then have im: "(t + i) mod m = (if t + i < m then t + i else t + i - m)"
    using assms(1,3) by (intro add_mod_cases) auto
  have hm: "h = (if t + n < m then t + n else t + n - m)"
    using assms(1,3,4) add_mod_cases [of t m n] by simp
  show "window (take h mem @ bs @ drop (h + length bs) mem) m t (n + length bs) ! i = (window mem m t n @ bs) ! i"
    using i im hm assms by (auto simp: window_def nth_append split: if_splits)
qed (simp add: window_def)

lemma ready_copy_ok:
  assumes wf: "ready_wf rl" and k: "0 < k" "k \<le> READY_SIZE - ready_head rl" "ready_count rl + k < READY_SIZE"
    and p: "k \<le> length packet"
  shows "\<exists>rl'. ready_copy packet k rl = Inr rl' \<and> ready_wf rl' \<and> ready_bytes rl' = ready_bytes rl @ take k packet
    \<and> ready_count rl' = ready_count rl + k \<and> ready_head rl' = (ready_head rl + k) mod READY_SIZE
    \<and> rl'\<lparr>ready := ready rl, ready_head := ready_head rl\<rparr> = rl"
proof -
  let ?h = "ready_head rl" and ?t = "ready_tail rl" and ?n = "(ready_head rl + k) mod READY_SIZE"
  have b: "length (ready rl) = READY_SIZE" "?h < READY_SIZE" "?t < READY_SIZE"
    using wf by (simp_all add: ready_wf_def)
  have n: "?n = (if ?h + k < READY_SIZE then ?h + k else 0)"
    using k b by (auto simp: add_mod_cases)
  have count: "ready_count rl = (if ?t \<le> ?h then ?h - ?t else ?h + READY_SIZE - ?t)"
    by (simp add: ready_count_def)
  have no: "\<not> ready_overwrites ?h ?t ?n"
    using k b n count by (auto simp: ready_overwrites_def split: if_splits)
  let ?rl = "rl\<lparr>ready := take ?h (ready rl) @ take k packet @ drop (?h + k) (ready rl), ready_head := ?n\<rparr>"
  have copy: "ready_copy packet k rl = Inr ?rl"
    using no p k b by (simp add: ready_copy_def write_at_def Let_def min_def)
  have count': "ready_count ?rl = ready_count rl + k"
    using k b n count by (auto simp: ready_count_def split: if_splits)
  have "?h = (?t + ready_count rl) mod READY_SIZE"
    using b count by (auto simp: mod_if)
  moreover have "length (take k packet) = k" using p by simp
  ultimately have "window (take ?h (ready rl) @ take k packet @ drop (?h + k) (ready rl)) READY_SIZE ?t
      (ready_count rl + k) = window (ready rl) READY_SIZE ?t (ready_count rl) @ take k packet"
    using window_write_at [OF b(3,1), of "ready_count rl" "take k packet" ?h] k b by simp
  then have "ready_bytes ?rl = ready_bytes rl @ take k packet"
    unfolding ready_bytes_def count' by simp
  moreover have "ready_wf ?rl" using b k p by (simp add: ready_wf_def)
  ultimately show ?thesis using copy count' by simp
qed

text \<open>
  A received block, given that there is room. The second copy starts at the beginning of the
  packet again.
\<close>

lemma ready_loop_ok:
  assumes wf: "ready_wf rl" and room: "ready_count rl + n < READY_SIZE" and p: "n \<le> length packet"
  shows "\<exists>rl'. ready_loop packet n rl = Inr rl' \<and> ready_wf rl'
    \<and> ready_bytes rl' = ready_bytes rl @ take (min n (READY_SIZE - ready_head rl)) packet
        @ take (n - (READY_SIZE - ready_head rl)) packet
    \<and> rl'\<lparr>ready := ready rl, ready_head := ready_head rl\<rparr> = rl"
proof (cases "n = 0")
  case True
  with wf show ?thesis by (simp add: ready_loop.simps)
next
  case False
  let ?k = "min n (READY_SIZE - ready_head rl)"
  have h: "ready_head rl < READY_SIZE" using wf by (simp add: ready_wf_def)
  have "0 < ?k" "?k \<le> READY_SIZE - ready_head rl" "ready_count rl + ?k < READY_SIZE" "?k \<le> length packet"
    using False h room p by auto
  from ready_copy_ok [OF wf this] obtain rl1 where
    rl1: "ready_copy packet ?k rl = Inr rl1" "ready_wf rl1" "ready_bytes rl1 = ready_bytes rl @ take ?k packet"
      "ready_count rl1 = ready_count rl + ?k" "ready_head rl1 = (ready_head rl + ?k) mod READY_SIZE"
      "rl1\<lparr>ready := ready rl, ready_head := ready_head rl\<rparr> = rl" by blast
  have loop: "ready_loop packet n rl = ready_loop packet (n - ?k) rl1"
    using False h rl1(1) by (subst ready_loop.simps) simp
  show ?thesis
  proof (cases "n \<le> READY_SIZE - ready_head rl")
    case True
    then have "ready_loop packet n rl = Inr rl1" using loop by (simp add: ready_loop.simps min_def)
    with rl1 True show ?thesis by (auto simp: min_def)
  next
    case wrap: False
    let ?r = "n - (READY_SIZE - ready_head rl)"
    have k: "?k = READY_SIZE - ready_head rl" using wrap by simp
    have h1: "ready_head rl1 = 0" using rl1(5) h k by simp
    have "0 < ?r" "?r \<le> READY_SIZE - ready_head rl1" "ready_count rl1 + ?r < READY_SIZE" "?r \<le> length packet"
      using wrap h1 rl1(4) room p k by auto
    from ready_copy_ok [OF rl1(2) this] obtain rl2 where
      rl2: "ready_copy packet ?r rl1 = Inr rl2" "ready_wf rl2" "ready_bytes rl2 = ready_bytes rl1 @ take ?r packet"
        "rl2\<lparr>ready := ready rl1, ready_head := ready_head rl1\<rparr> = rl1" by blast
    have r: "min ?r READY_SIZE = ?r" using room by simp
    have "ready_loop packet ?r rl1 = Inr rl2"
      using wrap h1 rl2(1) by (subst ready_loop.simps) (simp add: r ready_loop.simps [of packet 0])
    moreover have "rl2\<lparr>ready := ready rl, ready_head := ready_head rl\<rparr> = rl"
      using rl1(6) rl2(4) by (cases rl; cases rl1; cases rl2) simp
    ultimately show ?thesis using loop k rl1(3) rl2 by simp
  qed
qed

section \<open>The idle port as a source of bytes\<close>

text \<open>Listening, with no completion to handle: a tick then changes nothing.\<close>

definition ringleader_idle :: "'o ringleader \<Rightarrow> nat \<Rightarrow> 'o rworld \<Rightarrow> bool" where
  "ringleader_idle lib a w \<longleftrightarrow> (\<exists>rl. rl_heap w a = Some rl \<and> ready_wf rl \<and> rl_arena rl \<noteq> None \<and> flag_bind_listen rl)
     \<and> rl_ready w \<noteq> None \<and> ringleader_init_finished lib (rl_ready w) (rsys w) = (True, rsys w)
     \<and> completions lib (rsys w) = ([], rsys w)"

definition ringleader_pending :: "nat \<Rightarrow> 'o rworld \<Rightarrow> u8 list" where
  "ringleader_pending a w = (case rl_heap w a of None \<Rightarrow> [] | Some rl \<Rightarrow> ready_bytes rl)"

lemma tick_idle:
  assumes "ringleader_idle lib a w" shows "ringleader_tcp_tick lib a w = Inr (rl_ready w, w)"
  using assms
  by (auto simp: ringleader_idle_def ringleader_tcp_tick_def get_rl_def rl_call_def rl_at_def tick_requests_def)

lemma ready_bytes_Nil_iff: "ready_wf rl \<Longrightarrow> ready_bytes rl = [] \<longleftrightarrow> ready_head rl = ready_tail rl"
  by (auto simp: ready_bytes_def window_def ready_count_def ready_wf_def)

lemma ready_bytes_Cons:
  assumes "ready_wf rl" "ready_bytes rl = b # bs"
  shows "ready rl ! ready_tail rl = b"
    "ready_bytes (rl\<lparr>ready_tail := (ready_tail rl + 1) mod READY_SIZE\<rparr>) = bs"
proof -
  have wf: "ready_head rl < READY_SIZE" "ready_tail rl < READY_SIZE"
    using assms(1) by (simp_all add: ready_wf_def)
  let ?rl = "rl\<lparr>ready_tail := (ready_tail rl + 1) mod READY_SIZE\<rparr>"
  have "ready_head rl \<noteq> ready_tail rl" using assms ready_bytes_Nil_iff by force
  then have "ready_count rl = Suc (ready_count ?rl)"
    using wf by (auto simp: ready_count_def mod_Suc)
  then have "ready_bytes rl = ready rl ! ready_tail rl # ready_bytes ?rl"
    using wf by (simp add: ready_bytes_def window_Cons)
  then show "ready rl ! ready_tail rl = b" "ready_bytes ?rl = bs" using assms(2) by simp_all
qed

interpretation ringleader_src: byte_source "ringleader_tcp_has_more lib" ringleader_tcp_read_byte "Some a"
  "ringleader_idle lib a" "ringleader_pending a"
  for lib :: "'o ringleader" and a
proof unfold_locales
  fix w :: "'o rworld"
  assume idle: "ringleader_idle lib a w"
  then obtain rl where rl: "rl_heap w a = Some rl" "ready_wf rl" by (auto simp: ringleader_idle_def)
  show "\<exists>v w'. ringleader_tcp_has_more lib (Some a) w = Inr (v, w') \<and> ringleader_idle lib a w'
      \<and> ringleader_pending a w' = ringleader_pending a w \<and> (v = 0 \<longleftrightarrow> ringleader_pending a w = [])"
    using idle rl ready_bytes_Nil_iff [OF rl(2)]
    by (simp add: ringleader_tcp_has_more_def tick_idle rl_at_def ringleader_pending_def)
next
  fix w w1 :: "'o rworld" and b bs v
  assume idle: "ringleader_idle lib a w" and p: "ringleader_pending a w = b # bs"
    and h: "ringleader_tcp_has_more lib (Some a) w = Inr (v, w1)"
  from idle obtain rl where rl: "rl_heap w a = Some rl" "ready_wf rl" by (auto simp: ringleader_idle_def)
  have w1: "w1 = w" using h rl idle by (simp add: ringleader_tcp_has_more_def tick_idle rl_at_def)
  have bytes: "ready_bytes rl = b # bs" using p rl by (simp add: ringleader_pending_def)
  note nx = ready_bytes_Cons [OF rl(2) bytes]
  let ?w = "rl_store a (rl\<lparr>ready_tail := (ready_tail rl + 1) mod READY_SIZE\<rparr>) w"
  have "ringleader_tcp_read_byte (Some a) w = Inr (b, ?w)"
    using rl nx(1) by (simp add: ringleader_tcp_read_byte_def rl_at_def ready_wf_def)
  moreover have "ringleader_idle lib a ?w" using idle rl by (auto simp: ringleader_idle_def ready_wf_def)
  ultimately show "\<exists>w'. ringleader_tcp_read_byte (Some a) w1 = Inr (b, w') \<and> ringleader_idle lib a w'
      \<and> ringleader_pending a w' = bs"
    using w1 nx(2) by (simp add: ringleader_pending_def)
qed

text \<open>A receive that fails, or reports the end of the connection, is not issued again.\<close>

lemma recv_cb_ends: "rl_heap w a = Some rl \<Longrightarrow> r \<le> 0 \<Longrightarrow> ringleader_tcp_recv_cb lib a index r packet w = Inr w"
  by (simp add: ringleader_tcp_recv_cb_def rl_at_def)

section \<open>Properties\<close>

text \<open>
  C35. A received packet. With room in the ring, a packet of \<open>r\<close> bytes is appended to what is
  pending, the next receive is requested, and an idle port then hands everything out. A
  packet that crosses the end of the ring arrives damaged: its first bytes stand again
  where the bytes after the end belong.
\<close>

theorem ringleader_receives:
  assumes "rl_heap w a = Some rl" and "ready_wf rl" and "index < length (arena_packets rl)"
    and "0 < r" and "ready_count rl + nat r < READY_SIZE" and "nat r \<le> length packet"
  shows "\<exists>w1. ringleader_tcp_recv_cb lib a index r packet w = Inr w1
    \<and> rsys w1 = submit lib (prep lib (Req_Recv a index (rl_clientfd rl) (arena_packets rl ! index)) (rsys w))
    \<and> ringleader_pending a w1 = ringleader_pending a w
        @ (if ready_head rl + nat r \<le> READY_SIZE then take (nat r) packet
           else take (READY_SIZE - ready_head rl) packet @ take (ready_head rl + nat r - READY_SIZE) packet)
    \<and> (ringleader_idle lib a w1 \<longrightarrow> (\<exists>w2. read_n (ringleader_tcp_has_more lib) ringleader_tcp_read_byte (Some a)
        (length (ringleader_pending a w1)) w1 = Inr (ringleader_pending a w1, w2)))"
proof -
  obtain rl1 where rl1: "ready_loop packet (nat r) rl = Inr rl1" "ready_wf rl1"
      "ready_bytes rl1 = ready_bytes rl @ take (min (nat r) (READY_SIZE - ready_head rl)) packet
        @ take (nat r - (READY_SIZE - ready_head rl)) packet"
      "rl1\<lparr>ready := ready rl, ready_head := ready_head rl\<rparr> = rl"
    using ready_loop_ok [OF assms(2,5,6)] by blast
  have same: "rl_clientfd rl1 = rl_clientfd rl \<and> arena_packets rl1 = arena_packets rl"
    using rl1(4) by (cases rl; cases rl1) simp
  let ?w1 = "rl_do (\<lambda>s. submit lib (prep lib (Req_Recv a index (rl_clientfd rl) (arena_packets rl ! index)) s))
      (rl_store a rl1 w)"
  have run: "ringleader_tcp_recv_cb lib a index r packet w = Inr ?w1"
    using assms rl1(1) same by (simp add: ringleader_tcp_recv_cb_def rl_at_def)
  have head: "ready_head rl < READY_SIZE" using assms(2) by (simp add: ready_wf_def)
  have "take (min (nat r) (READY_SIZE - ready_head rl)) packet @ take (nat r - (READY_SIZE - ready_head rl)) packet
      = (if ready_head rl + nat r \<le> READY_SIZE then take (nat r) packet
         else take (READY_SIZE - ready_head rl) packet @ take (ready_head rl + nat r - READY_SIZE) packet)"
  proof (cases "ready_head rl + nat r \<le> READY_SIZE")
    case False
    then have "nat r - (READY_SIZE - ready_head rl) = ready_head rl + nat r - READY_SIZE" using head by linarith
    with False show ?thesis by (simp add: min_def)
  qed (simp add: min_def)
  then have pending: "ringleader_pending a ?w1 = ringleader_pending a w
      @ (if ready_head rl + nat r \<le> READY_SIZE then take (nat r) packet
         else take (READY_SIZE - ready_head rl) packet @ take (ready_head rl + nat r - READY_SIZE) packet)"
    using rl1(3) assms(1) by (simp add: ringleader_pending_def rl_do_def)
  have "ringleader_idle lib a ?w1 \<longrightarrow> (\<exists>w2. read_n (ringleader_tcp_has_more lib) ringleader_tcp_read_byte (Some a)
      (length (ringleader_pending a ?w1)) ?w1 = Inr (ringleader_pending a ?w1, w2))"
    using ringleader_src.drained [of lib a ?w1] by blast
  moreover have "rsys ?w1 = submit lib (prep lib
      (Req_Recv a index (rl_clientfd rl) (arena_packets rl ! index)) (rsys w))" by (simp add: rl_do_def)
  ultimately show ?thesis using run pending by blast
qed

definition demo_ringleader :: "unit ringleader" where
  "demo_ringleader = \<lparr>ringleader_factory = (\<lambda>s. (Some 1, s)), ringleader_init_finished = (\<lambda>r s. (True, s)),
     completions = (\<lambda>s. ([], s)), ringleader_init_arena = (\<lambda>s. ((0, Some 1), s)),
     ringleader_arena_push = (\<lambda>arena n s. (Some 1, s)), ringleader_free_arena = (\<lambda>arena s. (0, s)),
     request_recv_arena = (\<lambda>a n s. (0, s)), request_send_arena = (\<lambda>d n s. (0, s)),
     prep = (\<lambda>r s. s), submit = (\<lambda>s. s), rl_malloc = (\<lambda>s. (Some 1, s)), ERR_NO_MEM = 1\<rparr>"

definition demo_rl :: mavlink_rl where
  "demo_rl = \<lparr>flag_arena = True, flag_socket = True, flag_bind_listen = True, rl_port = 12001, rl_arena = Some 1,
     rl_sockfd = 3, rl_clientfd = 4, arena_client_sockaddr = Some 1, arena_client_socklen = Some 1,
     arena_packets = replicate MAVLINK_RECV_PACKET_DEPTH (Some 1), ready = replicate READY_SIZE 0,
     ready_head = READY_SIZE - 2, ready_tail = READY_SIZE - 2\<rparr>"

theorem ringleader_receives_witness:
  "\<exists>w1. ringleader_tcp_recv_cb demo_ringleader 7 0 4 ([1, 2, 3, 4] @ replicate 508 0)
      \<lparr>rl_heap = [7 \<mapsto> demo_rl], sends = Map.empty, rl_made = Some 1, rl_ready = Some 1, rsys = ()\<rparr> = Inr w1
    \<and> ringleader_pending 7 w1 = [1, 2, 1, 2]"
proof -
  let ?w = "\<lparr>rl_heap = [7 \<mapsto> demo_rl], sends = Map.empty, rl_made = Some 1, rl_ready = Some 1, rsys = ()\<rparr>"
  have n: "READY_SIZE = 8192"
    by (simp add: READY_SIZE_def MAVLINK_MAX_PACKET_SIZE_def MAVLINK_RECV_PACKET_DEPTH_def)
  have "rl_heap ?w 7 = Some demo_rl" "ready_wf demo_rl" "0 < length (arena_packets demo_rl)" "(0 :: int) < 4"
    "ready_count demo_rl + nat 4 < READY_SIZE" "nat 4 \<le> length ([1, 2, 3, 4] @ replicate 508 (0 :: u8))"
    by (simp_all add: demo_rl_def ready_wf_def ready_count_def n MAVLINK_RECV_PACKET_DEPTH_def)
  moreover have "ringleader_pending 7 ?w = []"
    by (simp add: ringleader_pending_def ready_bytes_def ready_count_def demo_rl_def window_def)
  ultimately show ?thesis
    using ringleader_receives [of ?w 7 demo_rl 0 4 "[1, 2, 3, 4] @ replicate 508 0" demo_ringleader]
    by (auto simp: demo_rl_def n)
qed

end
