(* ===== verification/Log_Ringleader.thy ===== *)
theory Log_Ringleader
  imports Source_Ringleader
begin

text \<open>
  The log output of \<^verbatim>\<open>lib/log_ringleader.c\<close>. On CertiKOS a message is printed twice: to the
  console of CertiKOS, and through a writer over the ring to the standard output of the
  untrusted Linux. The C library, the writer and the promises of the ring are parameters; \<open>'m\<close>
  is a format with its arguments. \<open>None\<close> is a print that does not return.
\<close>

section \<open>The library\<close>

text \<open>
  \<open>vfprintf_stdout\<close> prints and returns the length or a negative number, \<open>text_of\<close> is the text
  \<^verbatim>\<open>vsnprintf\<close> formats, \<open>stack_byte\<close> what an uninitialised array holds. A write gives a promise
  or \<^verbatim>\<open>RINGLEADER_PROMISE_INVALID\<close>, here \<open>None\<close>; a promise that is never kept is awaited for ever.
\<close>

record ('o, 'm) log_lib =
  vfprintf_stdout :: "'m \<Rightarrow> 'o \<Rightarrow> int \<times> 'o"
  text_of :: "'m \<Rightarrow> u8 list"
  stack_byte :: "nat \<Rightarrow> u8"
  ringleader_writer_factory :: "nat option \<Rightarrow> int \<Rightarrow> nat \<Rightarrow> nat \<Rightarrow> nat \<Rightarrow> 'o \<Rightarrow> nat option \<times> 'o"
  ringleader_peek_cqe :: "nat option \<Rightarrow> 'o \<Rightarrow> 'o"
  ringleader_writer_write :: "nat option \<Rightarrow> nat option \<Rightarrow> u8 list \<Rightarrow> 'o \<Rightarrow> nat option \<times> 'o"
  ringleader_promise_await :: "nat option \<Rightarrow> nat \<Rightarrow> 'o \<Rightarrow> 'o option"

text \<open>The static variable of \<^verbatim>\<open>ringleader_log_vprintf\<close> next to those of \<^verbatim>\<open>get_rl\<close>.\<close>

record 'o log_world =
  ring :: "'o rworld"
  log_writer :: "nat option"

section \<open>Printing\<close>

text \<open>At most \<open>n\<close> bytes are written, the last of them zero.\<close>

definition vsnprintf :: "u8 list \<Rightarrow> nat \<Rightarrow> u8 list \<Rightarrow> u8 list res" where
  "vsnprintf buf n text = (if n = 0 then Inr buf else write_front buf (take (n - 1) text @ [0]))"

text \<open>
  The array of \<^verbatim>\<open>len + 1\<close> bytes on the stack. A negative length makes it empty or of negative
  size, and the write to \<^verbatim>\<open>buffer[len]\<close> misses it.
\<close>

definition log_buffer :: "('o, 'm) log_lib \<Rightarrow> int \<Rightarrow> 'm \<Rightarrow> u8 list res" where
  "log_buffer ll chars m =
     (if chars < 0 then Inl Out_Of_Bounds
      else bind_res (vsnprintf (map (stack_byte ll) [0 ..< nat chars + 1]) (nat chars + 1) (text_of ll m))
             (\<lambda>buffer. arr_put buffer (nat chars) 0))"

definition ringleader_log_vprintf ::
  "'o ringleader \<Rightarrow> ('o, 'm) log_lib \<Rightarrow> int \<Rightarrow> int \<Rightarrow> 'm \<Rightarrow> 'o log_world \<Rightarrow> 'o log_world res option" where
  "ringleader_log_vprintf lib ll fd chars m w =
     (let (rl, w1) = get_rl lib (ring w);
          (rw, w2) = (if log_writer w = None then rl_call (ringleader_writer_factory ll rl fd 4096 65536 4096) w1
                      else (log_writer w, w1));
          w3 = rl_do (ringleader_peek_cqe ll rl) w2
      in case log_buffer ll chars m of
           Inl f \<Rightarrow> Some (Inl f)
         | Inr buffer \<Rightarrow>
             let (p, w4) = rl_call (ringleader_writer_write ll rl rw buffer) w3
             in case p of
                  None \<Rightarrow> Some (Inr \<lparr>ring = w4, log_writer = rw\<rparr>)
                | Some q \<Rightarrow>
                    (case ringleader_promise_await ll rl q (rsys w4) of
                       None \<Rightarrow> None
                     | Some s \<Rightarrow> Some (Inr \<lparr>ring = w4\<lparr>rsys := s\<rparr>, log_writer = rw\<rparr>)))"

definition pipeline_log_printf ::
  "bool \<Rightarrow> 'o ringleader \<Rightarrow> ('o, 'm) log_lib \<Rightarrow> 'm \<Rightarrow> 'o log_world \<Rightarrow> 'o log_world res option" where
  "pipeline_log_printf certikos lib ll m w =
     (let (chars, w1) = rl_call (vfprintf_stdout ll m) (ring w)
      in if certikos then ringleader_log_vprintf lib ll 1 chars m (w\<lparr>ring := w1\<rparr>)
         else Some (Inr (w\<lparr>ring := w1\<rparr>)))"

text \<open>A sequence of messages.\<close>

fun log_messages ::
  "bool \<Rightarrow> 'o ringleader \<Rightarrow> ('o, 'm) log_lib \<Rightarrow> 'm list \<Rightarrow> 'o log_world \<Rightarrow> 'o log_world res option" where
  "log_messages certikos lib ll [] w = Some (Inr w)"
| "log_messages certikos lib ll (m # ms) w =
     bind_run (pipeline_log_printf certikos lib ll m w) (log_messages certikos lib ll ms)"

section \<open>What is written\<close>

lemma log_buffer_exact:
  assumes "chars = int (length (text_of ll m))"
  shows "log_buffer ll chars m = Inr (text_of ll m @ [0])"
  using assms by (simp add: log_buffer_def vsnprintf_def arr_put_def list_update_append)

lemma log_buffer_negative: "chars < 0 \<Longrightarrow> log_buffer ll chars m = Inl Out_Of_Bounds"
  by (simp add: log_buffer_def)

lemma get_rl_ready: "rl_ready w = Some rl \<Longrightarrow> get_rl lib w = (Some rl, w)"
  by (simp add: get_rl_def)

text \<open>The system's view of one message: a print, a look at the ring, a write, a wait.\<close>

definition echo :: "('o, 'm) log_lib \<Rightarrow> nat \<Rightarrow> nat \<Rightarrow> 'm \<Rightarrow> 'o \<Rightarrow> 'o option" where
  "echo ll rl rw m s =
     (let (chars, s1) = vfprintf_stdout ll m s;
          (p, s2) = ringleader_writer_write ll (Some rl) (Some rw) (text_of ll m @ [0]) (ringleader_peek_cqe ll (Some rl) s1)
      in case p of None \<Rightarrow> Some s2 | Some q \<Rightarrow> ringleader_promise_await ll (Some rl) q s2)"

fun echo_all :: "('o, 'm) log_lib \<Rightarrow> nat \<Rightarrow> nat \<Rightarrow> 'm list \<Rightarrow> 'o \<Rightarrow> 'o option" where
  "echo_all ll rl rw [] s = Some s"
| "echo_all ll rl rw (m # ms) s = (case echo ll rl rw m s of None \<Rightarrow> None | Some s' \<Rightarrow> echo_all ll rl rw ms s')"

lemma log_printf_echoes:
  assumes "rl_ready (ring w) = Some rl" "log_writer w = Some rw"
    and "\<forall>s. fst (vfprintf_stdout ll m s) = int (length (text_of ll m))"
  shows "pipeline_log_printf True lib ll m w =
    map_option (\<lambda>s. Inr (w\<lparr>ring := (ring w)\<lparr>rsys := s\<rparr>\<rparr>)) (echo ll rl rw m (rsys (ring w)))"
proof -
  obtain s1 where s1: "vfprintf_stdout ll m (rsys (ring w)) = (int (length (text_of ll m)), s1)"
    using assms(3) by (metis prod.collapse)
  show ?thesis
    using assms(1,2) s1
    by (cases w)
       (auto simp: pipeline_log_printf_def ringleader_log_vprintf_def get_rl_ready log_buffer_exact rl_call_def rl_do_def
          echo_def Let_def split: prod.splits option.splits)
qed

section \<open>Property\<close>

text \<open>
  C29. Log messages on CertiKOS. With the ring ready and the writer made, and prints that
  return the length of their text, any sequence of messages leads to exactly these calls
  of the system, in this order: for each message one print on the console and one write by
  the one writer, of the text and a zero byte, whose promise is awaited. Nothing else of the
  program's state changes. If a write's promise is never kept, the sequence, and with it
  the main loop, does not return; if it is an invalid one, the message is dropped.
\<close>

theorem log_messages_echo:
  assumes "rl_ready (ring w) = Some rl" and "log_writer w = Some rw"
    and "\<forall>m s. fst (vfprintf_stdout ll m s) = int (length (text_of ll m))"
  shows "log_messages True lib ll ms w =
    map_option (\<lambda>s. Inr (w\<lparr>ring := (ring w)\<lparr>rsys := s\<rparr>\<rparr>)) (echo_all ll rl rw ms (rsys (ring w)))"
  using assms(1,2)
proof (induction ms arbitrary: w)
  case (Cons m ms)
  have "pipeline_log_printf True lib ll m w =
      map_option (\<lambda>s. Inr (w\<lparr>ring := (ring w)\<lparr>rsys := s\<rparr>\<rparr>)) (echo ll rl rw m (rsys (ring w)))"
    using Cons.prems assms(3) by (intro log_printf_echoes) blast+
  then show ?case
    using Cons.IH [of "w\<lparr>ring := (ring w)\<lparr>rsys := s\<rparr>\<rparr>" for s] Cons.prems
    by (cases "echo ll rl rw m (rsys (ring w))") auto
qed simp

text \<open>A system that records the writes and keeps the promises below 2.\<close>

definition demo_log :: "(u8 list list, u8 list) log_lib" where
  "demo_log = \<lparr>vfprintf_stdout = (\<lambda>m s. (int (length m), s)), text_of = (\<lambda>m. m), stack_byte = (\<lambda>i. 0xAA),
     ringleader_writer_factory = (\<lambda>rl fd a b c s. (Some 9, s)), ringleader_peek_cqe = (\<lambda>rl s. s),
     ringleader_writer_write = (\<lambda>rl rw bs s. (Some (length s), s @ [bs])),
     ringleader_promise_await = (\<lambda>rl q s. if q < 2 then Some s else None)\<rparr>"

definition demo_log_ring :: "u8 list list ringleader" where
  "demo_log_ring = \<lparr>ringleader_factory = (\<lambda>s. (Some 1, s)), ringleader_init_finished = (\<lambda>r s. (s \<noteq> [], s)),
     completions = (\<lambda>s. ([], s)), ringleader_init_arena = (\<lambda>s. ((0, Some 1), s)),
     ringleader_arena_push = (\<lambda>arena n s. (Some 1, s)), ringleader_free_arena = (\<lambda>arena s. (0, s)),
     request_recv_arena = (\<lambda>a n s. (0, s)), request_send_arena = (\<lambda>d n s. (0, s)),
     prep = (\<lambda>r s. s), submit = (\<lambda>s. s), rl_malloc = (\<lambda>s. (Some 1, s)), ERR_NO_MEM = 1\<rparr>"

definition demo_log_world :: "nat option \<Rightarrow> nat option \<Rightarrow> u8 list list log_world" where
  "demo_log_world rl rw = \<lparr>ring = \<lparr>rl_heap = Map.empty, sends = Map.empty, rl_made = rl, rl_ready = rl, rsys = []\<rparr>,
     log_writer = rw\<rparr>"

theorem log_messages_echo_witness:
  "map_option (\<lambda>r. map_sum id (\<lambda>w. rsys (ring w)) r)
     (log_messages True demo_log_ring demo_log [[65], [66, 67]] (demo_log_world (Some 1) (Some 9))) = Some (Inr [[65, 0], [66, 67, 0]])
   \<and> log_messages True demo_log_ring demo_log [[65], [66, 67], [68]] (demo_log_world (Some 1) (Some 9)) = None"
proof -
  let ?w = "demo_log_world (Some 1) (Some 9)"
  have "rl_ready (ring ?w) = Some 1" "log_writer ?w = Some 9"
    "\<forall>m s. fst (vfprintf_stdout demo_log m s) = int (length (text_of demo_log m))"
    by (simp_all add: demo_log_world_def demo_log_def)
  note run = log_messages_echo [OF this, of demo_log_ring]
  show ?thesis
    unfolding run by (simp add: echo_def demo_log_def demo_log_world_def)
qed

text \<open>
  The first message may come before the ring is ready. Then the writer is made over no ring,
  and it is kept: later messages are written over the ring with this writer.
\<close>

lemma log_writer_without_ring:
  assumes "log_writer w = None" "get_rl lib ((ring w)\<lparr>rsys := s1\<rparr>) = (None, r1)"
    and "vfprintf_stdout ll m (rsys (ring w)) = (chars, s1)"
    and "pipeline_log_printf True lib ll m w = Some (Inr w')"
  shows "log_writer w' = fst (ringleader_writer_factory ll None 1 4096 65536 4096 (rsys r1))"
  using assms
  by (auto simp: pipeline_log_printf_def ringleader_log_vprintf_def rl_call_def Let_def
      split: prod.splits sum.splits option.splits)

lemma log_writer_kept:
  assumes "log_messages True lib ll ms w = Some (Inr w')" "log_writer w = Some rw"
  shows "log_writer w' = Some rw"
  using assms
proof (induction ms arbitrary: w)
  case (Cons m ms)
  then obtain w1 where w1: "pipeline_log_printf True lib ll m w = Some (Inr w1)"
      "log_messages True lib ll ms w1 = Some (Inr w')"
    by (auto simp: bind_run_eq_Some_Inr)
  have "log_writer w1 = Some rw"
    using w1(1) Cons.prems(2)
    by (auto simp: pipeline_log_printf_def ringleader_log_vprintf_def rl_call_def Let_def
        split: prod.splits sum.splits option.splits)
  with w1(2) Cons.IH show ?case by blast
qed simp

lemma log_negative_length:
  assumes "vfprintf_stdout ll m (rsys (ring w)) = (chars, s1)" "chars < 0"
  shows "pipeline_log_printf True lib ll m w = Some (Inl Out_Of_Bounds)"
  using assms by (simp add: pipeline_log_printf_def ringleader_log_vprintf_def rl_call_def log_buffer_negative Let_def
      split: prod.splits)

end
