(* ===== verification/Device_Ports.thy ===== *)
theory Device_Ports
  imports Source_Uart Source_Udp Source_Tcpout Source_Tcp
begin

text \<open>
  The ports of the Linux build side by side: their operations never use a struct at the
  wrong type and leave every other port's struct alone, through initialisation, use and
  cleanup; and what goes wrong when they are called on the wrong object.
\<close>

section \<open>Types of the structs\<close>

datatype device_kind = Uart_Kind | Udp_Kind | Tcpout_Kind | Tcp_Kind

fun kind_of :: "'a device \<Rightarrow> device_kind" where
  "kind_of (Uart u) = Uart_Kind"
| "kind_of (Udp u) = Udp_Kind"
| "kind_of (Tcpout t) = Tcpout_Kind"
| "kind_of (Tcp t) = Tcp_Kind"

definition keeps_types :: "nat \<Rightarrow> ('a, 'o) world \<Rightarrow> ('a, 'o) world \<Rightarrow> bool" where
  "keeps_types a w w' \<longleftrightarrow> (\<forall>b. b \<noteq> a \<longrightarrow> heap w' b = heap w b)
     \<and> map_option kind_of (heap w' a) = map_option kind_of (heap w a)"

text \<open>A result that is no misuse of a pointer, and keeps the types.\<close>

definition type_sound :: "nat \<Rightarrow> ('a, 'o) world \<Rightarrow> ('b \<times> ('a, 'o) world) res \<Rightarrow> bool" where
  "type_sound a w r \<longleftrightarrow> (case r of Inl f \<Rightarrow> f \<notin> {Type_Confusion, Use_After_Free, Null_Call}
     | Inr (v, w') \<Rightarrow> keeps_types a w w')"

lemma keeps_types_refl [simp]: "keeps_types a w w"
  by (simp add: keeps_types_def)

lemma keeps_types_trans: "keeps_types a w w1 \<Longrightarrow> keeps_types a w1 w2 \<Longrightarrow> keeps_types a w w2"
  by (simp add: keeps_types_def)

lemma keeps_types_put [simp]:
  "heap w a = Some d \<Longrightarrow> keeps_types a w (heap_put a e w1) \<longleftrightarrow> kind_of e = kind_of d \<and> (\<forall>b. b \<noteq> a \<longrightarrow> heap w1 b = heap w b)"
  by (auto simp: keeps_types_def)

lemma keeps_types_heap: "heap w1 = heap w2 \<Longrightarrow> keeps_types a w w1 = keeps_types a w w2"
  by (simp add: keeps_types_def)

lemma keeps_types_sys [simp]: "keeps_types a w (w1\<lparr>sys := s\<rparr>) = keeps_types a w w1"
  "keeps_types a w (sys_do f w1) = keeps_types a w w1"
  by (simp_all add: keeps_types_def)

lemma type_sound_simps [simp]:
  "type_sound a w (Inr (v, w')) = keeps_types a w w'"
  "type_sound a w (Inl Assert_Failed)" "type_sound a w (Inl Out_Of_Bounds)"
  by (simp_all add: type_sound_def)

lemma type_sound_bind:
  assumes "type_sound a w r" and "\<And>v w'. r = Inr (v, w') \<Longrightarrow> keeps_types a w w' \<Longrightarrow> type_sound a w (k (v, w'))"
  shows "type_sound a w (bind_res r k)"
  using assms by (cases r) (auto simp: type_sound_def)

text \<open>Reading from a buffer, filling one, and building a frame do not look at the heap.\<close>

lemma type_sound_buffers:
  "(\<And>x. type_sound a w (k x)) \<Longrightarrow> type_sound a w (bind_res (rx_take rx) k)"
  "(\<And>x. type_sound a w (j x)) \<Longrightarrow> type_sound a w (bind_res (rx_fill rx bs) j)"
  "(\<And>x. type_sound a w (h x)) \<Longrightarrow> type_sound a w (bind_res (write_front buf bs) h)"
  by (auto simp: rx_take_def rx_fill_def write_front_def arr_get_def)

lemma type_sound_ring:
  "(\<And>x. type_sound a w (k x)) \<Longrightarrow> type_sound a w (bind_res (ring_buffer_pop rb mem) k)"
  "(\<And>x. type_sound a w (j x)) \<Longrightarrow> type_sound a w (bind_res (ring_buffer_init mem n) j)"
  by (auto simp: ring_buffer_pop_def ring_buffer_init_def assert_that_def arr_get_def Let_def)

lemma copy_from_loop_faults: "copy_from_loop rb mem bs sz i = Inl f \<Longrightarrow> f = Out_Of_Bounds"
proof (induction rb mem bs sz i rule: copy_from_loop.induct)
  case (1 rb mem bs sz i)
  then show ?case
    by (subst (asm) copy_from_loop.simps) (auto simp: arr_get_def arr_put_def Let_def split: if_splits)
qed

lemma type_sound_copy:
  "(\<And>x. type_sound a w (k x)) \<Longrightarrow> type_sound a w (bind_res (ring_buffer_copy_from rb mem bs n) k)"
  by (cases "copy_from_loop rb mem bs n 0")
    (auto simp: ring_buffer_copy_from_def assert_that_def dest: copy_from_loop_faults)

lemma keeps_udp: "keeps_types a w w' \<Longrightarrow> heap w a = Some (Udp u) \<Longrightarrow> \<exists>u'. heap w' a = Some (Udp u')"
  unfolding keeps_types_def by (cases "heap w' a") (auto elim: kind_of.elims)

lemma keeps_uart: "keeps_types a w w' \<Longrightarrow> heap w a = Some (Uart u) \<Longrightarrow> \<exists>u'. heap w' a = Some (Uart u')"
  unfolding keeps_types_def by (cases "heap w' a") (auto elim: kind_of.elims)

lemma keeps_tcpout: "keeps_types a w w' \<Longrightarrow> heap w a = Some (Tcpout u) \<Longrightarrow> \<exists>u'. heap w' a = Some (Tcpout u')"
  unfolding keeps_types_def by (cases "heap w' a") (auto elim: kind_of.elims)

lemma keeps_tcp: "keeps_types a w w' \<Longrightarrow> heap w a = Some (Tcp u) \<Longrightarrow> \<exists>u'. heap w' a = Some (Tcp u')"
  unfolding keeps_types_def by (cases "heap w' a") (auto elim: kind_of.elims)

section \<open>The operations of each port\<close>

lemma udp_init_sound: "heap w a = Some (Udp u) \<Longrightarrow> type_sound a w (udp_init os a w)"
  by (auto simp: udp_init_def sys_step_def Let_def split: prod.splits)

text \<open>After an operation has opened its device, the struct is still there.\<close>

lemma udp_opened:
  assumes "heap w a = Some (Udp u)"
    and "\<And>rv w1 u1. keeps_types a w w1 \<Longrightarrow> heap w1 a = Some (Udp u1) \<Longrightarrow> type_sound a w (k (rv, w1))"
  shows "type_sound a w (bind_res (udp_init os a w) k)"
  using assms(2) keeps_udp [OF _ assms(1)] udp_init_sound [OF assms(1), of os]
  by (intro type_sound_bind) blast+

lemma udp_sound:
  assumes u: "heap w a = Some (Udp u)"
  shows "type_sound a w (udp_has_more os (Some a) w)" "type_sound a w (udp_read_byte os (Some a) w)"
    "type_sound a w (udp_route_to lib os (Some a) m w)" "type_sound a w (udp_server_pass os a w)"
proof -
  show "type_sound a w (udp_has_more os (Some a) w)"
    unfolding udp_has_more_def using u by (auto intro!: udp_opened [OF u])
  show "type_sound a w (udp_read_byte os (Some a) w)"
    unfolding udp_read_byte_def using u by (auto intro!: type_sound_buffers)
  show "type_sound a w (udp_route_to lib os (Some a) m w)"
    unfolding udp_route_to_def using u
    by (auto simp: sys_step_def Let_def keeps_types_def split: prod.splits intro!: udp_opened [OF u] type_sound_buffers)
  show "type_sound a w (udp_server_pass os a w)"
    unfolding udp_server_pass_def using u
    by (auto simp: sys_step_def Let_def split: prod.splits option.splits intro!: type_sound_buffers)
qed

lemma uart_init_sound: "heap w a = Some (Uart u) \<Longrightarrow> type_sound a w (uart_init os a w)"
  by (auto simp: uart_init_def uart_state_init_def bind_res_assoc sys_step_def Let_def split: prod.splits
      intro!: type_sound_ring)

lemma uart_opened:
  assumes "heap w a = Some (Uart u)"
    and "\<And>rv w1 u1. keeps_types a w w1 \<Longrightarrow> heap w1 a = Some (Uart u1) \<Longrightarrow> type_sound a w (k (rv, w1))"
  shows "type_sound a w (bind_res (uart_init os a w) k)"
  using assms(2) keeps_uart [OF _ assms(1)] uart_init_sound [OF assms(1), of os]
  by (intro type_sound_bind) blast+

lemma tcpout_init_sound: "heap w a = Some (Tcpout t) \<Longrightarrow> type_sound a w (tcpout_init os a w)"
  by (auto simp: tcpout_init_def sys_step_def Let_def split: prod.splits)

lemma tcpout_opened:
  assumes "heap w a = Some (Tcpout t)"
    and "\<And>rv w1 u1. keeps_types a w w1 \<Longrightarrow> heap w1 a = Some (Tcpout u1) \<Longrightarrow> type_sound a w (k (rv, w1))"
  shows "type_sound a w (bind_res (tcpout_init os a w) k)"
  using assms(2) keeps_tcpout [OF _ assms(1)] tcpout_init_sound [OF assms(1), of os]
  by (intro type_sound_bind) blast+

lemma tcpout_connect_heap: "tcpout_connect_to os t w = (rv, t1, w1) \<Longrightarrow> heap w1 = heap w"
  by (auto simp: tcpout_connect_to_def sys_step_def Let_def split: prod.splits if_splits)

lemma tcpout_receive_sound:
  assumes "heap w a = Some (Tcpout t)" "heap w1 = heap w"
  shows "type_sound a w (tcpout_receive os a t1 w1)"
  using assms by (auto simp: tcpout_receive_def sys_step_def split: prod.splits option.splits
      intro!: type_sound_buffers)

lemma tcpout_sound:
  assumes t: "heap w a = Some (Tcpout t)"
  shows "type_sound a w (tcpout_has_more os (Some a) w)" "type_sound a w (tcpout_read_byte os (Some a) w)"
    "type_sound a w (tcpout_route_to lib os (Some a) m w)" "type_sound a w (tcpout_server_pass os a w)"
proof -
  show "type_sound a w (tcpout_has_more os (Some a) w)"
    unfolding tcpout_has_more_def using t by (auto intro!: tcpout_opened [OF t])
  show "type_sound a w (tcpout_read_byte os (Some a) w)"
    unfolding tcpout_read_byte_def assert_that_def using t by (auto intro!: type_sound_buffers)
  show "type_sound a w (tcpout_route_to lib os (Some a) m w)"
    unfolding tcpout_route_to_def using t
    by (auto simp: sys_step_def Let_def keeps_types_def split: prod.splits intro!: tcpout_opened [OF t] type_sound_buffers)
  show "type_sound a w (tcpout_server_pass os a w)"
    unfolding tcpout_server_pass_def using t
    by (auto split: prod.splits intro!: tcpout_receive_sound [OF t] dest: tcpout_connect_heap)
qed

lemma uart_sound:
  assumes u: "heap w a = Some (Uart u)"
  shows "type_sound a w (uart_has_more os (Some a) w)" "type_sound a w (uart_read_byte os (Some a) w)"
    "type_sound a w (uart_route_to lib os (Some a) m w)" "type_sound a w (uart_server_step os a w)"
proof -
  show "type_sound a w (uart_has_more os (Some a) w)"
    unfolding uart_has_more_def using u by (auto intro!: uart_opened [OF u])
  show "type_sound a w (uart_read_byte os (Some a) w)"
    unfolding uart_read_byte_def using u by (auto intro!: type_sound_ring)
  show "type_sound a w (uart_route_to lib os (Some a) m w)"
    unfolding uart_route_to_def using u
    by (auto simp: sys_step_def Let_def keeps_types_def split: prod.splits intro!: uart_opened [OF u] type_sound_buffers)
  show "type_sound a w (uart_server_step os a w)"
    unfolding uart_server_step_def using u
    by (auto simp: sys_step_def Let_def split: prod.splits option.splits intro!: type_sound_copy)
qed

text \<open>The TCP server, in both builds.\<close>

lemma tcp_listen_heap: "tcp_listen_to os t w = (rv, t1, w1) \<Longrightarrow> heap w1 = heap w"
  by (auto simp: tcp_listen_to_def sys_step_def Let_def split: prod.splits if_splits)

lemma tcp_accept_heap: "tcp_accept_client os t w = (rv, t1, w1) \<Longrightarrow> heap w1 = heap w"
  by (auto simp: tcp_accept_client_def sys_step_def Let_def split: prod.splits if_splits)

lemma tcp_init_sound:
  assumes t: "heap w a = Some (Tcp t)"
  shows "type_sound a w (tcp_init os a w)" "type_sound a w (tcp_init_mt os a w)"
  using t by (auto simp: tcp_init_def tcp_init_mt_def sys_step_def split: prod.splits dest!: tcp_listen_heap tcp_accept_heap)

lemma tcp_opened:
  assumes "heap w a = Some (Tcp t)"
    and "\<And>rv w1 u1. keeps_types a w w1 \<Longrightarrow> heap w1 a = Some (Tcp u1) \<Longrightarrow> type_sound a w (k (rv, w1))"
  shows "type_sound a w (bind_res (tcp_init os a w) k)" "type_sound a w (bind_res (tcp_init_mt os a w) k)"
  using assms(2) keeps_tcp [OF _ assms(1)] tcp_init_sound [OF assms(1), of os]
  by (blast intro: type_sound_bind)+

lemma tcp_poll_sound:
  assumes "heap w a = Some (Tcp t)" "keeps_types a w w1"
  shows "type_sound a w (tcp_poll os a t1 w1)"
  using assms by (auto simp: tcp_poll_def sys_step_def keeps_types_def split: prod.splits option.splits
      intro!: type_sound_buffers)

lemma tcp_receive_sound:
  assumes "heap w a = Some (Tcp t)" "heap w1 = heap w"
  shows "type_sound a w (tcp_receive os a t1 w1)"
  using assms by (auto simp: tcp_receive_def sys_step_def Let_def split: prod.splits option.splits
      intro!: type_sound_buffers)

lemma tcp_sound:
  assumes t: "heap w a = Some (Tcp t)"
  shows "type_sound a w (tcp_has_more os (Some a) w)" "type_sound a w (tcp_has_more_mt os (Some a) w)"
    "type_sound a w (tcp_read_byte os (Some a) w)" "type_sound a w (tcp_read_byte_mt os (Some a) w)"
    "type_sound a w (tcp_route_to lib raw os (Some a) m w)" "type_sound a w (tcp_route_to_mt lib os (Some a) m w)"
    "type_sound a w (tcp_server_pass os a w)"
proof -
  show "type_sound a w (tcp_has_more os (Some a) w)"
    unfolding tcp_has_more_def using t by (auto intro!: tcp_opened [OF t] tcp_poll_sound [OF t])
  show "type_sound a w (tcp_has_more_mt os (Some a) w)"
    unfolding tcp_has_more_mt_def using t by (auto intro!: tcp_opened [OF t])
  show "type_sound a w (tcp_read_byte os (Some a) w)"
    unfolding tcp_read_byte_def assert_that_def using t by (auto intro!: type_sound_buffers)
  show "type_sound a w (tcp_read_byte_mt os (Some a) w)"
    unfolding tcp_read_byte_mt_def assert_that_def using t by (auto intro!: type_sound_buffers)
  show "type_sound a w (tcp_route_to lib raw os (Some a) m w)"
    unfolding tcp_route_to_def using t
    by (auto simp: sys_step_def Let_def keeps_types_def split: prod.splits intro!: tcp_opened [OF t])
  show "type_sound a w (tcp_route_to_mt lib os (Some a) m w)"
    unfolding tcp_route_to_mt_def using t
    by (auto simp: sys_step_def Let_def keeps_types_def split: prod.splits intro!: tcp_opened [OF t] type_sound_buffers)
  show "type_sound a w (tcp_server_pass os a w)"
    unfolding tcp_server_pass_def using t
    by (auto split: prod.splits intro!: tcp_receive_sound [OF t] dest: tcp_accept_heap)
qed

section \<open>The operations as the program calls them\<close>

definition effect :: "('b \<times> 'w) res \<Rightarrow> 'w res" where
  "effect r = bind_res r (\<lambda>(_, w). Inr w)"

text \<open>
  What the main loop calls through a port's pointers, a pass of the port's thread, the
  initialiser and the cleanup on the struct, and what \<^verbatim>\<open>pipeline_connect\<close> and
  \<^verbatim>\<open>pipeline_disconnect\<close> make of the latter two: they pass the connected port instead.
\<close>

datatype ('x, 's) port_op =
    Op_Has_More
  | Op_Read_Byte
  | Op_Route "('x, 's) message"
  | Op_Thread_Pass
  | Op_Init
  | Op_Cleanup
  | Op_Connect obj
  | Op_Disconnect obj

record ('a, 'o, 'x, 's) port_functions =
  pf_has_more :: "('a, 'o) world has_more_t"
  pf_read_byte :: "('a, 'o) world read_byte_t"
  pf_route :: "(('a, 'o) world, 'x, 's) route_t"
  pf_pass :: "nat \<Rightarrow> ('a, 'o) world \<Rightarrow> (int option \<times> ('a, 'o) world) res"
  pf_init :: "('a, 'o) world init_t"
  pf_cleanup :: "('a, 'o) world cleanup_t"

fun functions_of ::
  "bool \<Rightarrow> ('x, 's, 'c) mavlink_lib \<Rightarrow> ('x mavlink_message \<Rightarrow> u8 list) \<Rightarrow> ('a, 'o) os \<Rightarrow> device_kind
     \<Rightarrow> ('a, 'o, 'x, 's) port_functions" where
  "functions_of no_threads lib raw os Uart_Kind = \<lparr>pf_has_more = uart_has_more os, pf_read_byte = uart_read_byte os,
     pf_route = uart_route_to lib os, pf_pass = uart_server_step os, pf_init = uart_init_cb os,
     pf_cleanup = uart_cleanup_cb os\<rparr>"
| "functions_of no_threads lib raw os Udp_Kind = \<lparr>pf_has_more = udp_has_more os, pf_read_byte = udp_read_byte os,
     pf_route = udp_route_to lib os, pf_pass = udp_server_pass os, pf_init = udp_init_cb os,
     pf_cleanup = udp_cleanup_cb os\<rparr>"
| "functions_of no_threads lib raw os Tcpout_Kind = \<lparr>pf_has_more = tcpout_has_more os, pf_read_byte = tcpout_read_byte os,
     pf_route = tcpout_route_to lib os, pf_pass = tcpout_server_pass os, pf_init = tcpout_init_cb os,
     pf_cleanup = tcpout_cleanup_cb os\<rparr>"
| "functions_of no_threads lib raw os Tcp_Kind = \<lparr>
     pf_has_more = (if no_threads then tcp_has_more os else tcp_has_more_mt os),
     pf_read_byte = (if no_threads then tcp_read_byte os else tcp_read_byte_mt os),
     pf_route = (if no_threads then tcp_route_to lib raw os else tcp_route_to_mt lib os),
     pf_pass = tcp_server_pass os, pf_init = (if no_threads then tcp_init_cb os else tcp_init_mt_cb os),
     pf_cleanup = tcp_cleanup_cb os\<rparr>"

fun port_step ::
  "('a, 'o, 'x, 's) port_functions \<Rightarrow> nat \<Rightarrow> ('x, 's) port_op \<Rightarrow> ('a, 'o) world \<Rightarrow> ('a, 'o) world res" where
  "port_step p a Op_Has_More w = effect (pf_has_more p (Some a) w)"
| "port_step p a Op_Read_Byte w = effect (pf_read_byte p (Some a) w)"
| "port_step p a (Op_Route m) w = effect (pf_route p (Some a) m w)"
| "port_step p a Op_Thread_Pass w = effect (pf_pass p a w)"
| "port_step p a Op_Init w = effect (pf_init p (Device_Obj a) w)"
| "port_step p a Op_Cleanup w = pf_cleanup p (Device_Obj a) w"
| "port_step p a (Op_Connect obj) w = effect (pf_init p obj w)"
| "port_step p a (Op_Disconnect obj) w = pf_cleanup p obj w"

text \<open>The ports as \<^verbatim>\<open>pipeline_connect\<close> and \<^verbatim>\<open>pipeline_disconnect\<close> pass them: their flag is set.\<close>

definition connected_port :: "obj \<Rightarrow> bool" where
  "connected_port obj \<longleftrightarrow> obj = Source_Obj True \<or> obj = Sink_Obj True"

fun uses_struct :: "('x, 's) port_op \<Rightarrow> bool" where
  "uses_struct (Op_Connect obj) = False"
| "uses_struct (Op_Disconnect obj) = False"
| "uses_struct _ = True"

section \<open>What one operation does to the heap's types\<close>

definition kinds :: "('a, 'o) world \<Rightarrow> nat \<Rightarrow> device_kind option" where
  "kinds w = (\<lambda>a. map_option kind_of (heap w a))"

fun retype :: "('x, 's) port_op \<Rightarrow> nat \<Rightarrow> (nat \<Rightarrow> device_kind option) \<Rightarrow> nat \<Rightarrow> device_kind option" where
  "retype Op_Cleanup a T = T(a := None)"
| "retype _ a T = T"

text \<open>No misuse, and a heap between what may still be used and what there was.\<close>

definition effect_sound ::
  "(nat \<Rightarrow> device_kind option) \<Rightarrow> (nat \<Rightarrow> device_kind option) \<Rightarrow> ('a, 'o) world res \<Rightarrow> bool" where
  "effect_sound T T0 r \<longleftrightarrow> (case r of Inl f \<Rightarrow> f \<notin> {Type_Confusion, Use_After_Free, Null_Call}
     | Inr w' \<Rightarrow> T \<subseteq>\<^sub>m kinds w' \<and> kinds w' \<subseteq>\<^sub>m T0)"

lemma keeps_kinds: "keeps_types a w w' \<Longrightarrow> kinds w' = kinds w"
  unfolding keeps_types_def kinds_def by (intro ext) metis

lemma effect_sound: "type_sound a w r \<Longrightarrow> T \<subseteq>\<^sub>m kinds w \<Longrightarrow> effect_sound T (kinds w) (effect r)"
  by (cases r) (auto simp: type_sound_def effect_sound_def effect_def dest: keeps_kinds)

lemma cleanup_frees:
  "heap w a = Some (Uart u) \<Longrightarrow> \<exists>w'. uart_cleanup os a w = Inr w' \<and> kinds w' = (kinds w)(a := None)"
  "heap w a = Some (Udp v) \<Longrightarrow> \<exists>w'. udp_cleanup os a w = Inr w'
     \<and> kinds w' = (if udp_initialized v then (kinds w)(a := None) else kinds w)"
  "heap w a = Some (Tcpout x) \<Longrightarrow> \<exists>w'. tcpout_cleanup os a w = Inr w' \<and> kinds w' = (kinds w)(a := None)"
  "heap w a = Some (Tcp t) \<Longrightarrow> \<exists>w'. tcp_cleanup os a w = Inr w' \<and> kinds w' = (kinds w)(a := None)"
  by (auto simp: uart_cleanup_def udp_cleanup_def tcpout_cleanup_def tcp_cleanup_def kinds_def heap_free_def Let_def)

lemma cleanup_kinds:
  assumes "kinds w a = Some k"
  shows "\<exists>w'. port_step (functions_of nt lib raw os k) a Op_Cleanup w = Inr w'
    \<and> (kinds w' = (kinds w)(a := None) \<or> (k = Udp_Kind \<and> kinds w' = kinds w))"
proof -
  obtain d where d: "heap w a = Some d" "kind_of d = k" using assms by (auto simp: kinds_def)
  show ?thesis
  proof (cases d)
    case (Udp v)
    with d cleanup_frees(2) [of w a v os] show ?thesis by (cases "udp_initialized v") auto
  qed (use d cleanup_frees(1,3,4) [of w a _ os] in auto)
qed

lemma connect_sound:
  "connected_port obj \<Longrightarrow> T \<subseteq>\<^sub>m kinds w \<Longrightarrow> effect_sound T (kinds w) (effect (pf_init (functions_of nt lib raw os k) obj w))"
  by (cases k) (auto simp: connected_port_def effect_def effect_sound_def)

definition in_order :: "('x, 's) port_op \<Rightarrow> bool" where
  "in_order op \<longleftrightarrow> (case op of Op_Connect obj \<Rightarrow> connected_port obj | Op_Disconnect obj \<Rightarrow> False | _ \<Rightarrow> True)"

lemma port_step_sound:
  assumes T: "T a = Some k" "T \<subseteq>\<^sub>m kinds w" and op: "in_order op"
  shows "effect_sound (retype op a T) (kinds w) (port_step (functions_of nt lib raw os k) a op w)"
proof -
  have k: "kinds w a = Some k" using T by (auto simp: map_le_def dom_def)
  then obtain d where d: "heap w a = Some d" "kind_of d = k" by (auto simp: kinds_def)
  show ?thesis
  proof (cases op)
    case Op_Cleanup
    have "T(a := None) \<subseteq>\<^sub>m (kinds w)(a := None)" "T(a := None) \<subseteq>\<^sub>m kinds w" "(kinds w)(a := None) \<subseteq>\<^sub>m kinds w"
      using T(2) by (auto simp: map_le_def)
    with cleanup_kinds [OF k, of nt lib raw os] Op_Cleanup show ?thesis by (auto simp: effect_sound_def)
  next
    case (Op_Connect obj)
    with op T(2) show ?thesis by (simp add: connect_sound in_order_def)
  qed (use d T(2) op in \<open>cases d; auto simp: in_order_def intro!: effect_sound uart_sound udp_sound tcpout_sound tcp_sound
      uart_init_sound udp_init_sound tcpout_init_sound tcp_init_sound\<close>)+
qed

text \<open>The ways to misuse a port, and what comes of them.\<close>

lemma misuse:
  "kinds w a = None \<Longrightarrow> uses_struct op \<Longrightarrow> port_step (functions_of nt lib raw os k) a op w = Inl Use_After_Free"
  "kinds w a = Some k' \<Longrightarrow> k' \<noteq> k \<Longrightarrow> uses_struct op \<Longrightarrow>
     port_step (functions_of nt lib raw os k) a op w = Inl Type_Confusion"
  "connected_port obj \<Longrightarrow> port_step (functions_of nt lib raw os k) a (Op_Disconnect obj) w = Inl Type_Confusion"
proof -
  note defs = effect_def uart_has_more_def uart_read_byte_def uart_route_to_def uart_server_step_def uart_init_def uart_cleanup_def
    udp_has_more_def udp_read_byte_def udp_route_to_def udp_server_pass_def udp_init_def udp_cleanup_def
    tcpout_has_more_def tcpout_read_byte_def tcpout_route_to_def tcpout_server_pass_def tcpout_init_def tcpout_cleanup_def
    tcp_has_more_def tcp_has_more_mt_def tcp_read_byte_def tcp_read_byte_mt_def tcp_route_to_def tcp_route_to_mt_def
    tcp_server_pass_def tcp_init_def tcp_init_mt_def tcp_cleanup_def
  show "port_step (functions_of nt lib raw os k) a op w = Inl Use_After_Free" if "kinds w a = None" "uses_struct op"
    using that by (cases k; cases op) (simp_all add: kinds_def defs)
  show "port_step (functions_of nt lib raw os k) a op w = Inl Type_Confusion"
    if k: "kinds w a = Some k'" "k' \<noteq> k" and op: "uses_struct op"
  proof -
    obtain d where d: "heap w a = Some d" "kind_of d \<noteq> k" using k by (auto simp: kinds_def)
    then show ?thesis using op by (cases k; cases d) (cases op; simp add: defs)+
  qed
  show "port_step (functions_of nt lib raw os k) a (Op_Disconnect obj) w = Inl Type_Confusion" if "connected_port obj"
    using that by (cases k) (auto simp: connected_port_def)
qed

section \<open>Any sequence of operations\<close>

text \<open>Each operation with the address and the type of the port it is called for.\<close>

type_synonym ('x, 's) port_call = "nat \<times> device_kind \<times> ('x, 's) port_op"

fun run_ports ::
  "bool \<Rightarrow> ('x, 's, 'c) mavlink_lib \<Rightarrow> ('x mavlink_message \<Rightarrow> u8 list) \<Rightarrow> ('a, 'o) os \<Rightarrow> ('x, 's) port_call list
     \<Rightarrow> ('a, 'o) world \<Rightarrow> ('a, 'o) world res" where
  "run_ports nt lib raw os [] w = Inr w"
| "run_ports nt lib raw os ((a, k, op) # cs) w =
     bind_res (port_step (functions_of nt lib raw os k) a op w) (run_ports nt lib raw os cs)"

text \<open>
  Calls in order: a port is used with its own type until it is cleaned up, it is connected,
  and it is not disconnected.
\<close>

fun well_used :: "(nat \<Rightarrow> device_kind option) \<Rightarrow> ('x, 's) port_call list \<Rightarrow> bool" where
  "well_used T [] = True"
| "well_used T ((a, k, op) # cs) \<longleftrightarrow> T a = Some k
     \<and> in_order op \<and> well_used (retype op a T) cs"

fun types_after :: "(nat \<Rightarrow> device_kind option) \<Rightarrow> ('x, 's) port_call list \<Rightarrow> nat \<Rightarrow> device_kind option" where
  "types_after T [] = T"
| "types_after T ((a, k, op) # cs) = types_after (retype op a T) cs"

lemma run_ports_sound:
  "well_used T cs \<Longrightarrow> T \<subseteq>\<^sub>m kinds w \<Longrightarrow> effect_sound (types_after T cs) (kinds w) (run_ports nt lib raw os cs w)"
proof (induction cs arbitrary: T w)
  case Nil
  then show ?case by (simp add: effect_sound_def)
next
  case (Cons c cs)
  obtain a k op where c: "c = (a, k, op)" by (rule prod_cases3)
  have sound: "effect_sound (retype op a T) (kinds w) (port_step (functions_of nt lib raw os k) a op w)"
    using Cons.prems c by (intro port_step_sound) simp_all
  show ?case
  proof (cases "port_step (functions_of nt lib raw os k) a op w")
    case (Inl f)
    with sound c show ?thesis by (simp add: effect_sound_def)
  next
    case (Inr w1)
    then have w1: "retype op a T \<subseteq>\<^sub>m kinds w1" "kinds w1 \<subseteq>\<^sub>m kinds w" using sound by (simp_all add: effect_sound_def)
    then have "effect_sound (types_after (retype op a T) cs) (kinds w1) (run_ports nt lib raw os cs w1)"
      using Cons.prems c by (intro Cons.IH) simp_all
    with w1(2) Inr c show ?thesis by (auto simp: effect_sound_def split: sum.splits intro: map_le_trans)
  qed
qed

section \<open>Properties\<close>

text \<open>
  C36. Opaque pointers keep their types. Run any sequence of calls on the structs of the
  heap: what the main loop and the threads call, initialisers, connecting the pipeline, and
  cleanups of a struct, each through the functions of the struct's type and none after the
  cleanup, over any system. No call takes a struct for another type, uses one that is gone or
  goes through a null pointer; afterwards every struct that was not cleaned up is there and
  has its type, and none has appeared or changed type. A cleanup frees its struct and no
  other, except that of a UDP port that was never opened, which frees nothing. The
  conditions are needed: a call on a struct that is gone or has another type is a fault of
  that kind, and \<^verbatim>\<open>pipeline_disconnect\<close>, which passes the port to the cleanup in place of the
  struct, always confuses the types.
\<close>

theorem ports_keep_types:
  assumes "well_used (kinds w) cs"
  shows "(\<forall>fault. run_ports nt lib raw os cs w = Inl fault \<longrightarrow> fault \<notin> {Type_Confusion, Use_After_Free, Null_Call})
    \<and> (\<forall>w'. run_ports nt lib raw os cs w = Inr w' \<longrightarrow>
         types_after (kinds w) cs \<subseteq>\<^sub>m kinds w' \<and> kinds w' \<subseteq>\<^sub>m kinds w)
    \<and> (\<forall>a k w1. kinds w1 a = Some k \<longrightarrow> (\<exists>w2. port_step (functions_of nt lib raw os k) a Op_Cleanup w1 = Inr w2
         \<and> (kinds w2 = (kinds w1)(a := None) \<or> (k = Udp_Kind \<and> kinds w2 = kinds w1))))
    \<and> (\<forall>a k op w1. kinds w1 a \<noteq> Some k \<longrightarrow> uses_struct op \<longrightarrow> port_step (functions_of nt lib raw os k) a op w1
         = Inl (if kinds w1 a = None then Use_After_Free else Type_Confusion))
    \<and> (\<forall>a k obj w1. connected_port obj \<longrightarrow>
         port_step (functions_of nt lib raw os k) a (Op_Disconnect obj) w1 = Inl Type_Confusion)"
proof (intro conjI allI impI)
  note sound = run_ports_sound [OF assms map_le_refl, of nt lib raw os]
  show "fault \<notin> {Type_Confusion, Use_After_Free, Null_Call}" if "run_ports nt lib raw os cs w = Inl fault" for fault
    using sound that by (simp add: effect_sound_def)
  show "types_after (kinds w) cs \<subseteq>\<^sub>m kinds w'" "kinds w' \<subseteq>\<^sub>m kinds w" if "run_ports nt lib raw os cs w = Inr w'" for w'
    using sound that by (simp_all add: effect_sound_def)
  show "port_step (functions_of nt lib raw os k) a op w1 = Inl (if kinds w1 a = None then Use_After_Free else Type_Confusion)"
    if "kinds w1 a \<noteq> Some k" "uses_struct op" for a k op w1
    using that misuse(1,2) by (cases "kinds w1 a") auto
qed (rule cleanup_kinds misuse(3); assumption)+

text \<open>A datagram, a message sent to a TCP client, the first byte, and the UDP port is closed.\<close>

theorem ports_keep_types_witness:
  "case run_ports False demo_lib (\<lambda>_. []) demo_os [(7, Udp_Kind, Op_Thread_Pass), (8, Tcp_Kind, Op_Route (demo_message 1 0)),
       (7, Udp_Kind, Op_Read_Byte), (7, Udp_Kind, Op_Cleanup)] (demo_world [(7, Udp demo_udp), (8, Tcp demo_tcp)] [[65]]) of
     Inl fault \<Rightarrow> fault \<notin> {Type_Confusion, Use_After_Free, Null_Call}
   | Inr w' \<Rightarrow> kinds w' 7 \<in> {None, Some Udp_Kind} \<and> kinds w' 8 = Some Tcp_Kind"
proof -
  let ?w = "demo_world [(7, Udp demo_udp), (8, Tcp demo_tcp)] [[65]]"
  let ?cs = "[(7, Udp_Kind, Op_Thread_Pass), (8, Tcp_Kind, Op_Route (demo_message 1 0)),
       (7, Udp_Kind, Op_Read_Byte), (7, Udp_Kind, Op_Cleanup)]"
  have kinds: "kinds ?w 7 = Some Udp_Kind" "kinds ?w 8 = Some Tcp_Kind" by (simp_all add: kinds_def demo_world_def)
  then have "well_used (kinds ?w) ?cs" by (simp add: in_order_def)
  note safe = ports_keep_types [OF this, of False demo_lib "\<lambda>_. []" demo_os]
  have after: "kinds w' 7 \<in> {None, Some Udp_Kind} \<and> kinds w' 8 = Some Tcp_Kind"
    if "run_ports False demo_lib (\<lambda>_. []) demo_os ?cs ?w = Inr w'" for w'
  proof -
    have le: "types_after (kinds ?w) ?cs \<subseteq>\<^sub>m kinds w'" "kinds w' \<subseteq>\<^sub>m kinds ?w" using safe that by blast+
    have "types_after (kinds ?w) ?cs 8 = Some Tcp_Kind" using kinds by simp
    moreover have sub: "m' k = Some v" if "m \<subseteq>\<^sub>m m'" "m k = Some v" for m m' :: "nat \<Rightarrow> device_kind option" and k v
      using that by (auto simp: map_le_def dom_def)
    ultimately show ?thesis
      using sub [OF le(1)] sub [OF le(2), of 7] kinds(1) by (cases "kinds w' 7") auto
  qed
  show ?thesis using conjunct1 [OF safe] after by (cases "run_ports False demo_lib (\<lambda>_. []) demo_os ?cs ?w") (simp_all del: run_ports.simps)
qed

end
