(* ===== verification/Network_Gateway.thy ===== *)
theory Network_Gateway
  imports Device_Ports
begin

text \<open>
  Gateways whose ports are UDP, TCP client or TCP server ports: the main loop's conditions
  hold of them, so a spin returns and has drained every port. The serial port is not among
  them: sending through it changes what is pending in it.
\<close>

section \<open>The operations of a kind of port\<close>

fun kind_has_more :: "('a, 'o) os \<Rightarrow> device_kind \<Rightarrow> ('a, 'o) world has_more_t" where
  "kind_has_more os Uart_Kind = uart_has_more os"
| "kind_has_more os Udp_Kind = udp_has_more os"
| "kind_has_more os Tcpout_Kind = tcpout_has_more os"
| "kind_has_more os Tcp_Kind = tcp_has_more_mt os"

fun kind_read_byte :: "('a, 'o) os \<Rightarrow> device_kind \<Rightarrow> ('a, 'o) world read_byte_t" where
  "kind_read_byte os Uart_Kind = uart_read_byte os"
| "kind_read_byte os Udp_Kind = udp_read_byte os"
| "kind_read_byte os Tcpout_Kind = tcpout_read_byte os"
| "kind_read_byte os Tcp_Kind = tcp_read_byte_mt os"

fun kind_route :: "('x, 's, 'c) mavlink_lib \<Rightarrow> ('a, 'o) os \<Rightarrow> device_kind \<Rightarrow> (('a, 'o) world, 'x, 's) route_t" where
  "kind_route lib os Uart_Kind = uart_route_to lib os"
| "kind_route lib os Udp_Kind = udp_route_to lib os"
| "kind_route lib os Tcpout_Kind = tcpout_route_to lib os"
| "kind_route lib os Tcp_Kind = tcp_route_to_mt lib os"

fun kind_buffer :: "device_kind \<Rightarrow> nat \<Rightarrow> ('a, 'o) world \<Rightarrow> rx_buffer option" where
  "kind_buffer Uart_Kind a w = None"
| "kind_buffer Udp_Kind a w = udp_buffer a w"
| "kind_buffer Tcpout_Kind a w = tcpout_buffer a w"
| "kind_buffer Tcp_Kind a w = tcp_buffer a w"

lemma kind_buffer_fun:
  "kind_buffer Udp_Kind = udp_buffer" "kind_buffer Tcpout_Kind = tcpout_buffer" "kind_buffer Tcp_Kind = tcp_buffer"
  by (simp_all add: fun_eq_iff)

lemma network_kind:
  "k \<noteq> Uart_Kind \<Longrightarrow> network_port (kind_has_more os k) (kind_read_byte os k) (kind_buffer k) (kind_route lib os k)
     (frame_fits lib)"
  using udp_net.network_port_axioms tcpout_net.network_port_axioms tcp_net.network_port_axioms
  by (cases k) (simp_all add: kind_buffer_fun)

lemma rx_kind: "k \<noteq> Uart_Kind \<Longrightarrow> rx_port (kind_has_more os k) (kind_read_byte os k) (kind_buffer k)"
  by (rule network_port.axioms(1) [OF network_kind])

lemma kind_buffer_local: "heap w' a = heap w a \<Longrightarrow> kind_buffer k a w' = kind_buffer k a w"
  by (cases k) (simp_all add: udp_buffer_def tcpout_buffer_def tcp_buffer_def)

section \<open>Pipelines of network ports\<close>

text \<open>
  Source \<open>i\<close> is a port of kind \<open>kd i\<close> with its struct at \<open>ad i\<close>; the sinks send through these
  ports. Nothing is said of the discard sink.
\<close>

definition network_pipeline ::
  "('x, 's, 'c) mavlink_lib \<Rightarrow> ('a, 'o) os \<Rightarrow> (nat \<Rightarrow> device_kind) \<Rightarrow> (nat \<Rightarrow> nat)
     \<Rightarrow> (('a, 'o) world, 'x, 's) pipeline_t \<Rightarrow> bool" where
  "network_pipeline lib os kd ad p \<longleftrightarrow> (\<forall>i < 4. src_source_id (sources p ! i) < 4)
     \<and> (\<forall>i < 4. src_is_connected (sources p ! i) \<longrightarrow> kd i \<noteq> Uart_Kind
         \<and> src_opaque (sources p ! i) = Some (ad i)
         \<and> src_has_more (sources p ! i) = Some (kind_has_more os (kd i))
         \<and> src_read_byte (sources p ! i) = Some (kind_read_byte os (kd i))
         \<and> (\<forall>j < 4. src_is_connected (sources p ! j) \<longrightarrow> j \<noteq> i \<longrightarrow> ad j \<noteq> ad i))
     \<and> (\<forall>j. 0 < j \<and> j < 4 \<longrightarrow> snk_route (snks p ! j) = None
         \<or> (\<exists>i < 4. src_is_connected (sources p ! i) \<and> snk_opaque (snks p ! j) = Some (ad i)
              \<and> snk_route (snks p ! j) = Some (kind_route lib os (kd i))))"

definition ports_open ::
  "(nat \<Rightarrow> device_kind) \<Rightarrow> (nat \<Rightarrow> nat) \<Rightarrow> (('a, 'o) world, 'x, 's) pipeline_t \<Rightarrow> ('a, 'o) world \<Rightarrow> bool" where
  "ports_open kd ad p w \<longleftrightarrow> (\<forall>i < 4. src_is_connected (sources p ! i) \<longrightarrow> kind_buffer (kd i) (ad i) w \<noteq> None)"

definition port_pending ::
  "(nat \<Rightarrow> device_kind) \<Rightarrow> (nat \<Rightarrow> nat) \<Rightarrow> (('a, 'o) world, 'x, 's) pipeline_t \<Rightarrow> nat \<Rightarrow> ('a, 'o) world \<Rightarrow> u8 list" where
  "port_pending kd ad p j w =
     (if j < 4 \<and> src_is_connected (sources p ! j) then buffer_bytes (kind_buffer (kd j) (ad j) w) else [])"

text \<open>What a change of one struct leaves of the others.\<close>

definition others_kept ::
  "(nat \<Rightarrow> device_kind) \<Rightarrow> (nat \<Rightarrow> nat) \<Rightarrow> (('a, 'o) world, 'x, 's) pipeline_t \<Rightarrow> nat \<Rightarrow> (nat \<Rightarrow> u8 list)
     \<Rightarrow> ('a, 'o) world \<Rightarrow> bool" where
  "others_kept kd ad p i qs w \<longleftrightarrow>
     (\<forall>j < 4. src_is_connected (sources p ! j) \<longrightarrow> j \<noteq> i \<longrightarrow> kind_buffer (kd j) (ad j) w \<noteq> None)
     \<and> (\<forall>j. j \<noteq> i \<longrightarrow> port_pending kd ad p j w = qs j)"

lemma others_kept_frame:
  assumes "\<forall>j < 4. src_is_connected (sources p ! j) \<longrightarrow> j \<noteq> i \<longrightarrow> ad j \<noteq> ad i"
    and "others_kept kd ad p i qs w" and "\<forall>c. c \<noteq> ad i \<longrightarrow> heap w' c = heap w c"
  shows "others_kept kd ad p i qs w'"
proof -
  have "kind_buffer (kd j) (ad j) w' = kind_buffer (kd j) (ad j) w"
    if "j < 4" "src_is_connected (sources p ! j)" "j \<noteq> i" for j
    using assms(1,3) that by (intro kind_buffer_local) blast
  moreover from this have "port_pending kd ad p j w' = port_pending kd ad p j w" if "j \<noteq> i" for j
    using that by (simp add: port_pending_def)
  ultimately show ?thesis using assms(2) unfolding others_kept_def by metis
qed

lemma open_split:
  assumes "i < 4" "src_is_connected (sources p ! i)"
  shows "(ports_open kd ad p w \<and> (\<forall>j. j \<noteq> i \<longrightarrow> port_pending kd ad p j w = qs j))
    \<longleftrightarrow> kind_buffer (kd i) (ad i) w \<noteq> None \<and> others_kept kd ad p i qs w"
  using assms by (auto simp: ports_open_def others_kept_def)

lemma network_drains:
  assumes "network_pipeline lib os kd ad p"
  shows "drains (ports_open kd ad p) (port_pending kd ad p) p"
  unfolding drains_def
proof (intro allI impI)
  fix i :: nat assume i: "i < 4" "src_is_connected (sources p ! i)"
  let ?h = "kind_has_more os (kd i)" and ?r = "kind_read_byte os (kd i)"
  have p: "kd i \<noteq> Uart_Kind" "src_opaque (sources p ! i) = Some (ad i)" "src_has_more (sources p ! i) = Some ?h"
      "src_read_byte (sources p ! i) = Some ?r"
      "\<forall>j < 4. src_is_connected (sources p ! j) \<longrightarrow> j \<noteq> i \<longrightarrow> ad j \<noteq> ad i"
    using assms i unfolding network_pipeline_def by blast+
  have pending: "port_pending kd ad p i = (\<lambda>w. buffer_bytes (kind_buffer (kd i) (ad i) w))"
    using i by (simp add: port_pending_def fun_eq_iff)
  have "byte_source ?h ?r (Some (ad i))
      (\<lambda>w. ports_open kd ad p w \<and> (\<forall>j. j \<noteq> i \<longrightarrow> port_pending kd ad p j w = qs j)) (port_pending kd ad p i)" for qs
    unfolding pending open_split [OF i]
    by (rule rx_port.source [OF rx_kind [OF p(1)]]) (blast intro: others_kept_frame [OF p(5)])
  then show "\<exists>h r. src_has_more (sources p ! i) = Some h \<and> src_read_byte (sources p ! i) = Some r
      \<and> (\<forall>qs. byte_source h r (src_opaque (sources p ! i))
          (\<lambda>w. ports_open kd ad p w \<and> (\<forall>j. j \<noteq> i \<longrightarrow> port_pending kd ad p j w = qs j)) (port_pending kd ad p i))"
    using p(2-4) by simp
qed

lemma network_sinks_total:
  assumes net: "network_pipeline lib os kd ad p" and fits: "\<forall>m. frame_fits lib m" and off: "\<not> transform_enabled p"
  shows "sinks_total (\<lambda>w. ports_open kd ad p w \<and> (\<forall>j. port_pending kd ad p j w = qs j)) p"
  unfolding sinks_total_def route_total_def
proof (intro allI impI conjI)
  fix k assume "transform_enabled p" then show "transform_total (snk_transform (snks p ! k))" using off by blast
next
  fix k r m w
  assume k: "0 < k \<and> k < 4" and r: "snk_route (snks p ! k) = Some r"
    and w: "ports_open kd ad p w \<and> (\<forall>j. port_pending kd ad p j w = qs j)"
  obtain i where i: "i < 4" "src_is_connected (sources p ! i)" "snk_opaque (snks p ! k) = Some (ad i)"
      "r = kind_route lib os (kd i)"
  proof -
    have "snk_route (snks p ! k) = None
        \<or> (\<exists>i < 4. src_is_connected (sources p ! i) \<and> snk_opaque (snks p ! k) = Some (ad i)
             \<and> snk_route (snks p ! k) = Some (kind_route lib os (kd i)))"
      using net k unfolding network_pipeline_def by blast
    then show ?thesis using r that by auto
  qed
  have p: "kd i \<noteq> Uart_Kind" "\<forall>j < 4. src_is_connected (sources p ! j) \<longrightarrow> j \<noteq> i \<longrightarrow> ad j \<noteq> ad i"
    using net i unfolding network_pipeline_def by blast+
  obtain rx where rx: "kind_buffer (kd i) (ad i) w = Some rx"
    using w i unfolding ports_open_def by blast
  obtain v w' where w': "kind_route lib os (kd i) (Some (ad i)) m w = Inr (v, w')"
      "kind_buffer (kd i) (ad i) w' = Some rx" "\<forall>c. c \<noteq> ad i \<longrightarrow> heap w' c = heap w c"
    using network_port.sends [OF network_kind [OF p(1)] rx] fits by blast
  have "others_kept kd ad p i qs w" using open_split [OF i(1,2), of kd ad w qs] w by blast
  then have kept: "others_kept kd ad p i qs w'" by (rule others_kept_frame [OF p(2) _ w'(3)])
  have "port_pending kd ad p i w' = qs i"
    using w i(1,2) rx w'(2) by (metis port_pending_def)
  with kept have "\<forall>j. port_pending kd ad p j w' = qs j" by (auto simp: others_kept_def)
  moreover have "ports_open kd ad p w'" using open_split [OF i(1,2), of kd ad w' qs] kept w'(2) by blast
  ultimately show "\<exists>v w'. r (snk_opaque (snks p ! k)) m w = Inr (v, w')
      \<and> (ports_open kd ad p w' \<and> (\<forall>j. port_pending kd ad p j w' = qs j))"
    using w'(1) i(3,4) by auto
qed

text \<open>The clock and the console are no devices, and the keys are ASCII.\<close>

definition env_apart :: "build \<Rightarrow> ('a, 'o) world env \<Rightarrow> bool" where
  "env_apart b env \<longleftrightarrow> (\<forall>w. heap (snd (clock_gettime env w)) = heap w)
     \<and> (USE_CONSOLE b \<longrightarrow> (\<forall>w. unat (fst (read_char env w)) < 128 \<and> heap (snd (read_char env w)) = heap w))"

lemma open_heap:
  assumes "heap w' = heap w"
  shows "ports_open kd ad p w' = ports_open kd ad p w" "port_pending kd ad p j w' = port_pending kd ad p j w"
proof -
  have *: "kind_buffer k a w' = kind_buffer k a w" for k a
    by (rule kind_buffer_local) (simp add: assms)
  show "ports_open kd ad p w' = ports_open kd ad p w" "port_pending kd ad p j w' = port_pending kd ad p j w"
    by (simp_all add: ports_open_def port_pending_def *)
qed

lemma env_apart_ok:
  assumes "env_apart b env" shows "env_ok (ports_open kd ad p) (port_pending kd ad p) b env"
  unfolding env_ok_def
proof (intro conjI allI impI)
  fix w now w' assume t: "time_us env w = (now, w')" "ports_open kd ad p w"
  have "heap w' = heap w"
    using assms t(1) by (auto simp: env_apart_def time_us_def split: prod.splits dest!: spec [of _ w])
  then show "ports_open kd ad p w'" "\<And>j. port_pending kd ad p j w' = port_pending kd ad p j w"
    using t(2) open_heap [of w' w kd ad p] by simp_all
next
  fix w c w' assume u: "USE_CONSOLE b" "read_char env w = (c, w')" "ports_open kd ad p w"
  have "unat c < 128" "heap w' = heap w"
    using assms u(1,2) by (auto simp: env_apart_def dest!: spec [of _ w])
  then show "unat c < 128" "ports_open kd ad p w'" "\<And>j. port_pending kd ad p j w' = port_pending kd ad p j w"
    using u(3) open_heap [of w' w kd ad p] by simp_all
qed

section \<open>A spin serves every port\<close>

text \<open>
  A gateway of network ports serves them all. If every connected source is an open UDP
  or TCP port with a struct of its own, the sinks send through these ports, and no encoded
  message exceeds their output buffers, then a spin returns \<^verbatim>\<open>SUCC\<close>, has read every byte the
  ports had received, each once, and leaves all ports open, whatever the messages were and
  whatever the system said when they were sent.
\<close>

lemma network_gateway_spins:
  assumes "gateway_wf g" and "network_pipeline lib os kd ad (pipe g)" and "ports_open kd ad (pipe g) (world g)"
    and "\<forall>m. frame_fits lib m" and "\<not> transform_enabled (pipe g)"
    and "discards_quietly b (pipe g)" and "env_apart b env"
  shows "\<exists>g'. pipeline_spin lib b env g = Some (Inr (error_code SUCC, g')) \<and> gateway_wf g'
    \<and> ports_open kd ad (pipe g) (world g')
    \<and> total_bytes g' = total_bytes g
        + of_nat (waiting (port_pending kd ad (pipe g)) [0 ..< MAX_SOURCES] (pipe g) (world g))
    \<and> (\<forall>i < MAX_SOURCES. src_is_connected (sources (pipe g) ! i) \<longrightarrow>
         buffer_bytes (kind_buffer (kd i) (ad i) (world g')) = [])"
proof -
  have "sources_named (pipe g)"
    using assms(2,5) by (simp add: sources_named_def network_pipeline_def)
  then have "spin_ok (ports_open kd ad (pipe g)) (port_pending kd ad (pipe g)) b g"
    using assms network_drains [OF assms(2)] network_sinks_total [OF assms(2,4,5)] by (simp add: spin_ok_def)
  from pipeline_spin_ok [OF this env_apart_ok [OF assms(7)], of lib] obtain g' where
    g': "pipeline_spin lib b env g = Some (Inr (0, g'))" "gateway_wf g'"
      "total_bytes g' = total_bytes g + of_nat (waiting (port_pending kd ad (pipe g)) [0 ..< 4] (pipe g) (world g))"
      "ports_open kd ad (pipe g) (world g')"
      "\<forall>i < 4. src_is_connected (sources (pipe g) ! i) \<longrightarrow> port_pending kd ad (pipe g) i (world g') = []" by blast
  then show ?thesis by (auto simp: port_pending_def simp del: upt_4)
qed

text \<open>Two UDP ports, with two bytes received on the vehicle's.\<close>

definition net_source :: "(unit, demo_sys) os \<Rightarrow> nat \<Rightarrow> nat \<Rightarrow> ((unit, demo_sys) world, unit, unit) source_t" where
  "net_source os i a = (zero_source demo_lib)\<lparr>src_is_connected := True, src_source_id := i, src_opaque := Some a,
     src_has_more := Some (udp_has_more os), src_read_byte := Some (udp_read_byte os)\<rparr>"

definition net_sink :: "(unit, demo_sys) os \<Rightarrow> nat \<Rightarrow> ((unit, demo_sys) world, unit, unit) sink_t" where
  "net_sink os a = zero_sink\<lparr>snk_is_connected := True, snk_opaque := Some a, snk_route := Some (udp_route_to demo_lib os)\<rparr>"

definition net_pipe :: "(unit, demo_sys) os \<Rightarrow> ((unit, demo_sys) world, unit, unit) pipeline_t" where
  "net_pipe os = (static_pipeline demo_lib)\<lparr>policy_enabled := True,
     sources := [zero_source demo_lib, net_source os 1 7, net_source os 2 8, zero_source demo_lib],
     snks := [zero_sink, net_sink os 7, zero_sink, net_sink os 8], route_table := default_route_table,
     policy_mgmt := \<lparr>policies = default_policies demo_lib @ replicate 13 zero_policy, count = 3\<rparr>\<rparr>"

definition net_gateway :: "(unit, demo_sys) os \<Rightarrow> ((unit, demo_sys) world, unit, unit, unit) gateway" where
  "net_gateway os = (static_gateway demo_lib () (demo_world [(7, Udp (demo_udp\<lparr>udp_rx := demo_rx\<lparr>
     rx_data := [152, 7] @ replicate (BUFFER_BYTES - 2) 0, buffer_size := 2\<rparr>\<rparr>)), (8, Udp demo_udp)] []))\<lparr>pipe := net_pipe os\<rparr>"

definition net_env :: "(unit, demo_sys) world env" where
  "net_env = \<lparr>clock_gettime = (\<lambda>w. (\<lparr>tv_sec = 1, tv_nsec = 0\<rparr>, w)), read_char = (\<lambda>w. (0, w)), char_signed = True\<rparr>"

lemma net_gateway_wf: "gateway_wf (net_gateway os)"
  by (auto simp: gateway_wf_def net_gateway_def static_gateway_def perf_show_ok_init pipeline_wf_def policies_wf_def
      net_pipe_def static_pipeline_def default_policies_def MAX_POLICIES_def keeps_sinks_def zero_sink_def net_sink_def
      default_routes default_route_table_wf)

lemma net_gateway_network:
  "network_pipeline demo_lib os (\<lambda>_. Udp_Kind) (\<lambda>i. i + 6) (net_pipe os)"
  by (auto simp: network_pipeline_def net_pipe_def static_pipeline_def net_source_def net_sink_def zero_source_def
      zero_sink_def dest!: less_4_cases)

lemma net_gateway_open:
  "ports_open (\<lambda>_. Udp_Kind) (\<lambda>i. i + 6) (net_pipe os) (world (net_gateway os))"
  "port_pending (\<lambda>_. Udp_Kind) (\<lambda>i. i + 6) (net_pipe os) 1 (world (net_gateway os)) = [152, 7]"
  "port_pending (\<lambda>_. Udp_Kind) (\<lambda>i. i + 6) (net_pipe os) 2 (world (net_gateway os)) = []"
  by (auto simp: ports_open_def port_pending_def net_gateway_def static_gateway_def demo_world_def udp_buffer_def
      demo_udp_def demo_rx_def rx_wf_def net_pipe_def net_source_def zero_source_def rx_unread_def BUFFER_BYTES_def
      numeral_2_eq_2 dest!: less_4_cases)

end
