(* ===== verification/Gateway_Main.thy ===== *)
theory Gateway_Main
  imports Network_Gateway Source_Stdio
begin

text \<open>
  The program of \<^verbatim>\<open>main.c\<close>: it initialises the pipeline, hooks the ports, adds the
  transformers of a \<^verbatim>\<open>USE_XOR\<close> build, connects, and spins until the pipeline is terminated
  or a spin fails. \<open>None\<close> is a run that never ends, as in \<open>Pipeline_Spin\<close>.
\<close>

section \<open>The program\<close>

text \<open>
  What the program is linked with: the system, the build switches of the ports, what
  allocated memory holds, and the functions the stdio sink calls.
\<close>

record ('a, 'o, 'x) host =
  STD_LIBC :: bool
  STDC_NO_THREADS :: bool
  host_os :: "('a, 'o) os"
  raw_message :: "'x mavlink_message \<Rightarrow> u8 list"
  tcp_garbage :: tcp_socket
  uart_garbage :: uart_connection
  set_nonblock :: "('a, 'o) world \<Rightarrow> ('a, 'o) world"
  unset_nonblock :: "('a, 'o) world \<Rightarrow> ('a, 'o) world"
  message_info_of :: "'x mavlink_message \<Rightarrow> message_info option"
  emit_report :: "stdio_report \<Rightarrow> ('a, 'o) world \<Rightarrow> ('a, 'o) world"

text \<open>The results of the hooks are not looked at.\<close>

definition run_hook ::
  "(('w, 'x, 's) pipeline_t \<Rightarrow> 'w \<Rightarrow> (int \<times> ('w, 'x, 's) pipeline_t \<times> 'w) res)
     \<Rightarrow> ('w, 'x, 's, 'c) gateway \<Rightarrow> ('w, 'x, 's, 'c) gateway res" where
  "run_hook hook g = bind_res (hook (pipe g) (world g)) (\<lambda>(rv, p, w). Inr (g\<lparr>pipe := p, world := w\<rparr>))"

definition hook_ports ::
  "('x, 's, 'c) mavlink_lib \<Rightarrow> ('a, 'o, 'x) host \<Rightarrow> (('a, 'o) world, 'x, 's, 'c) gateway
     \<Rightarrow> (('a, 'o) world, 'x, 's, 'c) gateway res" where
  "hook_ports lib h g =
     (if STD_LIBC h
      then bind_res (run_hook (hook_tcp (STDC_NO_THREADS h) lib (raw_message h) (host_os h) (tcp_garbage h) 12001
                       (source_index SOURCE_TYPE_LEGACY) (sink_index SINK_TYPE_LEGACY)) g)
             (run_hook (hook_uart lib (host_os h) (uart_garbage h) ''/dev/ttyAMA0''
                (source_index SOURCE_TYPE_VMC) (sink_index SINK_TYPE_VMC)))
      else Inr g)"

definition hook_discard ::
  "('a, 'o, 'x) host \<Rightarrow> (('a, 'o) world, 'x, 's, 'c) gateway \<Rightarrow> (('a, 'o) world, 'x, 's, 'c) gateway res" where
  "hook_discard h g =
     bind_res (hook_stdio_sink (set_nonblock h) (unset_nonblock h) (message_info_of h) (emit_report h) (pipe g)
                 (sink_index SINK_TYPE_DISCARD)) (\<lambda>p. Inr (g\<lparr>pipe := p\<rparr>))"

definition add_xor ::
  "('x, 's, 'c) mavlink_lib \<Rightarrow> build \<Rightarrow> ('w, 'x, 's, 'c) gateway \<Rightarrow> ('w, 'x, 's, 'c) gateway res" where
  "add_xor lib b g =
     (if USE_XOR b
      then bind_res (add_transformer (pipe g) PORT_TYPE_SOURCE (source_index SOURCE_TYPE_VMC) (xor_decode lib)) (\<lambda>p1.
           bind_res (add_transformer p1 PORT_TYPE_SINK (sink_index SINK_TYPE_VMC) (xor_encode lib)) (\<lambda>p2.
             Inr (g\<lparr>pipe := p2\<rparr>)))
      else Inr g)"

definition connect_all :: "('w, 'x, 's, 'c) gateway \<Rightarrow> ('w, 'x, 's, 'c) gateway res" where
  "connect_all g = bind_res (pipeline_connect (pipe g) (world g)) (\<lambda>w. Inr (g\<lparr>world := w\<rparr>))"

definition gateway_setup ::
  "('x, 's, 'c) mavlink_lib \<Rightarrow> build \<Rightarrow> ('a, 'o, 'x) host \<Rightarrow> (('a, 'o) world, 'x, 's, 'c) gateway
     \<Rightarrow> (('a, 'o) world, 'x, 's, 'c) gateway res" where
  "gateway_setup lib b h g =
     bind_res (pipeline_init lib g) (\<lambda>g1.
     bind_res (hook_ports lib h g1) (\<lambda>g2.
     bind_res (hook_discard h g2) (\<lambda>g3.
     bind_res (add_xor lib b g3) connect_all)))"

partial_function (option) main_loop ::
  "('x, 's, 'c) mavlink_lib \<Rightarrow> build \<Rightarrow> 'w env \<Rightarrow> ('w, 'x, 's, 'c) gateway \<Rightarrow> ('w, 'x, 's, 'c) gateway res option" where
  "main_loop lib b env g =
     (if terminated (pipe g) then Some (Inr g)
      else case pipeline_spin lib b env g of
             None \<Rightarrow> None
           | Some (Inl f) \<Rightarrow> Some (Inl f)
           | Some (Inr (rv, g')) \<Rightarrow> if rv \<noteq> error_code SUCC then Some (Inr g') else main_loop lib b env g')"

definition gateway_main ::
  "('x, 's, 'c) mavlink_lib \<Rightarrow> build \<Rightarrow> ('a, 'o, 'x) host \<Rightarrow> ('a, 'o) world env
     \<Rightarrow> (('a, 'o) world, 'x, 's, 'c) gateway \<Rightarrow> (('a, 'o) world, 'x, 's, 'c) gateway res option" where
  "gateway_main lib b h env g = bind_run (Some (gateway_setup lib b h g)) (main_loop lib b env)"

section \<open>The program never returns\<close>

lemma spin_sources_pipe:
  assumes "spin_sources lib b is load g = Some (Inr (load', g'))"
  shows "same_pipe (pipe g) (pipe g')"
  using assms
proof (induction "is" arbitrary: g load)
  case (Cons i "is")
  then obtain load1 g1 where g1: "spin_source lib b i load g = Some (Inr (load1, g1))"
      "spin_sources lib b is load1 g1 = Some (Inr (load', g'))"
    by (auto simp: bind_run_eq_Some_Inr)
  have "i < length (sources (pipe g))" using g1(1) by (auto simp: spin_source_def arr_get_def split: if_splits)
  with spin_source_result [OF g1(1)] Cons.IH [OF g1(2)] show ?case by (blast intro: same_pipe_trans)
qed simp

lemma spin_finish_result:
  assumes "spin_finish b env t load g = Inr (rv, g')"
  shows "rv = 0 \<and> terminated (pipe g') = terminated (pipe g)"
proof -
  obtain g1 where g1: "(if USE_CONSOLE b then console_spin env g else Inr g) = Inr g1"
    using assms by (auto simp: spin_finish_def res_simps)
  obtain tend w1 where t1: "time_us env (world g1) = (tend, w1)" by (rule prod.exhaust)
  obtain now w2 where t2: "time_us env w1 = (now, w2)" by (rule prod.exhaust)
  have "terminated (pipe g1) = terminated (pipe g)"
    using g1 by (auto split: if_splits dest: console_spin_frame)
  with assms g1 t1 t2 show ?thesis by (auto simp: spin_finish_def res_simps)
qed

lemma pipeline_spin_result:
  assumes "pipeline_spin lib b env g = Some (Inr (rv, g'))"
  shows "rv = 0 \<and> terminated (pipe g') = terminated (pipe g)"
proof -
  obtain t w0 where t: "time_us env (world g) = (t, w0)" by (rule prod.exhaust)
  obtain load g1 where g1: "spin_sources lib b [0 ..< MAX_SOURCES] False (g\<lparr>world := w0\<rparr>) = Some (Inr (load, g1))"
      "spin_finish b env t load g1 = Inr (rv, g')"
    using assms t by (auto simp: pipeline_spin_def bind_run_eq_Some_Inr simp del: upt_4 max_ports)
  have "terminated (pipe g1) = terminated (pipe g)"
    using same_pipe_fields [OF spin_sources_pipe [OF g1(1)]] by simp
  with spin_finish_result [OF g1(2)] show ?thesis by simp
qed

lemma main_loop_never_ends:
  assumes run: "main_loop lib b env g = Some r" and live: "\<not> terminated (pipe g)"
  shows "\<exists>f. r = Inl f"
proof -
  have "\<not> terminated (pipe g) \<longrightarrow> (\<exists>f. r = Inl f)" (is "?P lib b env g r")
  proof (rule main_loop.raw_induct [where P = ?P, OF _ run])
    fix loop lib b env g r
    assume 1: "\<And>lib b env g r. loop lib b env g = Some r \<Longrightarrow> ?P lib b env g r"
      "(if terminated (pipe g) then Some (Inr g)
        else case pipeline_spin lib b env g of None \<Rightarrow> None | Some (Inl f) \<Rightarrow> Some (Inl f)
          | Some (Inr (rv, g')) \<Rightarrow> if rv \<noteq> error_code SUCC then Some (Inr g') else loop lib b env g') = Some r"
    show "?P lib b env g r"
    proof
      assume live: "\<not> terminated (pipe g)"
      show "\<exists>f. r = Inl f"
      proof (cases "pipeline_spin lib b env g")
        case None
        with 1(2) live show ?thesis by simp
      next
        case (Some x)
        show ?thesis
        proof (cases x)
          case (Inl f)
          with 1(2) live Some show ?thesis by auto
        next
          case (Inr y)
          obtain rv g' where y: "y = (rv, g')" by (rule prod.exhaust)
          have spin: "pipeline_spin lib b env g = Some (Inr (rv, g'))" using Some Inr y by simp
          note res = pipeline_spin_result [OF spin]
          with 1(2) live spin have "loop lib b env g' = Some r" by simp
          from 1(1) [OF this] res live show ?thesis by blast
        qed
      qed
    qed
  qed
  with live show ?thesis by blast
qed

lemma hook_keeps_terminated:
  "hook_tcp nt lib raw os ga port i j p w = Inr (rv, p', w') \<Longrightarrow> terminated p' = terminated p"
  "hook_uart lib os ga2 dev i j p w = Inr (rv, p', w') \<Longrightarrow> terminated p' = terminated p"
  by (auto simp: hook_tcp_def hook_uart_def source_allocate_def sink_allocate_def Let_def res_simps
      split: prod.splits option.splits)

lemma setup_not_terminated:
  assumes "gateway_setup lib b h g = Inr g'" shows "\<not> terminated (pipe g')"
proof -
  obtain g1 g2 g3 g4 where s: "pipeline_init lib g = Inr g1" "hook_ports lib h g1 = Inr g2" "hook_discard h g2 = Inr g3"
      "add_xor lib b g3 = Inr g4" "connect_all g4 = Inr g'"
    using assms by (auto simp: gateway_setup_def res_simps)
  have "\<not> terminated (pipe g1)"
    using s(1) by (auto simp: pipeline_init_def security_policy_init_def Let_def res_simps)
  moreover have "terminated (pipe g2) = terminated (pipe g1)"
    using s(2) by (auto simp: hook_ports_def run_hook_def res_simps split: if_splits dest!: hook_keeps_terminated)
  moreover have "terminated (pipe g3) = terminated (pipe g2)"
    using s(3) by (auto simp: hook_discard_def hook_stdio_sink_def sink_modify_def res_simps)
  moreover have "terminated (pipe g4) = terminated (pipe g3)"
    using s(4) by (auto simp: add_xor_def add_transformer_def sink_modify_def res_simps split: if_splits)
  moreover have "pipe g' = pipe g4"
    using s(5) by (auto simp: connect_all_def res_simps)
  ultimately show ?thesis by simp
qed

text \<open>
  C37. The program does not return: from any state, \<^verbatim>\<open>main\<close> never reaches its \<^verbatim>\<open>return 0\<close>.
  The initialisation clears \<^verbatim>\<open>terminated\<close> and nothing sets it afterwards, and a spin that
  comes back comes back with \<open>SUCC\<close>; the run goes on for ever or ends in a fault (a failing
  assertion, a null call). The results of the hooks and of the connection do not matter.
\<close>

theorem main_never_returns: "gateway_main lib b h env g \<noteq> Some (Inr g')"
proof
  assume run: "gateway_main lib b h env g = Some (Inr g')"
  then obtain g1 where "gateway_setup lib b h g = Inr g1" "main_loop lib b env g1 = Some (Inr g')"
    by (auto simp: gateway_main_def bind_run_eq_Some_Inr)
  with main_loop_never_ends [of lib b env g1 "Inr g'"] setup_not_terminated [of lib b h g g1] show False by auto
qed

end
