(* ===== verification/Xor_Build.thy ===== *)
theory Xor_Build
  imports Gateway_Main
begin

text \<open>
  The program built with and without \<^verbatim>\<open>USE_XOR\<close>. The build registers \<^verbatim>\<open>xor_decode\<close> and
  \<^verbatim>\<open>xor_encode\<close> on the ports of the vehicle, but nothing sets \<^verbatim>\<open>transform_enabled\<close> except the
  console; without a console the two programs do the same. The comparison forgets the
  registered transformers on both sides and follows every definition of a spin.
\<close>

section \<open>The gateway without its transformers\<close>

definition plain_source :: "('w, 'x, 's) source_t \<Rightarrow> ('w, 'x, 's) source_t" where
  "plain_source src = src\<lparr>src_transform := None\<rparr>"

definition plain_pipe :: "('w, 'x, 's) pipeline_t \<Rightarrow> ('w, 'x, 's) pipeline_t" where
  "plain_pipe p = p\<lparr>sources := map plain_source (sources p),
     snks := map (\<lambda>snk. snk\<lparr>snk_transform := None\<rparr>) (snks p)\<rparr>"

definition plain :: "('w, 'x, 's, 'c) gateway \<Rightarrow> ('w, 'x, 's, 'c) gateway" where
  "plain g = g\<lparr>pipe := plain_pipe (pipe g)\<rparr>"

fun map_run :: "('a \<Rightarrow> 'b) \<Rightarrow> 'a res option \<Rightarrow> 'b res option" where
  "map_run f None = None"
| "map_run f (Some (Inl x)) = Some (Inl x)"
| "map_run f (Some (Inr y)) = Some (Inr (f y))"

lemma plain_simps [simp]:
  "pipe (plain g) = plain_pipe (pipe g)" "world (plain g) = world g" "chan (plain g) = chan g"
  "total_bytes (plain g) = total_bytes g" "perf_secure_gateway (plain g) = perf_secure_gateway g"
  "show_state (plain g) = show_state g" "log (plain g) = log g" "console_last_time (plain g) = console_last_time g"
  "plain (g\<lparr>world := w\<rparr>) = (plain g)\<lparr>world := w\<rparr>"
  "plain (g\<lparr>perf_secure_gateway := pf\<rparr>) = (plain g)\<lparr>perf_secure_gateway := pf\<rparr>"
  "plain (g\<lparr>total_bytes := n\<rparr>) = (plain g)\<lparr>total_bytes := n\<rparr>"
  "plain (g\<lparr>chan := c\<rparr>) = (plain g)\<lparr>chan := c\<rparr>"
  "plain (g\<lparr>pipe := p\<rparr>) = (plain g)\<lparr>pipe := plain_pipe p\<rparr>"
  "plain (g\<lparr>console_last_time := t\<rparr>) = (plain g)\<lparr>console_last_time := t\<rparr>"
  "plain (g\<lparr>show_state := st\<rparr>) = (plain g)\<lparr>show_state := st\<rparr>"
  "plain (g\<lparr>log := ls\<rparr>) = (plain g)\<lparr>log := ls\<rparr>"
  by (simp_all add: plain_def)

lemma plain_pipe_simps [simp]:
  "terminated (plain_pipe p) = terminated p" "policy_enabled (plain_pipe p) = policy_enabled p"
  "transform_enabled (plain_pipe p) = transform_enabled p" "route_table (plain_pipe p) = route_table p"
  "policy_mgmt (plain_pipe p) = policy_mgmt p" "sources (plain_pipe p) = map plain_source (sources p)"
  "plain_pipe (p\<lparr>policy_enabled := e\<rparr>) = (plain_pipe p)\<lparr>policy_enabled := e\<rparr>"
  "plain_pipe (p\<lparr>transform_enabled := e\<rparr>) = (plain_pipe p)\<lparr>transform_enabled := e\<rparr>"
  by (simp_all add: plain_pipe_def)

lemma plain_source_simps [simp]:
  "src_is_connected (plain_source src) = src_is_connected src" "src_source_id (plain_source src) = src_source_id src"
  "src_opaque (plain_source src) = src_opaque src" "src_has_more (plain_source src) = src_has_more src"
  "src_read_byte (plain_source src) = src_read_byte src" "src_cur (plain_source src) = src_cur src"
  "plain_source (src\<lparr>src_cur := m\<rparr>) = (plain_source src)\<lparr>src_cur := m\<rparr>"
  by (simp_all add: plain_source_def)

lemma apply_transform_off [simp]: "apply_transform False t m = Inr m"
  by (simp add: apply_transform_def split: option.split)

lemma plain_get_sink:
  "pipeline_get_sink (plain_pipe p) i = bind_res (pipeline_get_sink p i) (\<lambda>snk. Inr (snk\<lparr>snk_transform := None\<rparr>))"
  by (cases "i < length (snks p)") (simp_all add: pipeline_get_sink_def sink_get_def plain_pipe_def assert_that_def)

lemma deliver_loop_plain:
  "\<not> transform_enabled (pipe g) \<Longrightarrow>
     deliver_loop lib is m (plain g) = bind_res (deliver_loop lib is m g) (\<lambda>(m', g'). Inr (m', plain g'))"
proof (induction "is" arbitrary: m g)
  case (Cons i "is")
  have skip: "deliver_loop lib is m (plain g) = bind_res (deliver_loop lib is m g) (\<lambda>(m', g'). Inr (m', plain g'))"
    using Cons by blast
  have go: "deliver_loop lib is m1 ((plain g)\<lparr>world := w, perf_secure_gateway := pf\<rparr>)
      = bind_res (deliver_loop lib is m1 (g\<lparr>world := w, perf_secure_gateway := pf\<rparr>)) (\<lambda>(m', g'). Inr (m', plain g'))"
    for m1 w pf using Cons.IH [of "g\<lparr>world := w, perf_secure_gateway := pf\<rparr>" m1] Cons.prems by simp
  show ?case
  proof (cases "bitmap_test (sinks m) i")
    case (Inr v)
    show ?thesis
    proof (cases "pipeline_get_sink (pipe g) i")
      case snk: (Inr snk)
      show ?thesis
        using Cons.prems Inr snk skip go
        by (cases "snk_route snk") (auto simp: plain_get_sink bind_res_assoc intro!: bind_res_cong)
    qed (use Inr skip in \<open>simp add: plain_get_sink\<close>)
  qed simp
qed simp

lemma plain_inspect [simp]: "pipeline_inspect (plain_pipe p) m = pipeline_inspect p m"
  by (simp add: pipeline_inspect_def)

lemma route_discarded_plain: "route_discarded m (plain g) = bind_res (route_discarded m g) (\<lambda>g'. Inr (plain g'))"
proof (cases "pipeline_get_sink (pipe g) (sink_index SINK_TYPE_DISCARD)")
  case (Inr snk)
  then show ?thesis
    by (cases "snk_route snk") (auto simp: route_discarded_def plain_get_sink bind_res_assoc intro!: bind_res_cong)
qed (simp add: route_discarded_def plain_get_sink)

lemma pipeline_push_plain:
  assumes "\<not> transform_enabled (pipe g)"
  shows "pipeline_push lib b m (plain g) = bind_res (pipeline_push lib b m g) (\<lambda>(rv, m', g'). Inr (rv, m', plain g'))"
proof -
  note deliver = deliver_loop_plain [OF assms]
  show ?thesis
    unfolding pipeline_push_def
    by (auto simp: route_discarded_plain deliver bind_res_assoc simp del: deliver_loop.simps max_ports
        intro!: bind_res_cong)
qed

lemma spin_message_plain:
  assumes "\<not> transform_enabled (pipe g)"
  shows "spin_message lib b i (plain_source src) m (plain g)
    = bind_res (spin_message lib b i src m g) (\<lambda>(m', g'). Inr (m', plain g'))"
proof -
  have push: "pipeline_push lib b m1 ((plain g)\<lparr>perf_secure_gateway := pf\<rparr>)
      = bind_res (pipeline_push lib b m1 (g\<lparr>perf_secure_gateway := pf\<rparr>)) (\<lambda>(rv, m', g'). Inr (rv, m', plain g'))"
    for m1 pf using pipeline_push_plain [of "g\<lparr>perf_secure_gateway := pf\<rparr>" lib b m1] assms by simp
  show ?thesis
    using assms by (auto simp: spin_message_def Let_def push bind_res_assoc intro!: bind_res_cong)
qed

lemma plain_set_cur: "plain_pipe (set_cur p i m) = set_cur (plain_pipe p) i m"
  by (cases "i < length (sources p)") (simp_all add: set_cur_def plain_pipe_def map_update list_update_beyond)

lemma spin_byte_plain:
  assumes "\<not> transform_enabled (pipe g)"
  shows "spin_byte lib b i (plain_source src) x (plain g) = bind_res (spin_byte lib b i src x g) (\<lambda>g'. Inr (plain g'))"
proof -
  obtain rv c ms st where parse: "mavlink_parse_char lib i x (chan g) (msg (src_cur src)) (status (src_cur src))
      = (rv, c, ms, st)" by (metis prod_cases4)
  let ?g1 = "g\<lparr>total_bytes := total_bytes g + 1, chan := c\<rparr>"
  have "spin_message lib b i (plain_source src) m ((plain g)\<lparr>total_bytes := total_bytes g + 1, chan := c\<rparr>)
      = bind_res (spin_message lib b i src m ?g1) (\<lambda>(m', g'). Inr (m', plain g'))" for m
    using spin_message_plain [of ?g1 lib b i src m] assms by simp
  then show ?thesis
    using parse by (cases rv) (auto simp: spin_byte_def bind_res_assoc plain_set_cur intro!: bind_res_cong)
qed

lemma spin_step_plain:
  assumes "\<not> transform_enabled (pipe g)"
  shows "spin_step lib b i (plain g) = bind_res (spin_step lib b i g) (\<lambda>(again, g'). Inr (again, plain g'))"
proof (cases "i < length (sources (pipe g))")
  case True
  let ?src = "sources (pipe g) ! i"
  have byte: "spin_byte lib b i (plain_source ?src) x ((plain g)\<lparr>world := w\<rparr>)
      = bind_res (spin_byte lib b i ?src x (g\<lparr>world := w\<rparr>)) (\<lambda>g'. Inr (plain g'))" for x w
    using spin_byte_plain [of "g\<lparr>world := w\<rparr>" lib b i ?src x] assms by simp
  show ?thesis
    using True by (auto simp: spin_step_def byte bind_res_assoc intro!: bind_res_cong)
qed (simp add: spin_step_def)

lemma spin_step_transform:
  "spin_step lib b i g = Inr (again, g') \<Longrightarrow> transform_enabled (pipe g') = transform_enabled (pipe g)"
  using same_pipe_fields [OF spin_step_same] by blast

lemma spin_loop_unfold:
  "spin_loop lib b i load g = Some r \<longleftrightarrow>
     (case spin_step lib b i g of Inl f \<Rightarrow> r = Inl f
      | Inr (again, g') \<Rightarrow> if again then spin_loop lib b i True g' = Some r else r = Inr (load, g'))"
  by (subst spin_loop.simps) (auto split: sum.splits)

definition plain_result :: "(bool \<times> ('w, 'x, 's, 'c) gateway) res \<Rightarrow> (bool \<times> ('w, 'x, 's, 'c) gateway) res" where
  "plain_result r = bind_res r (\<lambda>(load, g). Inr (load, plain g))"

text \<open>Either loop ends when the other does, with the matching result.\<close>

lemma spin_loop_plain_forth:
  assumes run: "spin_loop lib b i load g = Some r"
  shows "\<not> transform_enabled (pipe g) \<longrightarrow> spin_loop lib b i load (plain g) = Some (plain_result r)"
    (is "?P lib b i load g r")
proof (rule spin_loop.raw_induct [where P = ?P, OF _ run])
  fix loop lib b i load g r
  assume 1: "\<And>lib b i load g r. loop lib b i load g = Some r \<Longrightarrow> ?P lib b i load g r"
    "(case spin_step lib b i g of Inl f \<Rightarrow> Some (Inl f)
      | Inr (again, g') \<Rightarrow> if again then loop lib b i True g' else Some (Inr (load, g'))) = Some r"
  show "?P lib b i load g r"
  proof
    assume off: "\<not> transform_enabled (pipe g)"
    show "spin_loop lib b i load (plain g) = Some (plain_result r)"
    proof (cases "spin_step lib b i g")
      case (Inl f)
      with 1(2) show ?thesis by (auto simp: spin_loop_unfold spin_step_plain [OF off] plain_result_def)
    next
      case (Inr a)
      obtain again g1 where step: "spin_step lib b i g = Inr (again, g1)" using Inr by (cases a) auto
      show ?thesis
      proof (cases again)
        case True
        with 1(2) step have "loop lib b i True g1 = Some r" by simp
        from 1(1) [OF this] spin_step_transform [OF step] off True step show ?thesis
          by (simp add: spin_loop_unfold spin_step_plain [OF off])
      next
        case False
        with 1(2) step show ?thesis by (auto simp: spin_loop_unfold spin_step_plain [OF off] plain_result_def)
      qed
    qed
  qed
qed

lemma spin_loop_plain_back:
  assumes run: "spin_loop lib b i load h = Some r"
  shows "\<forall>g. h = plain g \<longrightarrow> \<not> transform_enabled (pipe g) \<longrightarrow> spin_loop lib b i load g \<noteq> None"
    (is "?P lib b i load h r")
proof (rule spin_loop.raw_induct [where P = ?P, OF _ run])
  fix loop lib b i load h r
  assume 1: "\<And>lib b i load h r. loop lib b i load h = Some r \<Longrightarrow> ?P lib b i load h r"
    "(case spin_step lib b i h of Inl f \<Rightarrow> Some (Inl f)
      | Inr (again, g') \<Rightarrow> if again then loop lib b i True g' else Some (Inr (load, g'))) = Some r"
  show "?P lib b i load h r"
  proof (intro allI impI)
    fix g assume h: "h = plain g" and off: "\<not> transform_enabled (pipe g)"
    show "spin_loop lib b i load g \<noteq> None"
    proof (cases "spin_step lib b i g")
      case (Inl f)
      then show ?thesis by (simp add: spin_loop.simps)
    next
      case (Inr a)
      obtain again g1 where step: "spin_step lib b i g = Inr (again, g1)" using Inr by (cases a) auto
      show ?thesis
      proof (cases again)
        case True
        with 1(2) step h have "loop lib b i True (plain g1) = Some r" by (simp add: spin_step_plain [OF off])
        from 1(1) [OF this] spin_step_transform [OF step] off True step show ?thesis
          by (subst spin_loop.simps) simp
      next
        case False
        with step show ?thesis by (simp add: spin_loop.simps)
      qed
    qed
  qed
qed

lemma spin_loop_plain:
  assumes off: "\<not> transform_enabled (pipe g)"
  shows "spin_loop lib b i load (plain g) = map_run (\<lambda>(load, g). (load, plain g)) (spin_loop lib b i load g)"
proof (cases "spin_loop lib b i load g")
  case None
  with spin_loop_plain_back [of lib b i load "plain g"] off show ?thesis
    by (cases "spin_loop lib b i load (plain g)") auto
next
  case (Some r)
  from spin_loop_plain_forth [OF this] off Some show ?thesis
    by (cases r) (auto simp: plain_result_def)
qed

lemma spin_source_plain:
  assumes off: "\<not> transform_enabled (pipe g)"
  shows "spin_source lib b i load (plain g) = map_run (\<lambda>(load, g). (load, plain g)) (spin_source lib b i load g)"
  by (cases "i < length (sources (pipe g))") (simp_all add: spin_source_def spin_loop_plain [OF off])

lemma spin_sources_plain:
  "\<not> transform_enabled (pipe g) \<Longrightarrow>
     spin_sources lib b is load (plain g) = map_run (\<lambda>(load, g). (load, plain g)) (spin_sources lib b is load g)"
proof (induction "is" arbitrary: g load)
  case (Cons i "is")
  show ?case
  proof (cases "spin_source lib b i load g")
    case None
    then show ?thesis using spin_source_plain [OF Cons.prems, of lib b i load] by simp
  next
    case (Some r)
    show ?thesis
    proof (cases r)
      case (Inl f)
      then show ?thesis using Some spin_source_plain [OF Cons.prems, of lib b i load] by simp
    next
      case (Inr a)
      obtain load1 g1 where a: "a = (load1, g1)" by (rule prod.exhaust)
      then have run: "spin_source lib b i load g = Some (Inr (load1, g1))" using Some Inr by simp
      then have "i < length (sources (pipe g))" by (auto simp: spin_source_def arr_get_def split: if_splits)
      then have "\<not> transform_enabled (pipe g1)"
        using spin_source_result [OF run] same_pipe_fields [of "pipe g" "pipe g1"] Cons.prems by blast
      then show ?thesis
        using Cons.IH [of g1 load1] run spin_source_plain [OF Cons.prems, of lib b i load] by simp
    qed
  qed
qed simp

lemma console_key_plain: "console_key c (plain g) = plain (console_key c g)"
  by (simp add: console_key_def)

lemma console_spin_plain: "console_spin env (plain g) = bind_res (console_spin env g) (\<lambda>g'. Inr (plain g'))"
proof -
  obtain now w1 where t: "time_us env (world g) = (now, w1)" by (rule prod.exhaust)
  obtain c w2 where c: "read_char env w1 = (c, w2)" by (rule prod.exhaust)
  have t': "time_us env (world (plain g)) = (now, w1)" using t by simp
  have "console_key c ((plain g)\<lparr>console_last_time := now, world := w2\<rparr>)
      = plain (console_key c (g\<lparr>console_last_time := now, world := w2\<rparr>))"
    using console_key_plain [of c "g\<lparr>console_last_time := now, world := w2\<rparr>"] by simp
  then show ?thesis
    unfolding console_spin_cases [OF t c] console_spin_cases [OF t' c] by simp
qed

lemma spin_finish_plain:
  "spin_finish b env t load (plain g) = bind_res (spin_finish b env t load g) (\<lambda>(rv, g'). Inr (rv, plain g'))"
  unfolding spin_finish_def
  by (cases "USE_CONSOLE b")
     (auto simp: console_spin_plain bind_res_assoc Let_def split: prod.splits intro!: bind_res_cong)

lemma spin_end_plain:
  fixes x :: "(bool \<times> ('w, 'x, 's, 'c) gateway) res option"
  shows "bind_run (map_run (\<lambda>(load, g). (load, plain g)) x) (\<lambda>(load, g). Some (spin_finish b env t load g))
    = map_run (\<lambda>(rv, g'). (rv, plain g')) (bind_run x (\<lambda>(load, g). Some (spin_finish b env t load g)))"
proof (cases x)
  case (Some r)
  show ?thesis
  proof (cases r)
    case (Inr y)
    obtain load g1 where "y = (load, g1)" by (rule prod.exhaust)
    with Some Inr show ?thesis
      by (cases "spin_finish b env t load g1") (auto simp: spin_finish_plain)
  qed (simp add: Some)
qed simp

lemma pipeline_spin_plain:
  assumes "\<not> transform_enabled (pipe g)"
  shows "pipeline_spin lib b env (plain g) = map_run (\<lambda>(rv, g'). (rv, plain g')) (pipeline_spin lib b env g)"
proof -
  obtain t w where t: "time_us env (world g) = (t, w)" by (rule prod.exhaust)
  have run: "spin_sources lib b is False ((plain g)\<lparr>world := w\<rparr>)
      = map_run (\<lambda>(load, g). (load, plain g)) (spin_sources lib b is False (g\<lparr>world := w\<rparr>))" for "is"
    using spin_sources_plain [of "g\<lparr>world := w\<rparr>" lib b "is" False] assms by simp
  show ?thesis using t by (simp add: pipeline_spin_def run spin_end_plain del: upt_4 max_ports spin_sources.simps)
qed

section \<open>Set-up with and without the transformers\<close>

text \<open>The program up to the end of at most \<open>n\<close> turns of its loop.\<close>

fun main_rounds ::
  "('x, 's, 'c) mavlink_lib \<Rightarrow> build \<Rightarrow> 'w env \<Rightarrow> nat \<Rightarrow> ('w, 'x, 's, 'c) gateway \<Rightarrow> ('w, 'x, 's, 'c) gateway res option" where
  "main_rounds lib b env 0 g = Some (Inr g)"
| "main_rounds lib b env (Suc n) g =
     (if terminated (pipe g) then Some (Inr g)
      else bind_run (pipeline_spin lib b env g)
             (\<lambda>(rv, g'). if rv \<noteq> error_code SUCC then Some (Inr g') else main_rounds lib b env n g'))"

definition main_after ::
  "('x, 's, 'c) mavlink_lib \<Rightarrow> build \<Rightarrow> ('a, 'o, 'x) host \<Rightarrow> ('a, 'o) world env \<Rightarrow> nat
     \<Rightarrow> (('a, 'o) world, 'x, 's, 'c) gateway \<Rightarrow> (('a, 'o) world, 'x, 's, 'c) gateway res option" where
  "main_after lib b h env n g = bind_run (Some (gateway_setup lib b h g)) (main_rounds lib b env n)"

text \<open>A spin does not look at \<^verbatim>\<open>USE_XOR\<close>.\<close>

lemma build_switches: "DEBUG (b\<lparr>USE_XOR := x\<rparr>) = DEBUG b" "USE_CONSOLE (b\<lparr>USE_XOR := x\<rparr>) = USE_CONSOLE b"
  by simp_all

lemma pipeline_push_build: "pipeline_push lib (b\<lparr>USE_XOR := x\<rparr>) m g = pipeline_push lib b m g"
  unfolding pipeline_push_def build_switches ..

lemma spin_byte_build: "spin_byte lib (b\<lparr>USE_XOR := x\<rparr>) i src y g = spin_byte lib b i src y g"
  unfolding spin_byte_def spin_message_def pipeline_push_build ..

lemma spin_step_build: "spin_step lib (b\<lparr>USE_XOR := x\<rparr>) i g = spin_step lib b i g"
  unfolding spin_step_def spin_byte_build ..

lemma spin_loop_build_forth:
  assumes run: "spin_loop lib b i load g = Some r"
  shows "\<forall>x. spin_loop lib (b\<lparr>USE_XOR := x\<rparr>) i load g = Some r" (is "?P lib b i load g r")
proof (rule spin_loop.raw_induct [where P = ?P, OF _ run])
  fix loop lib b i load g r
  assume 1: "\<And>lib b i load g r. loop lib b i load g = Some r \<Longrightarrow> ?P lib b i load g r"
    "(case spin_step lib b i g of Inl f \<Rightarrow> Some (Inl f)
      | Inr (again, g') \<Rightarrow> if again then loop lib b i True g' else Some (Inr (load, g'))) = Some r"
  show "?P lib b i load g r"
  proof (cases "spin_step lib b i g")
    case (Inl f)
    with 1(2) show ?thesis by (auto simp: spin_loop_unfold spin_step_build)
  next
    case (Inr a)
    obtain again g1 where step: "spin_step lib b i g = Inr (again, g1)" using Inr by (cases a) auto
    show ?thesis
    proof (cases again)
      case True
      with 1(2) step have "loop lib b i True g1 = Some r" by simp
      from 1(1) [OF this] True step show ?thesis by (simp add: spin_loop_unfold spin_step_build)
    next
      case False
      with 1(2) step show ?thesis by (auto simp: spin_loop_unfold spin_step_build)
    qed
  qed
qed

lemma spin_loop_build: "spin_loop lib (b\<lparr>USE_XOR := x\<rparr>) i load g = spin_loop lib b i load g"
proof (cases "spin_loop lib (b\<lparr>USE_XOR := x\<rparr>) i load g")
  case None
  then show ?thesis
    using spin_loop_build_forth [of lib b i load g] by (cases "spin_loop lib b i load g") auto
next
  case (Some r)
  then show ?thesis
    using spin_loop_build_forth [OF Some, rule_format, of "USE_XOR b"] by simp
qed

lemma spin_source_build: "spin_source lib (b\<lparr>USE_XOR := x\<rparr>) i load g = spin_source lib b i load g"
  unfolding spin_source_def spin_loop_build ..

lemma spin_sources_build: "spin_sources lib (b\<lparr>USE_XOR := x\<rparr>) is load g = spin_sources lib b is load g"
proof (induction "is" arbitrary: load g)
  case (Cons i "is")
  show ?case unfolding spin_sources.simps spin_source_build Cons.IH ..
qed simp

lemma pipeline_spin_build: "pipeline_spin lib (b\<lparr>USE_XOR := x\<rparr>) env g = pipeline_spin lib b env g"
  unfolding pipeline_spin_def spin_sources_build spin_finish_def build_switches ..

text \<open>Without a console a spin leaves the switch of the transformers alone.\<close>

lemma spin_keeps_transform:
  assumes "pipeline_spin lib b env g = Some (Inr (rv, g'))" "\<not> USE_CONSOLE b"
  shows "transform_enabled (pipe g') = transform_enabled (pipe g)"
proof -
  obtain t w0 where t: "time_us env (world g) = (t, w0)" by (rule prod.exhaust)
  obtain load g1 where g1: "spin_sources lib b [0 ..< MAX_SOURCES] False (g\<lparr>world := w0\<rparr>) = Some (Inr (load, g1))"
      "spin_finish b env t load g1 = Inr (rv, g')"
    using assms t by (auto simp: pipeline_spin_def bind_run_eq_Some_Inr simp del: upt_4 max_ports)
  have "transform_enabled (pipe g1) = transform_enabled (pipe g)"
    using same_pipe_fields [OF spin_sources_pipe [OF g1(1)]] by simp
  moreover have "transform_enabled (pipe g') = transform_enabled (pipe g1)"
    using g1(2) assms(2) by (auto simp: spin_finish_def res_simps Let_def split: prod.splits)
  ultimately show ?thesis by simp
qed

lemma main_rounds_plain:
  "\<not> transform_enabled (pipe g) \<Longrightarrow> \<not> USE_CONSOLE b \<Longrightarrow>
     main_rounds lib b env n (plain g) = map_run plain (main_rounds lib b env n g)"
proof (induction n arbitrary: g)
  case (Suc n)
  show ?case
  proof (cases "pipeline_spin lib b env g")
    case None
    then show ?thesis using pipeline_spin_plain [OF Suc.prems(1), of lib b env] by simp
  next
    case (Some r)
    show ?thesis
    proof (cases r)
      case (Inl f)
      then show ?thesis using Some pipeline_spin_plain [OF Suc.prems(1), of lib b env] by simp
    next
      case (Inr y)
      obtain rv g1 where y: "y = (rv, g1)" by (rule prod.exhaust)
      have run: "pipeline_spin lib b env g = Some (Inr (rv, g1))" using Some Inr y by simp
      have "main_rounds lib b env n (plain g1) = map_run plain (main_rounds lib b env n g1)"
        using Suc.IH [of g1] Suc.prems spin_keeps_transform [OF run] by simp
      then show ?thesis
        using run pipeline_spin_plain [OF Suc.prems(1), of lib b env] by simp
    qed
  qed
qed simp

lemma main_rounds_build: "main_rounds lib (b\<lparr>USE_XOR := x\<rparr>) env n g = main_rounds lib b env n g"
proof (induction n arbitrary: g)
  case (Suc n)
  show ?case unfolding main_rounds.simps pipeline_spin_build Suc.IH ..
qed simp

text \<open>The two set-ups leave the same gateway up to the transformers.\<close>

definition all_ports :: "('w, 'x, 's) pipeline_t \<Rightarrow> bool" where
  "all_ports p \<longleftrightarrow> length (sources p) = MAX_SOURCES \<and> length (snks p) = MAX_SINKS"

lemma hook_tcp_frame:
  "hook_tcp nt lib raw os ga port i j p w = Inr (rv, p', w') \<Longrightarrow>
     transform_enabled p' = transform_enabled p \<and> all_ports p' = all_ports p"
  by (auto simp: hook_tcp_def source_allocate_def sink_allocate_def Let_def res_simps all_ports_def
      split: prod.splits option.splits)

lemma hook_uart_frame:
  "hook_uart lib os ga dev i j p w = Inr (rv, p', w') \<Longrightarrow>
     transform_enabled p' = transform_enabled p \<and> all_ports p' = all_ports p"
  by (auto simp: hook_uart_def source_allocate_def sink_allocate_def Let_def res_simps all_ports_def
      split: prod.splits option.splits)

lemma setup_ports:
  assumes "pipeline_init lib g = Inr g1" "hook_ports lib h g1 = Inr g2" "hook_discard h g2 = Inr g3"
  shows "transform_enabled (pipe g3) = transform_enabled (pipe g) \<and> all_ports (pipe g3)"
proof -
  have "transform_enabled (pipe g1) = transform_enabled (pipe g) \<and> all_ports (pipe g1)"
    using assms(1) by (auto simp: pipeline_init_def security_policy_init_def Let_def res_simps all_ports_def)
  moreover have "transform_enabled (pipe g2) = transform_enabled (pipe g1) \<and> all_ports (pipe g2) = all_ports (pipe g1)"
    using assms(2)
    by (auto simp: hook_ports_def run_hook_def res_simps split: if_splits dest!: hook_tcp_frame hook_uart_frame)
  moreover have "transform_enabled (pipe g3) = transform_enabled (pipe g2) \<and> all_ports (pipe g3) = all_ports (pipe g2)"
    using assms(3) by (auto simp: hook_discard_def hook_stdio_sink_def sink_modify_def res_simps all_ports_def)
  ultimately show ?thesis by simp
qed

lemma add_xor_off: "add_xor lib (b\<lparr>USE_XOR := False\<rparr>) g = Inr g"
  by (simp add: add_xor_def)

lemma add_xor_plain:
  assumes "all_ports (pipe g)"
  shows "\<exists>p. add_xor lib (b\<lparr>USE_XOR := True\<rparr>) g = Inr (g\<lparr>pipe := p\<rparr>) \<and> plain_pipe p = plain_pipe (pipe g)
    \<and> transform_enabled p = transform_enabled (pipe g)"
proof (intro exI conjI)
  let ?p = "(pipe g)\<lparr>sources := (sources (pipe g))[1 := (sources (pipe g) ! 1)\<lparr>src_transform := Some (xor_decode lib)\<rparr>],
      snks := (snks (pipe g))[1 := (snks (pipe g) ! 1)\<lparr>snk_transform := Some (xor_encode lib)\<rparr>]\<rparr>"
  have "length (sources (pipe g)) = 4" "length (snks (pipe g)) = 4" using assms by (simp_all add: all_ports_def)
  then show "add_xor lib (b\<lparr>USE_XOR := True\<rparr>) g = Inr (g\<lparr>pipe := ?p\<rparr>)" "plain_pipe ?p = plain_pipe (pipe g)"
    by (simp_all add: add_xor_def add_transformer_def sink_modify_def sink_get_def plain_pipe_def
        plain_source_def map_update list_update_same_conv)
qed simp

lemma connect_sources_plain: "connect_sources (map plain_source ss) w = connect_sources ss w"
  by (induction ss arbitrary: w) (auto simp: plain_source_def intro!: bind_res_cong)

lemma connect_sinks_plain: "connect_sinks (map (\<lambda>snk. snk\<lparr>snk_transform := None\<rparr>) ss) = connect_sinks ss"
proof
  show "connect_sinks (map (\<lambda>snk. snk\<lparr>snk_transform := None\<rparr>) ss) w = connect_sinks ss w" for w
    by (induction ss arbitrary: w) (auto intro!: bind_res_cong)
qed

lemma connect_plain: "pipeline_connect (plain_pipe p) w = pipeline_connect p w"
  by (simp add: pipeline_connect_def plain_pipe_def connect_sources_plain connect_sinks_plain)

lemma connect_all_plain:
  assumes "pipeline_connect p (world g) = pipeline_connect (pipe g) (world g)"
    and "\<And>w. map_run plain (k (g\<lparr>pipe := p, world := w\<rparr>)) = map_run plain (k (g\<lparr>world := w\<rparr>))"
  shows "map_run plain (bind_run (Some (connect_all (g\<lparr>pipe := p\<rparr>))) k)
    = map_run plain (bind_run (Some (connect_all g)) k)"
  using assms by (cases "pipeline_connect (pipe g) (world g)") (simp_all add: connect_all_def)

text \<open>
  C38. In a build without a console, the program built with \<^verbatim>\<open>USE_XOR\<close> and the program built
  without it run alike: from the static state, whatever the ports, the devices, the traffic
  and the number \<open>n\<close> of turns of the main loop, both end in the same fault, hang in the same
  turn, or reach gateways that differ in nothing but the registered transformers. So the
  bytes on the wire are not XORed: \<^verbatim>\<open>add_transformer\<close> registers the pair, and no call sets
  \<^verbatim>\<open>transform_enabled\<close>.
\<close>

theorem xor_build_is_plain:
  "map_run plain (main_after lib (b\<lparr>USE_CONSOLE := False, USE_XOR := True\<rparr>) h env n (static_gateway lib c w))
   = map_run plain (main_after lib (b\<lparr>USE_CONSOLE := False, USE_XOR := False\<rparr>) h env n (static_gateway lib c w))"
proof -
  let ?b = "b\<lparr>USE_CONSOLE := False\<rparr>" and ?g = "static_gateway lib c w"
  let ?start = "bind_res (pipeline_init lib ?g) (\<lambda>g1. bind_res (hook_ports lib h g1) (hook_discard h))"
  have prepare: "gateway_setup lib b' h ?g = bind_res ?start (\<lambda>g3. bind_res (add_xor lib b' g3) connect_all)" for b'
    by (simp add: gateway_setup_def bind_res_assoc)
  show ?thesis
  proof (cases ?start)
    case (Inl f)
    then show ?thesis unfolding main_after_def prepare by simp
  next
    case (Inr g3)
    then have off: "\<not> transform_enabled (pipe g3)" and ports: "all_ports (pipe g3)"
      using setup_ports [of lib ?g _ h] by (auto simp: res_simps static_gateway_def static_pipeline_def)
    obtain p where p: "add_xor lib (?b\<lparr>USE_XOR := True\<rparr>) g3 = Inr (g3\<lparr>pipe := p\<rparr>)"
        "plain_pipe p = plain_pipe (pipe g3)" "transform_enabled p = transform_enabled (pipe g3)"
      using add_xor_plain [OF ports, of lib ?b] by blast
    have conn: "pipeline_connect p (world g3) = pipeline_connect (pipe g3) (world g3)"
      using connect_plain [of p] connect_plain [of "pipe g3"] p(2) by metis
    have "map_run plain (main_rounds lib ?b env n (g3\<lparr>pipe := p, world := w\<rparr>))
        = map_run plain (main_rounds lib ?b env n (g3\<lparr>world := w\<rparr>))" for w
      using main_rounds_plain [of "g3\<lparr>pipe := p, world := w\<rparr>" ?b lib env n]
        main_rounds_plain [of "g3\<lparr>world := w\<rparr>" ?b lib env n] p(2,3) off
      by (simp add: plain_def)
    from connect_all_plain [OF conn this] show ?thesis
      unfolding main_after_def prepare Inr main_rounds_build by (simp add: p(1) add_xor_off main_rounds_build)
  qed
qed

end
