(* ===== verification/Gateway_Program.thy ===== *)
theory Gateway_Program
  imports Xor_Build
begin

text \<open>
  The program as a whole: the default configuration \<^verbatim>\<open>pipeline_init\<close> installs survives the
  hooks, the connection and every turn of the main loop of \<^verbatim>\<open>main.c\<close>.
\<close>

section \<open>What the set-up and a spin keep\<close>

text \<open>\<open>guarded\<close> is what the reference monitor needs of the pipeline.\<close>

definition guarded :: "('x, 's, 'c) mavlink_lib \<Rightarrow> ('w, 'x, 's) pipeline_t \<Rightarrow> bool" where
  "guarded lib p \<longleftrightarrow> default_config lib p \<and> policy_enabled p \<and> \<not> terminated p"

lemma guarded_source: "guarded lib p \<Longrightarrow> guarded lib (p\<lparr>sources := (sources p)[i := src]\<rparr>)"
  by (simp add: guarded_def default_config_def pipeline_wf_def default_routes(5))

lemma guarded_sink:
  assumes "guarded lib p" "keeps_sinks (snk_transform snk)"
  shows "guarded lib (p\<lparr>snks := (snks p)[i := snk]\<rparr>)"
proof -
  have "\<forall>k \<in> set ((snks p)[i := snk]). keeps_sinks (snk_transform k)"
    using assms set_update_subset_insert [of "snks p" i snk] by (auto simp: guarded_def default_config_def pipeline_wf_def default_routes(5))
  with assms(1) show ?thesis by (simp add: guarded_def default_config_def pipeline_wf_def default_routes(5))
qed

lemma guarded_both:
  "guarded lib p \<Longrightarrow> keeps_sinks (snk_transform snk) \<Longrightarrow>
     guarded lib (p\<lparr>sources := (sources p)[i := src], snks := (snks p)[j := snk]\<rparr>)"
  using guarded_sink [of lib "p\<lparr>sources := (sources p)[i := src]\<rparr>" snk j] guarded_source [of lib p i src] by simp

lemma keeps_sinks_None [simp]: "keeps_sinks None"
  by (simp add: keeps_sinks_def)

lemma keeps_sinks_xor [simp]: "keeps_sinks (Some (xor_encode lib))"
  by (auto simp: keeps_sinks_def xor_encode_def res_simps Let_def case_prod_beta)

lemma guarded_sink_keeps: "guarded lib p \<Longrightarrow> i < length (snks p) \<Longrightarrow> keeps_sinks (snk_transform (snks p ! i))"
  by (simp add: guarded_def default_config_def pipeline_wf_def default_routes(5))

lemma source_allocate_guarded:
  "source_allocate p i fill = Inr p' \<Longrightarrow> guarded lib p \<Longrightarrow> guarded lib p'"
  by (auto simp: source_allocate_def res_simps intro!: guarded_source)

lemma sink_allocate_guarded:
  "sink_allocate p i fill = Inr p' \<Longrightarrow> (\<And>snk. snk_transform (fill snk) = snk_transform snk) \<Longrightarrow> guarded lib p \<Longrightarrow>
     guarded lib p'"
  by (auto simp: sink_allocate_def res_simps intro!: guarded_sink)

lemma hook_tcp_guarded:
  "hook_tcp nt lib raw os ga port i j p w = Inr (rv, p', w') \<Longrightarrow> guarded lib' p \<Longrightarrow> guarded lib' p'"
  by (auto simp: hook_tcp_def Let_def res_simps split: prod.splits option.splits
      dest!: source_allocate_guarded [where lib = lib'] sink_allocate_guarded [where lib = lib'])

lemma hook_uart_guarded:
  "hook_uart lib os ga dev i j p w = Inr (rv, p', w') \<Longrightarrow> guarded lib' p \<Longrightarrow> guarded lib' p'"
  by (auto simp: hook_uart_def Let_def res_simps split: prod.splits option.splits
      dest!: source_allocate_guarded [where lib = lib'] sink_allocate_guarded [where lib = lib'])

lemma setup_guarded:
  assumes "gateway_setup lib b h g = Inr g'" "length (policies (policy_mgmt (pipe g))) = MAX_POLICIES"
  shows "guarded lib (pipe g')"
proof -
  obtain g1 g2 g3 g4 where s: "pipeline_init lib g = Inr g1" "hook_ports lib h g1 = Inr g2" "hook_discard h g2 = Inr g3"
      "add_xor lib b g3 = Inr g4" "connect_all g4 = Inr g'"
    using assms by (auto simp: gateway_setup_def res_simps)
  have "guarded lib (pipe g1)"
    using s(1) pipeline_init_ok [OF assms(2), of lib] by (auto simp: guarded_def)
  then have "guarded lib (pipe g2)"
    using s(2) by (auto simp: hook_ports_def run_hook_def res_simps split: if_splits
        intro: hook_tcp_guarded hook_uart_guarded)
  then have "guarded lib (pipe g3)"
    using s(3)
    by (auto simp: hook_discard_def hook_stdio_sink_def sink_modify_def sink_get_def res_simps
        intro!: guarded_sink guarded_sink_keeps)
  then have "guarded lib (pipe g4)"
    using s(4)
    by (auto simp: add_xor_def add_transformer_def sink_modify_def sink_get_def res_simps split: if_splits
        intro!: guarded_both)
  moreover have "pipe g' = pipe g4"
    using s(5) by (auto simp: connect_all_def res_simps)
  ultimately show ?thesis by simp
qed

lemma same_pipe_guarded: "same_pipe p q \<Longrightarrow> guarded lib p \<Longrightarrow> guarded lib q"
  using same_pipe_fields [of p q] by (simp add: guarded_def default_config_def pipeline_wf_def default_routes(5))

lemma spin_guarded:
  assumes "pipeline_spin lib b env g = Some (Inr (rv, g'))" "\<not> USE_CONSOLE b" "guarded lib' (pipe g)"
  shows "guarded lib' (pipe g')"
proof -
  obtain t w0 where t: "time_us env (world g) = (t, w0)" by (rule prod.exhaust)
  obtain load g1 where g1: "spin_sources lib b [0 ..< MAX_SOURCES] False (g\<lparr>world := w0\<rparr>) = Some (Inr (load, g1))"
      "spin_finish b env t load g1 = Inr (rv, g')"
    using assms t by (auto simp: pipeline_spin_def bind_run_eq_Some_Inr simp del: upt_4 max_ports)
  have "guarded lib' (pipe g1)"
    using same_pipe_guarded [OF spin_sources_pipe [OF g1(1)]] assms(3) by simp
  moreover have "pipe g' = pipe g1"
    using g1(2) assms(2) by (auto simp: spin_finish_def res_simps Let_def split: prod.splits)
  ultimately show ?thesis by simp
qed

lemma main_rounds_guarded:
  "main_rounds lib b env n g = Some (Inr g') \<Longrightarrow> \<not> USE_CONSOLE b \<Longrightarrow> guarded lib' (pipe g) \<Longrightarrow> guarded lib' (pipe g')"
  by (induction n arbitrary: g) (auto simp: bind_run_eq_Some_Inr split: if_splits dest: spin_guarded)

section \<open>A program without devices, for witnesses\<close>

definition demo_host :: "(unit, demo_sys, unit) host" where
  "demo_host = \<lparr>STD_LIBC = False, STDC_NO_THREADS = False, host_os = demo_os, raw_message = (\<lambda>_. []),
     tcp_garbage = demo_tcp, uart_garbage = demo_uart, set_nonblock = (\<lambda>w. w), unset_nonblock = (\<lambda>w. w),
     message_info_of = (\<lambda>_. None), emit_report = (\<lambda>_ w. w)\<rparr>"

abbreviation demo_start :: "((unit, demo_sys) world, unit, unit, unit) gateway" where
  "demo_start \<equiv> static_gateway demo_lib () (demo_world [] [])"

lemma demo_setup:
  "\<exists>g. gateway_setup demo_lib demo_build demo_host demo_start = Inr g
     \<and> spin_ok (\<lambda>w. True) (\<lambda>i w. []) demo_build g"
proof -
  obtain p where p: "pipeline_init demo_lib demo_start = Inr (demo_start\<lparr>pipe := p, perf_secure_gateway := perf_init\<rparr>)"
      "default_config demo_lib p" "\<not> transform_enabled p"
      "sources p = replicate MAX_SOURCES (zero_source demo_lib)" "snks p = replicate MAX_SINKS zero_sink"
    using pipeline_init_ok [of demo_start demo_lib] by (auto simp: static_gateway_def static_pipeline_def)
  let ?snk = "zero_sink\<lparr>snk_init := Some (stdio_init (\<lambda>w. w)), snk_cleanup := Some (stdio_cleanup (\<lambda>w. w)),
       snk_route := Some (stdio_route (\<lambda>_. None) (\<lambda>_ w. w))\<rparr>"
  let ?p = "p\<lparr>snks := (replicate 4 zero_sink)[0 := ?snk]\<rparr>"
  let ?g = "demo_start\<lparr>pipe := ?p, perf_secure_gateway := perf_init\<rparr>"
  have "hook_discard demo_host (demo_start\<lparr>pipe := p, perf_secure_gateway := perf_init\<rparr>) = Inr ?g"
    using p(5) by (simp add: hook_discard_def demo_host_def hook_stdio_sink_def sink_modify_def sink_get_def)
  moreover have "connect_all ?g = Inr ?g"
    using p(4) by (simp add: connect_all_def pipeline_connect_def zero_source_def zero_sink_def numeral_eq_Suc
        static_gateway_def)
  ultimately have "gateway_setup demo_lib demo_build demo_host demo_start = Inr ?g"
    using p(1) by (simp add: gateway_setup_def hook_ports_def demo_host_def add_xor_def demo_build_def)
  moreover have keeps: "\<forall>snk \<in> set ((replicate 4 zero_sink)[0 := ?snk]). keeps_sinks (snk_transform snk)"
    by (simp add: numeral_eq_Suc zero_sink_def)
  have "default_config demo_lib ?p"
    using p(2) keeps by (simp add: default_config_def pipeline_wf_def default_routes(5))
  then have "spin_ok (\<lambda>w. True) (\<lambda>i w. []) demo_build ?g"
    using p(3,4) perf_show_ok_init
    by (auto simp: spin_ok_def gateway_wf_def default_config_def static_gateway_def drains_def sources_named_def
        zero_source_def discards_quietly_def demo_build_def sinks_total_def route_total_def zero_sink_def
        less_Suc_eq numeral_eq_Suc)
  ultimately show ?thesis by blast
qed

lemma demo_main:
  "\<exists>g. main_after demo_lib demo_build demo_host net_env 1 demo_start = Some (Inr g)"
proof -
  obtain g where g: "gateway_setup demo_lib demo_build demo_host demo_start = Inr g"
      "spin_ok (\<lambda>w. True) (\<lambda>i w. []) demo_build g"
    using demo_setup by blast
  have "env_ok (\<lambda>w. True) (\<lambda>i w. []) demo_build net_env" by (simp add: env_ok_def demo_build_def)
  from pipeline_spin_ok [OF g(2) this, of demo_lib] obtain g' where
    "pipeline_spin demo_lib demo_build net_env g = Some (Inr (0, g'))" by blast
  then show ?thesis using g(1) by (simp add: main_after_def)
qed

section \<open>Property\<close>

text \<open>
  C3. The running program keeps its monitor. Take a build without console and debug output,
  any system and any traffic, and stop the program after the set-up and any number of turns
  of its main loop: the default routes and the three policies are installed, the policies
  are enabled, and pushing a message they forbid returns \<open>SUCC\<close> and changes nothing, neither
  the devices nor the counters.
\<close>

theorem program_keeps_monitor:
  assumes "main_after lib (b\<lparr>DEBUG := False, USE_CONSOLE := False\<rparr>) h env n (static_gateway lib c w) = Some (Inr g)"
  shows "default_config lib (pipe g) \<and> policy_enabled (pipe g) \<and> \<not> terminated (pipe g)
    \<and> (\<forall>m. source m < MAX_SOURCES \<longrightarrow> forbidden lib m \<longrightarrow>
         (\<exists>m'. pipeline_push lib (b\<lparr>DEBUG := False, USE_CONSOLE := False\<rparr>) m g = Inr (error_code SUCC, m', g)))"
proof -
  let ?b = "b\<lparr>DEBUG := False, USE_CONSOLE := False\<rparr>"
  obtain g1 where g1: "gateway_setup lib ?b h (static_gateway lib c w) = Inr g1" "main_rounds lib ?b env n g1 = Some (Inr g)"
    using assms by (auto simp: main_after_def bind_run_eq_Some_Inr)
  have "guarded lib (pipe g1)"
    by (rule setup_guarded [OF g1(1)]) (simp add: static_gateway_def static_pipeline_def)
  then have "guarded lib (pipe g)"
    using main_rounds_guarded [OF g1(2)] by simp
  then show ?thesis
    using default_push_forbidden [of lib g _ ?b] by (auto simp: guarded_def discards_quietly_def)
qed

theorem program_keeps_monitor_witness:
  "\<exists>g m'. main_after demo_lib demo_build demo_host net_env 1 demo_start = Some (Inr g)
     \<and> pipeline_push demo_lib demo_build (demo_message 2 152) g = Inr (error_code SUCC, m', g)"
proof -
  obtain g where g: "main_after demo_lib demo_build demo_host net_env 1 demo_start = Some (Inr g)"
    using demo_main by blast
  have b: "demo_build\<lparr>DEBUG := False, USE_CONSOLE := False\<rparr> = demo_build" by (simp add: demo_build_def)
  have "forbidden demo_lib (demo_message 2 152 :: (unit, unit) message)" using demo_forbidden(1) [of 2] by simp
  moreover have "source (demo_message 2 152 :: (unit, unit) message) < MAX_SOURCES" by simp
  ultimately show ?thesis
    using program_keeps_monitor [of demo_lib demo_build demo_host net_env 1 "()" "demo_world [] []" g, unfolded b, OF g] g
    by blast
qed

end
