(* ===== verification/Safe_Runs.thy ===== *)
theory Safe_Runs
  imports Gateway_Main
begin

text \<open>
  Partial correctness of the main loop, for any invariant of the world: if the ports'
  functions keep the invariant and raise nothing but benign faults, then so do a push, a
  spin and the loop of \<^verbatim>\<open>main.c\<close>, whether or not they end. The rules follow the structure of
  the definitions, one rule for each.
\<close>

section \<open>Postconditions of fallible operations\<close>

definition yields :: "(fault \<Rightarrow> bool) \<Rightarrow> ('a \<Rightarrow> bool) \<Rightarrow> 'a res \<Rightarrow> bool" where
  "yields benign post r \<longleftrightarrow> (case r of Inl f \<Rightarrow> benign f | Inr x \<Rightarrow> post x)"

lemma yields_simps [simp]: "yields benign post (Inl f) = benign f" "yields benign post (Inr x) = post x"
  by (simp_all add: yields_def)

lemma yields_bind:
  "yields benign mid r \<Longrightarrow> (\<And>x. r = Inr x \<Longrightarrow> mid x \<Longrightarrow> yields benign post (k x)) \<Longrightarrow> yields benign post (bind_res r k)"
  by (cases r) simp_all

lemma yields_weaken: "yields benign post r \<Longrightarrow> (\<And>x. post x \<Longrightarrow> post' x) \<Longrightarrow> yields benign post' r"
  by (cases r) simp_all

text \<open>The faults the gateway's own code can raise, as opposed to a port's.\<close>

definition own_fault :: "fault \<Rightarrow> bool" where
  "own_fault f \<longleftrightarrow> f \<in> {Assert_Failed, Out_Of_Bounds, Div_By_Zero}"

lemma own_faults [simp]: "own_fault Assert_Failed" "own_fault Out_Of_Bounds" "own_fault Div_By_Zero"
  by (simp_all add: own_fault_def)

abbreviation own :: "'a res \<Rightarrow> bool" where
  "own \<equiv> yields own_fault (\<lambda>_. True)"

named_theorems own_rules \<open>operations that raise faults of their own only\<close>

lemma own_Inr [simp]: "own (Inr x)"
  by simp

lemma own_bind [own_rules]: "own r \<Longrightarrow> (\<And>x. r = Inr x \<Longrightarrow> own (k x)) \<Longrightarrow> own (bind_res r k)"
  by (rule yields_bind)

lemma own_assert [own_rules]: "own k \<Longrightarrow> own (assert_that b k)"
  by (simp add: assert_that_def)

lemma own_arrays [own_rules]: "own (arr_get xs i)" "own (arr_put xs i x)" "own (arr_update xs i h)"
  by (simp_all add: arr_get_def arr_put_def arr_update_def)

lemma own_bitmap [own_rules]: "own (bitmap_set b i)" "own (bitmap_test b i)"
  unfolding bitmap_set_def bitmap_test_def by (intro own_rules own_Inr)+

lemma own_route [own_rules]: "own (route_table_route rt m)"
  unfolding route_table_route_def by (intro own_rules own_Inr)

text \<open>The inspection calls the functions of every registered policy.\<close>

definition armed :: "('x, 's) security_policy_mgmt_t \<Rightarrow> bool" where
  "armed pm \<longleftrightarrow> (\<forall>i < count pm. i < length (policies pm) \<longrightarrow>
     match (policies pm ! i) \<noteq> None \<and> check (policies pm ! i) \<noteq> None)"

lemma own_inspect_loop:
  "armed pm \<Longrightarrow> \<forall>i \<in> set is. i < count pm \<Longrightarrow> own (inspect_loop pm is m)"
proof (induction pm "is" m rule: inspect_loop.induct)
  case (2 pm i "is" m)
  show ?case
  proof (cases "i < length (policies pm)")
    case True
    then obtain f c where "match (policies pm ! i) = Some f" "check (policies pm ! i) = Some c"
      using "2.prems" by (auto simp: armed_def)
    with 2 True show ?thesis
      by (auto simp: Let_def arr_get_def intro!: own_rules split: prod.splits)
  qed (simp add: arr_get_def)
qed simp

lemma own_inspect: "armed (policy_mgmt p) \<Longrightarrow> own (pipeline_inspect p m)"
  by (simp add: pipeline_inspect_def own_inspect_loop)

lemma own_get_sink [own_rules]: "own (pipeline_get_sink p i)"
  unfolding pipeline_get_sink_def sink_get_def by (intro own_rules)

lemma own_port_unit [own_rules]: "own (port_unit_get p j i)" "own (port_unit_put p j i u)"
  unfolding port_unit_get_def port_unit_put_def by (intro own_rules own_Inr)+

lemma own_perf_update [own_rules]: "own (perf_port_unit_update lib p unit i m)"
  unfolding perf_port_unit_update_def by (cases unit) (auto intro!: own_rules)

lemma own_tables [own_rules]: "own (get2 xss j i)" "own (put2 xss j i x)" "own (udiv a b)"
  unfolding get2_def put2_def udiv_def by (auto intro!: own_rules)

lemma own_query [own_rules]: "own (perf_port_unit_query p j i now)"
  unfolding perf_port_unit_query_def by (intro own_rules own_Inr)

lemma own_show_queries [own_rules]: "own (show_queries now ijs p r)"
  by (induction now ijs p r rule: show_queries.induct) (auto intro!: own_rules)

lemma own_port_line [own_rules]: "own (port_line p r j i)"
  unfolding port_line_def Let_def by (auto intro!: own_rules)

lemma own_show_lines [own_rules]: "own (show_lines ijs p r)"
  by (induction ijs p r rule: show_lines.induct) (auto intro!: own_rules)

lemma own_gateway_line [own_rules]: "own (gateway_line r)"
  unfolding gateway_line_def Let_def by (intro own_rules own_Inr)

lemma own_perf_show [own_rules]: "own (perf_show p st now)"
  unfolding perf_show_def Let_def by (auto intro!: own_rules split: prod.splits)

lemma own_xor_loop: "own (xor_crypto_loop p n i)"
proof (induction p n i rule: xor_crypto_loop.induct)
  case (1 p n i)
  then show ?case by (subst xor_crypto_loop.simps) (auto intro!: own_rules)
qed

lemma own_xor [own_rules]: "own (xor_encode lib m)" "own (xor_decode lib m)"
  unfolding xor_encode_def xor_decode_def xor_crypto_def Let_def
  by (auto intro!: own_rules own_xor_loop split: prod.splits)

lemma own_print_field [own_rules]: "own (print_field p t k)"
  by (cases "(p, t, k)" rule: print_field.cases) (auto simp: peek_def)

lemma own_print_fields [own_rules]: "own (print_fields p fs)"
  by (induction p fs rule: print_fields.induct) (auto intro!: own_rules)

lemma own_sink_list [own_rules]: "own (sink_list b is)"
  by (induction b "is" rule: sink_list.induct) (auto intro!: own_rules)

lemma own_report [own_rules]: "own (stdio_report_of info m)"
  unfolding stdio_report_of_def by (auto intro!: own_rules split: option.splits)

section \<open>Invariants of the main loop\<close>

text \<open>\<open>ok\<close> is the invariant of the world, \<open>benign\<close> the faults that may end a run.\<close>

definition transform_safe :: "(fault \<Rightarrow> bool) \<Rightarrow> ('x, 's) transform option \<Rightarrow> bool" where
  "transform_safe benign t \<longleftrightarrow> (\<forall>f m. t = Some f \<longrightarrow> yields benign (\<lambda>_. True) (f m))"

definition source_safe :: "(fault \<Rightarrow> bool) \<Rightarrow> ('w \<Rightarrow> bool) \<Rightarrow> ('w, 'x, 's) source_t \<Rightarrow> bool" where
  "source_safe benign ok src \<longleftrightarrow> transform_safe benign (src_transform src)
     \<and> (\<forall>f w. src_has_more src = Some f \<longrightarrow> ok w \<longrightarrow> yields benign (\<lambda>(v, w'). ok w') (f (src_opaque src) w))
     \<and> (\<forall>f w. src_read_byte src = Some f \<longrightarrow> ok w \<longrightarrow> yields benign (\<lambda>(v, w'). ok w') (f (src_opaque src) w))"

definition sink_safe :: "(fault \<Rightarrow> bool) \<Rightarrow> ('w \<Rightarrow> bool) \<Rightarrow> ('w, 'x, 's) sink_t \<Rightarrow> bool" where
  "sink_safe benign ok snk \<longleftrightarrow> transform_safe benign (snk_transform snk)
     \<and> (\<forall>f m w. snk_route snk = Some f \<longrightarrow> ok w \<longrightarrow> yields benign (\<lambda>(v, w'). ok w') (f (snk_opaque snk) m w))"

definition ports_safe :: "(fault \<Rightarrow> bool) \<Rightarrow> ('w \<Rightarrow> bool) \<Rightarrow> ('w, 'x, 's) pipeline_t \<Rightarrow> bool" where
  "ports_safe benign ok p \<longleftrightarrow> (\<forall>src \<in> set (sources p). source_safe benign ok src)
     \<and> (\<forall>snk \<in> set (snks p). sink_safe benign ok snk) \<and> armed (policy_mgmt p)"

text \<open>The clock and the console may do anything to the world that keeps the invariant.\<close>

definition env_safe :: "('w \<Rightarrow> bool) \<Rightarrow> 'w env \<Rightarrow> bool" where
  "env_safe ok env \<longleftrightarrow> (\<forall>w. ok w \<longrightarrow> ok (snd (clock_gettime env w)) \<and> ok (snd (read_char env w)))"

definition safe_state :: "(fault \<Rightarrow> bool) \<Rightarrow> ('w \<Rightarrow> bool) \<Rightarrow> ('w, 'x, 's, 'c) gateway \<Rightarrow> bool" where
  "safe_state benign ok g \<longleftrightarrow> ok (world g) \<and> ports_safe benign ok (pipe g)"

lemma safe_state_simps [simp]:
  "safe_state benign ok (g\<lparr>perf_secure_gateway := pf\<rparr>) = safe_state benign ok g"
  "safe_state benign ok (g\<lparr>total_bytes := n\<rparr>) = safe_state benign ok g"
  "safe_state benign ok (g\<lparr>chan := c\<rparr>) = safe_state benign ok g"
  "safe_state benign ok (g\<lparr>show_state := st\<rparr>) = safe_state benign ok g"
  "safe_state benign ok (g\<lparr>log := ls\<rparr>) = safe_state benign ok g"
  "safe_state benign ok (g\<lparr>console_last_time := t\<rparr>) = safe_state benign ok g"
  "safe_state benign ok (g\<lparr>world := w\<rparr>) \<longleftrightarrow> ok w \<and> ports_safe benign ok (pipe g)"
  "safe_state benign ok (g\<lparr>pipe := p\<rparr>) \<longleftrightarrow> ok (world g) \<and> ports_safe benign ok p"
  by (auto simp: safe_state_def)

locale safe_run =
  fixes benign :: "fault \<Rightarrow> bool" and ok :: "'w \<Rightarrow> bool"
  assumes own_benign: "own_fault f \<Longrightarrow> benign f"
begin

lemma own_yields: "own r \<Longrightarrow> yields benign (\<lambda>_. True) r"
  by (cases r) (auto intro: own_benign)

lemma own_step: "own r \<Longrightarrow> (\<And>x. r = Inr x \<Longrightarrow> yields benign post (k x)) \<Longrightarrow> yields benign post (bind_res r k)"
  by (rule yields_bind [OF own_yields])

lemma transform_step:
  "transform_safe benign t \<Longrightarrow> (\<And>m'. yields benign post (k m')) \<Longrightarrow> yields benign post (bind_res (apply_transform e t m) k)"
  by (rule yields_bind [of _ "\<lambda>_. True"]) (auto simp: apply_transform_def transform_safe_def split: option.split)

lemma get_sink_safe:
  "pipeline_get_sink p i = Inr snk \<Longrightarrow> ports_safe benign ok p \<Longrightarrow> sink_safe benign ok snk"
  by (auto simp: pipeline_get_sink_def sink_get_def ports_safe_def res_simps)

lemma route_step:
  assumes "sink_safe benign ok snk" "snk_route snk = Some f" "ok w"
    and "\<And>v w'. ok w' \<Longrightarrow> yields benign post (k (v, w'))"
  shows "yields benign post (bind_res (f (snk_opaque snk) m w) k)"
  using assms by (intro yields_bind [of _ "\<lambda>(v, w'). ok w'"]) (auto simp: sink_safe_def)

lemma deliver_safe:
  "safe_state benign ok g \<Longrightarrow> yields benign (\<lambda>(m', g'). safe_state benign ok g') (deliver_loop lib is m g)"
proof (induction "is" arbitrary: m g)
  case (Cons i "is")
  have sink: "yields benign (\<lambda>(m', g'). safe_state benign ok g') (case snk_route snk of
        None \<Rightarrow> deliver_loop lib is m g
      | Some route \<Rightarrow>
          bind_res (apply_transform (transform_enabled (pipe g)) (snk_transform snk) m) (\<lambda>m1.
          bind_res (route (snk_opaque snk) m1 (world g)) (\<lambda>(_, w).
          bind_res (perf_port_unit_update lib (perf_secure_gateway g) PERF_PORT_UNIT_TYPE_SINK i m1) (\<lambda>pf.
            deliver_loop lib is m1 (g\<lparr>world := w, perf_secure_gateway := pf\<rparr>)))))"
    if "pipeline_get_sink (pipe g) i = Inr snk" for snk
  proof (cases "snk_route snk")
    case (Some f)
    have safe: "sink_safe benign ok snk" "ok (world g)" "ports_safe benign ok (pipe g)"
      using get_sink_safe [OF that] Cons.prems by (auto simp: safe_state_def)
    with Some show ?thesis
      by (auto intro!: transform_step route_step own_step [OF own_perf_update] Cons.IH simp: sink_safe_def)
  qed (use Cons in simp)
  show ?case
    unfolding deliver_loop.simps
    by (intro own_step [OF own_bitmap(2)]) (auto intro!: own_step [OF own_get_sink] sink Cons.IH Cons.prems)
qed simp

lemma discarded_safe:
  assumes "safe_state benign ok g"
  shows "yields benign (safe_state benign ok) (route_discarded m g)"
  unfolding route_discarded_def
proof (rule own_step [OF own_get_sink])
  fix snk assume "pipeline_get_sink (pipe g) (sink_index SINK_TYPE_DISCARD) = Inr snk"
  then have "sink_safe benign ok snk" using get_sink_safe assms by (auto simp: safe_state_def)
  with assms show "yields benign (safe_state benign ok) (case snk_route snk of None \<Rightarrow> Inr g
      | Some route \<Rightarrow> bind_res (route (snk_opaque snk) m (world g)) (\<lambda>(_, w). Inr (g\<lparr>world := w\<rparr>)))"
    by (cases "snk_route snk") (auto simp: safe_state_def intro!: route_step)
qed

lemma push_safe:
  assumes "safe_state benign ok g"
  shows "yields benign (\<lambda>(rv, m', g'). safe_state benign ok g') (pipeline_push lib b m g)"
proof -
  have out: "yields benign (\<lambda>(rv, m', g'). safe_state benign ok g')
      (bind_res (route_discarded m2 g) (\<lambda>g1. Inr (rv, m2, g1)))" for m2 and rv :: int
    by (rule yields_bind [OF discarded_safe [OF assms]]) simp
  have "in": "yields benign (\<lambda>(rv, m', g'). safe_state benign ok g')
      (bind_res (deliver_loop lib is m2 g) (\<lambda>(m3, g1). Inr (rv, m3, g1)))" for "is" m2 and rv :: int
    by (rule yields_bind [OF deliver_safe [OF assms]]) auto
  have inspect: "own (pipeline_inspect (pipe g) m2)" for m2
    using assms by (intro own_inspect) (simp add: safe_state_def ports_safe_def)
  show ?thesis
    unfolding pipeline_push_def
    by (auto intro!: own_step [OF own_route] own_step [OF inspect] own_step [OF own_bitmap(2)] out "in" assms
        simp del: deliver_loop.simps)
qed

lemma message_safe:
  assumes "safe_state benign ok g" "source_safe benign ok src"
  shows "yields benign (\<lambda>(m', g'). safe_state benign ok g') (spin_message lib b i src m g)"
proof -
  have push: "yields benign (\<lambda>(m', g'). safe_state benign ok g')
      (bind_res (pipeline_push lib b m2 (g\<lparr>perf_secure_gateway := pf\<rparr>)) (\<lambda>(_, m3, g1). Inr (m3, g1)))" for m2 pf
    by (rule yields_bind [OF push_safe]) (use assms in auto)
  show ?thesis
    unfolding spin_message_def Let_def
    by (intro own_step [OF own_perf_update] transform_step push) (use assms in \<open>simp add: source_safe_def\<close>)
qed

lemma set_cur_safe: "ports_safe benign ok p \<Longrightarrow> i < length (sources p) \<Longrightarrow> ports_safe benign ok (set_cur p i m)"
  using nth_mem [of i "sources p"]
  by (auto simp: ports_safe_def set_cur_def source_safe_def dest!: subsetD [OF set_update_subset_insert])

lemma byte_safe:
  assumes "safe_state benign ok g" "source_safe benign ok src" "i < length (sources (pipe g))"
  shows "yields benign (safe_state benign ok) (spin_byte lib b i src x g)"
proof -
  obtain rv c ms st where parse: "mavlink_parse_char lib i x (chan g) (msg (src_cur src)) (status (src_cur src))
      = (rv, c, ms, st)" by (metis prod_cases4)
  have "yields benign (safe_state benign ok) (bind_res (spin_message lib b i src m (g\<lparr>total_bytes := n, chan := c\<rparr>))
      (\<lambda>(m', g2). Inr (g2\<lparr>pipe := set_cur (pipe g2) i m'\<rparr>)))" for m n
  proof (rule yields_bind [OF message_safe])
    fix y assume "spin_message lib b i src m (g\<lparr>total_bytes := n, chan := c\<rparr>) = Inr y"
      "case y of (m', g') \<Rightarrow> safe_state benign ok g'"
    moreover from this(1) have "length (sources (pipe (snd y))) = length (sources (pipe g))"
      by (cases y) (auto dest: spin_message_pipe)
    ultimately show "yields benign (safe_state benign ok) (case y of (m', g2) \<Rightarrow> Inr (g2\<lparr>pipe := set_cur (pipe g2) i m'\<rparr>))"
      using assms(3) by (cases y) (auto simp: safe_state_def set_cur_safe)
  qed (use assms in simp_all)
  then show ?thesis
    using parse assms by (cases rv) (auto simp: spin_byte_def Let_def set_cur_safe safe_state_def)
qed

lemma source_at: "ports_safe benign ok p \<Longrightarrow> i < length (sources p) \<Longrightarrow> source_safe benign ok (sources p ! i)"
  by (simp add: ports_safe_def)

text \<open>A source is asked and read only when it has both functions.\<close>

definition callable :: "('w, 'x, 's) pipeline_t \<Rightarrow> nat \<Rightarrow> bool" where
  "callable p i \<longleftrightarrow> i < length (sources p) \<longrightarrow> src_has_more (sources p ! i) \<noteq> None \<and> src_read_byte (sources p ! i) \<noteq> None"

lemma callable_step: "spin_step lib b i g = Inr (again, g') \<Longrightarrow> callable (pipe g) i \<Longrightarrow> callable (pipe g') i"
  using same_pipe_fields [OF spin_step_same, of lib b i g again g'] same_pipe_source [OF spin_step_same, of lib b i g again g' i]
  by (auto simp: callable_def)

lemma step_safe:
  assumes "safe_state benign ok g" "callable (pipe g) i"
  shows "yields benign (\<lambda>(again, g'). safe_state benign ok g') (spin_step lib b i g)"
proof (cases "i < length (sources (pipe g))")
  case True
  let ?src = "sources (pipe g) ! i"
  have src: "source_safe benign ok ?src" and w: "ok (world g)" and ports: "ports_safe benign ok (pipe g)"
    using assms source_at [of "pipe g" i] True by (auto simp: safe_state_def)
  obtain h r where fns: "src_has_more ?src = Some h" "src_read_byte ?src = Some r"
    using assms(2) True by (auto simp: callable_def)
  have byte: "yields benign (\<lambda>(again, g'). safe_state benign ok g')
      (bind_res (spin_byte lib b i ?src x (g\<lparr>world := w2\<rparr>)) (\<lambda>g'. Inr (True, g')))" if "ok w2" for x w2
    by (rule yields_bind [OF byte_safe]) (use that True src ports in simp_all)
  have more: "yields benign (\<lambda>(v, w'). ok w') (h (src_opaque ?src) w1)" if "ok w1" for w1
    using src fns that by (simp add: source_safe_def)
  have read: "yields benign (\<lambda>(v, w'). ok w') (r (src_opaque ?src) w1)" if "ok w1" for w1
    using src fns that by (simp add: source_safe_def)
  show ?thesis
    unfolding spin_step_def using True w ports fns
    by (auto simp: arr_get_def intro!: yields_bind [OF more] yields_bind [OF read] byte)
qed (simp add: spin_step_def own_benign)

lemma loop_safe:
  assumes run: "spin_loop lib b i load g = Some r" and safe: "safe_state benign ok g" "callable (pipe g) i"
  shows "yields benign (\<lambda>(load', g'). safe_state benign ok g') r"
proof -
  have "safe_state benign ok g \<longrightarrow> callable (pipe g) i \<longrightarrow> yields benign (\<lambda>(load', g'). safe_state benign ok g') r"
    (is "?P lib b i load g r")
  proof (rule spin_loop.raw_induct [where P = ?P, OF _ run])
    fix loop lib b i load g r
    assume 1: "\<And>lib b i load g r. loop lib b i load g = Some r \<Longrightarrow> ?P lib b i load g r"
      "(case spin_step lib b i g of Inl f \<Rightarrow> Some (Inl f)
        | Inr (again, g') \<Rightarrow> if again then loop lib b i True g' else Some (Inr (load, g'))) = Some r"
    show "?P lib b i load g r"
    proof (intro impI)
      assume "safe_state benign ok g" "callable (pipe g) i"
      from step_safe [OF this, of lib b] callable_step [OF _ this(2), of lib b] 1
      show "yields benign (\<lambda>(load', g'). safe_state benign ok g') r"
        by (cases "spin_step lib b i g") (auto split: if_splits)
    qed
  qed
  with safe show ?thesis by blast
qed

lemma source_run_safe:
  assumes "spin_source lib b i load g = Some r" "safe_state benign ok g"
  shows "yields benign (\<lambda>(load', g'). safe_state benign ok g') r"
  using assms loop_safe [of lib b i load g r]
  by (cases "i < length (sources (pipe g))")
     (auto simp: spin_source_def arr_get_def own_benign callable_def split: if_splits)

lemma sources_run_safe:
  "spin_sources lib b is load g = Some r \<Longrightarrow> safe_state benign ok g \<Longrightarrow>
     yields benign (\<lambda>(load', g'). safe_state benign ok g') r"
proof (induction "is" arbitrary: load g)
  case (Cons i "is")
  show ?case
  proof (cases "spin_source lib b i load g")
    case (Some x)
    then show ?thesis
      using source_run_safe [OF Some Cons.prems(2)] Cons.prems(1) Cons.IH by (cases x) auto
  qed (use Cons in simp)
qed auto

lemma time_safe: "env_safe ok env \<Longrightarrow> time_us env w = (t, w') \<Longrightarrow> ok w \<Longrightarrow> ok w'"
  unfolding env_safe_def time_us_def by (cases "clock_gettime env w") force

lemma console_safe:
  assumes "env_safe ok env" "safe_state benign ok g"
  shows "yields benign (safe_state benign ok) (console_spin env g)"
proof -
  obtain now w1 where t: "time_us env (world g) = (now, w1)" by (rule prod.exhaust)
  obtain c w2 where c: "read_char env w1 = (c, w2)" by (rule prod.exhaust)
  have w1: "ok w1" and ports: "ports_safe benign ok (pipe g)"
    using assms(2) time_safe [OF assms(1) t] by (simp_all add: safe_state_def)
  moreover have "ok (snd (read_char env w1))" using assms(1) w1 unfolding env_safe_def by blast
  ultimately have "ok w1" "ok w2" "ports_safe benign ok (pipe g)" by (simp_all add: c)
  then show ?thesis
    unfolding console_spin_cases [OF t c]
    by (auto simp: safe_state_def console_key_def ports_safe_def own_benign)
qed

lemma finish_safe:
  assumes "env_safe ok env" "safe_state benign ok g"
  shows "yields benign (\<lambda>(rv, g'). safe_state benign ok g') (spin_finish b env t load g)"
  unfolding spin_finish_def
proof (rule yields_bind [of _ "safe_state benign ok"])
  show "yields benign (safe_state benign ok) (if USE_CONSOLE b then console_spin env g else Inr g)"
    using assms by (simp add: console_safe)
  fix g1 assume g1: "safe_state benign ok g1"
  obtain tend w1 where t1: "time_us env (world g1) = (tend, w1)" by (rule prod.exhaust)
  obtain now w2 where t2: "time_us env w1 = (now, w2)" by (rule prod.exhaust)
  have "ok w2" "ports_safe benign ok (pipe g1)"
    using g1 time_safe [OF assms(1) t1] time_safe [OF assms(1) t2] by (auto simp: safe_state_def)
  then show "yields benign (\<lambda>(rv, g'). safe_state benign ok g')
      (let (tend, w1) = time_us env (world g1);
           pf = perf_exec_unit_update (perf_secure_gateway g1) (tend - t) load;
           (now, w2) = time_us env w1
       in bind_res (perf_show pf (show_state g1) now) (\<lambda>(lines, pf', st).
            Inr (error_code SUCC, g1\<lparr>world := w2, perf_secure_gateway := pf', show_state := st,
                   log := log g1 @ lines\<rparr>)))"
    by (auto simp: t1 t2 intro!: own_step [OF own_perf_show])
qed

lemma spin_safe:
  assumes "pipeline_spin lib b env g = Some r" "env_safe ok env" "safe_state benign ok g"
  shows "yields benign (\<lambda>(rv, g'). safe_state benign ok g') r"
proof -
  obtain t w0 where t: "time_us env (world g) = (t, w0)" by (rule prod.exhaust)
  then have g: "safe_state benign ok (g\<lparr>world := w0\<rparr>)"
    using assms time_safe [OF assms(2) t] by (auto simp: safe_state_def)
  show ?thesis
  proof (cases "spin_sources lib b [0 ..< MAX_SOURCES] False (g\<lparr>world := w0\<rparr>)")
    case (Some x)
    then show ?thesis
      using sources_run_safe [OF Some g] assms(1) t finish_safe [OF assms(2)]
      by (cases x) (auto simp: pipeline_spin_def simp del: upt_4 max_ports spin_sources.simps)
  qed (use assms(1) t in \<open>simp add: pipeline_spin_def del: upt_4 max_ports spin_sources.simps\<close>)
qed

lemma main_loop_safe:
  assumes run: "main_loop lib b env g = Some r" and env: "env_safe ok env" and safe: "safe_state benign ok g"
  shows "yields benign (safe_state benign ok) r"
proof -
  have "env_safe ok env \<longrightarrow> safe_state benign ok g \<longrightarrow> yields benign (safe_state benign ok) r" (is "?P lib b env g r")
  proof (rule main_loop.raw_induct [where P = ?P, OF _ run])
    fix loop lib b env g r
    assume 1: "\<And>lib b env g r. loop lib b env g = Some r \<Longrightarrow> ?P lib b env g r"
      "(if terminated (pipe g) then Some (Inr g)
        else case pipeline_spin lib b env g of None \<Rightarrow> None | Some (Inl f) \<Rightarrow> Some (Inl f)
          | Some (Inr (rv, g')) \<Rightarrow> if rv \<noteq> error_code SUCC then Some (Inr g') else loop lib b env g') = Some r"
    show "?P lib b env g r"
    proof (intro impI)
      assume "env_safe ok env" "safe_state benign ok g"
      with spin_safe [of lib b env g] 1 show "yields benign (safe_state benign ok) r"
        by (cases "pipeline_spin lib b env g") (auto split: if_splits sum.splits)
    qed
  qed
  with env safe show ?thesis by blast
qed

end

end
