(* ===== verification/Network_Service.thy ===== *)
theory Network_Service
  imports Network_Gateway Gateway_Main
begin

text \<open>
  A gateway of network ports in service: rounds in which first the ports' threads run, each
  any number of passes, and then the main loop spins. Whatever the network does, every
  round ends and leaves the gateway as the next one needs it.
\<close>

section \<open>The ports' threads\<close>

fun kind_pass :: "('a, 'o) os \<Rightarrow> device_kind \<Rightarrow> nat \<Rightarrow> ('a, 'o) world \<Rightarrow> (int option \<times> ('a, 'o) world) res" where
  "kind_pass os Uart_Kind a w = bind_res (uart_server_step os a w) (\<lambda>(_, w'). Inr (None, w'))"
| "kind_pass os Udp_Kind a w = udp_server_pass os a w"
| "kind_pass os Tcpout_Kind a w = tcpout_server_pass os a w"
| "kind_pass os Tcp_Kind a w = tcp_server_pass os a w"

text \<open>\<^verbatim>\<open>recv\<close> and \<^verbatim>\<open>recvfrom\<close> return at most the bytes asked for.\<close>

definition recv_bounded :: "('a, 'o) os \<Rightarrow> bool" where
  "recv_bounded os \<longleftrightarrow> (\<forall>fd n s bs. fst (os_recv os fd n s) = Some bs \<longrightarrow> length bs \<le> n)
     \<and> (\<forall>fd n s bs peer. fst (os_recvfrom os fd n s) = Some (bs, peer) \<longrightarrow> length bs \<le> n)"

lemma recv_boundedD:
  "recv_bounded os \<Longrightarrow> os_recv os fd n s = (Some bs, s') \<Longrightarrow> length bs \<le> n"
  "recv_bounded os \<Longrightarrow> os_recvfrom os fd n s = (Some (bs, peer), s') \<Longrightarrow> length bs \<le> n"
  unfolding recv_bounded_def by (metis fst_conv)+

text \<open>A pass over the open port \<open>a\<close>: no fault, the port stays open, no other struct changes.\<close>

definition pass_ok :: "device_kind \<Rightarrow> nat \<Rightarrow> ('a, 'o) world \<Rightarrow> (int option \<times> ('a, 'o) world) res \<Rightarrow> bool" where
  "pass_ok k a w r \<longleftrightarrow> (\<exists>v w'. r = Inr (v, w') \<and> kind_buffer k a w' \<noteq> None \<and> (\<forall>b. b \<noteq> a \<longrightarrow> heap w' b = heap w b))"

lemma rx_fill_wf:
  assumes "rx_wf rx" "length bs \<le> BUFFER_BYTES"
  shows "\<exists>rx'. rx_fill rx bs = Inr rx' \<and> rx_wf rx'"
  using assms by (auto simp: rx_fill_def rx_wf_def)

lemma pass_ok_put:
  assumes "\<forall>b. b \<noteq> a \<longrightarrow> heap w1 b = heap w b"
  shows "udp_initialized u \<and> rx_wf (udp_rx u) \<and> length (udp_output u) = BUFFER_BYTES \<Longrightarrow>
      pass_ok Udp_Kind a w (Inr (v, heap_put a (Udp u) w1))"
    "tcp_initialized t \<and> rx_wf (tcp_rx t) \<and> length (tcp_output t) = BUFFER_BYTES \<Longrightarrow>
      pass_ok Tcp_Kind a w (Inr (v, heap_put a (Tcp t) w1))"
    "tcpout_initialized q \<and> rx_wf (tcpout_rx q) \<and> length (tcpout_output q) = BUFFER_BYTES \<Longrightarrow>
      pass_ok Tcpout_Kind a w (Inr (v, heap_put a (Tcpout q) w1))"
  using assms by (auto simp: pass_ok_def udp_buffer_def tcp_buffer_def tcpout_buffer_def)

lemma udp_pass_ok:
  assumes os: "recv_bounded os" and "udp_buffer a w = Some rx"
  shows "pass_ok Udp_Kind a w (udp_server_pass os a w)"
proof -
  obtain u where u: "heap w a = Some (Udp u)" "udp_initialized u" "rx_wf (udp_rx u)" "length (udp_output u) = BUFFER_BYTES"
    using assms(2) by (auto simp: udp_buffer_def res_simps split: sum.splits if_splits)
  show ?thesis
  proof (cases "udp_terminate u")
    case True
    with u show ?thesis by (auto simp: udp_server_pass_def pass_ok_def udp_buffer_def)
  next
    case False
    obtain r s where r: "os_recvfrom os (udp_fd u) BUFFER_BYTES (sys w) = (r, s)" by (rule prod.exhaust)
    show ?thesis
    proof (cases r)
      case None
      with u False r show ?thesis
        by (auto simp: udp_server_pass_def sys_step_def intro!: pass_ok_put)
    next
      case (Some x)
      obtain bs peer where x: "x = (bs, peer)" by (rule prod.exhaust)
      then obtain rx' where "rx_fill (udp_rx u) bs = Inr rx'" "rx_wf rx'"
        using rx_fill_wf [OF u(3)] recv_boundedD(2) [OF os] r Some by blast
      with u False r Some x show ?thesis
        by (auto simp: udp_server_pass_def sys_step_def intro!: pass_ok_put)
    qed
  qed
qed

lemma tcp_receive_ok:
  assumes os: "recv_bounded os" and t: "tcp_initialized t" "rx_wf (tcp_rx t)" "length (tcp_output t) = BUFFER_BYTES"
    and w: "heap w1 = heap w"
  shows "pass_ok Tcp_Kind a w (tcp_receive os a t w1)"
proof -
  obtain r s where r: "os_recv os (tcp_connection t) BUFFER_BYTES (sys w1) = (r, s)" by (rule prod.exhaust)
  show ?thesis
  proof (cases "r = None \<or> r = Some []")
    case True
    with t w r show ?thesis by (auto simp: tcp_receive_def sys_step_def sys_do_def intro!: pass_ok_put)
  next
    case False
    then obtain bs where bs: "r = Some bs" "bs \<noteq> []" by auto
    with rx_fill_wf [OF t(2)] recv_boundedD(1) [OF os] r
    obtain rx' where "rx_fill (tcp_rx t) bs = Inr rx'" "rx_wf rx'" by blast
    with t w r bs show ?thesis by (auto simp: tcp_receive_def sys_step_def intro!: pass_ok_put)
  qed
qed

lemma tcp_pass_ok:
  assumes "recv_bounded os" and "tcp_buffer a w = Some rx"
  shows "pass_ok Tcp_Kind a w (tcp_server_pass os a w)"
proof -
  obtain t where t: "heap w a = Some (Tcp t)" "tcp_initialized t" "rx_wf (tcp_rx t)" "length (tcp_output t) = BUFFER_BYTES"
    using assms(2) by (auto simp: tcp_buffer_def res_simps split: sum.splits if_splits)
  have same: "pass_ok Tcp_Kind a w (Inr (v, w))" for v using t by (simp add: pass_ok_def tcp_buffer_def)
  obtain c s where c: "os_accept os (tcp_fd t) (sys w) = (c, s)" by (rule prod.exhaust)
  show ?thesis
    using t same c tcp_receive_ok [OF assms(1), of t w w a] tcp_receive_ok [OF assms(1), of "t\<lparr>tcp_connection := c\<rparr>" "w\<lparr>sys := s\<rparr>" w a]
    by (auto simp: tcp_server_pass_def tcp_accept_client_def sys_step_def intro!: pass_ok_put)
qed

lemma tcpout_receive_ok:
  assumes os: "recv_bounded os" and t: "tcpout_initialized t" "rx_wf (tcpout_rx t)" "length (tcpout_output t) = BUFFER_BYTES"
    and w: "heap w1 = heap w"
  shows "pass_ok Tcpout_Kind a w (tcpout_receive os a t w1)"
proof -
  obtain r s where r: "os_recv os (tcpout_fd t) BUFFER_BYTES (sys w1) = (r, s)" by (rule prod.exhaust)
  show ?thesis
  proof (cases "r = None \<or> r = Some []")
    case True
    with t w r show ?thesis by (auto simp: tcpout_receive_def sys_step_def sys_do_def intro!: pass_ok_put)
  next
    case False
    then obtain bs where bs: "r = Some bs" "bs \<noteq> []" by auto
    with rx_fill_wf [OF t(2)] recv_boundedD(1) [OF os] r
    obtain rx' where "rx_fill (tcpout_rx t) bs = Inr rx'" "rx_wf rx'" by blast
    with t w r bs show ?thesis by (auto simp: tcpout_receive_def sys_step_def intro!: pass_ok_put)
  qed
qed

lemma tcpout_connect_frame:
  "tcpout_connect_to os t w = (rv, t1, w1) \<Longrightarrow> heap w1 = heap w \<and> (\<exists>fd. t1 = t\<lparr>tcpout_fd := fd\<rparr>)"
  by (auto simp: tcpout_connect_to_def sys_step_def Let_def split: prod.splits if_splits)

lemma tcpout_pass_ok:
  assumes "recv_bounded os" and "tcpout_buffer a w = Some rx"
  shows "pass_ok Tcpout_Kind a w (tcpout_server_pass os a w)"
proof -
  obtain t where t: "heap w a = Some (Tcpout t)" "tcpout_initialized t" "rx_wf (tcpout_rx t)" "length (tcpout_output t) = BUFFER_BYTES"
    using assms(2) by (auto simp: tcpout_buffer_def res_simps split: sum.splits if_splits)
  have same: "pass_ok Tcpout_Kind a w (Inr (v, w))" for v using t by (simp add: pass_ok_def tcpout_buffer_def)
  obtain rv t1 w1 where c: "tcpout_connect_to os t w = (rv, t1, w1)" by (metis prod_cases3)
  with tcpout_connect_frame [OF c] t show ?thesis
    using same tcpout_receive_ok [OF assms(1), of t w w a] tcpout_receive_ok [OF assms(1), of t1 w1 w a]
    by (auto simp: tcpout_server_pass_def intro!: pass_ok_put)
qed

lemma kind_pass_ok:
  assumes "recv_bounded os" "k \<noteq> Uart_Kind" "kind_buffer k a w \<noteq> None"
  shows "pass_ok k a w (kind_pass os k a w)"
  using assms by (cases k) (auto simp: udp_pass_ok tcp_pass_ok tcpout_pass_ok)

section \<open>Rounds of service\<close>

text \<open>The threads of the sources \<open>is\<close>, one after the other.\<close>

fun run_passes ::
  "('a, 'o) os \<Rightarrow> (nat \<Rightarrow> device_kind) \<Rightarrow> (nat \<Rightarrow> nat) \<Rightarrow> nat list \<Rightarrow> ('a, 'o) world \<Rightarrow> ('a, 'o) world res" where
  "run_passes os kd ad [] w = Inr w"
| "run_passes os kd ad (i # is) w = bind_res (kind_pass os (kd i) (ad i) w) (\<lambda>(_, w'). run_passes os kd ad is w')"

text \<open>The main loop with the threads' passes before every spin.\<close>

fun serve ::
  "('x, 's, 'c) mavlink_lib \<Rightarrow> build \<Rightarrow> ('a, 'o) world env \<Rightarrow> ('a, 'o) os \<Rightarrow> (nat \<Rightarrow> device_kind) \<Rightarrow> (nat \<Rightarrow> nat)
     \<Rightarrow> nat list list \<Rightarrow> (('a, 'o) world, 'x, 's, 'c) gateway \<Rightarrow> (('a, 'o) world, 'x, 's, 'c) gateway res option" where
  "serve lib b env os kd ad [] g = Some (Inr g)"
| "serve lib b env os kd ad (is # rounds) g =
     (if terminated (pipe g) then Some (Inr g)
      else bind_run (Some (run_passes os kd ad is (world g))) (\<lambda>w.
           bind_run (pipeline_spin lib b env (g\<lparr>world := w\<rparr>)) (\<lambda>(rv, g').
             if rv \<noteq> error_code SUCC then Some (Inr g') else serve lib b env os kd ad rounds g')))"

lemma spin_same_pipe:
  assumes "pipeline_spin lib b env g = Some (Inr (rv, g'))" "\<not> USE_CONSOLE b"
  shows "same_pipe (pipe g) (pipe g')"
proof -
  obtain t w0 where t: "time_us env (world g) = (t, w0)" by (rule prod.exhaust)
  obtain load g1 where g1: "spin_sources lib b [0 ..< MAX_SOURCES] False (g\<lparr>world := w0\<rparr>) = Some (Inr (load, g1))"
      "spin_finish b env t load g1 = Inr (rv, g')"
    using assms t by (auto simp: pipeline_spin_def bind_run_eq_Some_Inr simp del: upt_4 max_ports)
  moreover have "pipe g' = pipe g1"
    using g1(2) assms(2) by (auto simp: spin_finish_def res_simps Let_def split: prod.splits)
  ultimately show ?thesis using spin_sources_pipe [OF g1(1)] by simp
qed

text \<open>What a round needs, and what it keeps: it depends on the pipeline up to the parsers' buffers.\<close>

definition in_service ::
  "('x, 's, 'c) mavlink_lib \<Rightarrow> build \<Rightarrow> ('a, 'o) os \<Rightarrow> (nat \<Rightarrow> device_kind) \<Rightarrow> (nat \<Rightarrow> nat)
     \<Rightarrow> (('a, 'o) world, 'x, 's) pipeline_t \<Rightarrow> bool" where
  "in_service lib b os kd ad p \<longleftrightarrow> pipeline_wf p \<and> network_pipeline lib os kd ad p \<and> \<not> transform_enabled p
     \<and> discards_quietly b p \<and> \<not> terminated p"

lemma same_pipe_network:
  assumes "same_pipe p q" "pipeline_wf p"
  shows "network_pipeline lib os kd ad q = network_pipeline lib os kd ad p"
    "ports_open kd ad q w = ports_open kd ad p w" "port_pending kd ad q j w = port_pending kd ad p j w"
proof -
  have len: "length (sources p) = 4" using assms(2) by (simp add: pipeline_wf_def)
  have src: "src_is_connected (sources q ! i) = src_is_connected (sources p ! i)"
    "src_source_id (sources q ! i) = src_source_id (sources p ! i)"
    "src_opaque (sources q ! i) = src_opaque (sources p ! i)"
    "src_has_more (sources q ! i) = src_has_more (sources p ! i)"
    "src_read_byte (sources q ! i) = src_read_byte (sources p ! i)" if "i < 4" for i
    using same_pipe_source [OF assms(1)] that len by auto
  have snk: "snks q = snks p" using same_pipe_fields [OF assms(1)] by simp
  show "network_pipeline lib os kd ad q = network_pipeline lib os kd ad p"
    unfolding network_pipeline_def snk by (simp add: src cong: conj_cong)
  show "ports_open kd ad q w = ports_open kd ad p w" by (simp add: ports_open_def src)
  show "port_pending kd ad q j w = port_pending kd ad p j w" by (auto simp: port_pending_def src)
qed

lemma pass_keeps_open:
  assumes net: "network_pipeline lib os kd ad p" and os: "recv_bounded os" and "ports_open kd ad p w"
    and i: "i < 4" "src_is_connected (sources p ! i)"
  shows "\<exists>v w'. kind_pass os (kd i) (ad i) w = Inr (v, w') \<and> ports_open kd ad p w'"
proof -
  have k: "kd i \<noteq> Uart_Kind" "\<forall>j < 4. src_is_connected (sources p ! j) \<longrightarrow> j \<noteq> i \<longrightarrow> ad j \<noteq> ad i"
    using net i unfolding network_pipeline_def by blast+
  have "kind_buffer (kd i) (ad i) w \<noteq> None" using assms(3) i unfolding ports_open_def by blast
  from kind_pass_ok [OF os k(1) this] obtain v w' where w': "kind_pass os (kd i) (ad i) w = Inr (v, w')"
      "kind_buffer (kd i) (ad i) w' \<noteq> None" "\<forall>b. b \<noteq> ad i \<longrightarrow> heap w' b = heap w b"
    unfolding pass_ok_def by blast
  have "kind_buffer (kd j) (ad j) w' \<noteq> None" if "j < 4" "src_is_connected (sources p ! j)" for j
  proof (cases "j = i")
    case False
    then have "kind_buffer (kd j) (ad j) w' = kind_buffer (kd j) (ad j) w"
      using k(2) w'(3) that by (intro kind_buffer_local) blast
    with assms(3) that show ?thesis unfolding ports_open_def by metis
  qed (use w'(2) in simp)
  with w'(1) show ?thesis unfolding ports_open_def by blast
qed

lemma passes_keep_open:
  "network_pipeline lib os kd ad p \<Longrightarrow> recv_bounded os \<Longrightarrow> ports_open kd ad p w \<Longrightarrow>
     \<forall>i \<in> set is. i < 4 \<and> src_is_connected (sources p ! i) \<Longrightarrow>
     \<exists>w'. run_passes os kd ad is w = Inr w' \<and> ports_open kd ad p w'"
proof (induction "is" arbitrary: w)
  case (Cons i "is")
  then obtain v w1 where "kind_pass os (kd i) (ad i) w = Inr (v, w1)" "ports_open kd ad p w1"
    using pass_keeps_open [OF Cons.prems(1-3), of i] by force
  with Cons.IH [of w1] Cons.prems show ?case by auto
qed simp

text \<open>One round.\<close>

lemma round_serves:
  assumes "in_service lib b os kd ad (pipe g)" "perf_show_ok (perf_secure_gateway g) (show_state g)"
    and "ports_open kd ad (pipe g) w" "\<forall>m. frame_fits lib m" "env_apart b env" "\<not> USE_CONSOLE b"
  shows "\<exists>g'. pipeline_spin lib b env (g\<lparr>world := w\<rparr>) = Some (Inr (0, g')) \<and> same_pipe (pipe g) (pipe g')
    \<and> gateway_wf g' \<and> in_service lib b os kd ad (pipe g') \<and> ports_open kd ad (pipe g) (world g')
    \<and> (\<forall>i < 4. src_is_connected (sources (pipe g) ! i) \<longrightarrow> port_pending kd ad (pipe g) i (world g') = [])"
proof -
  let ?g = "g\<lparr>world := w\<rparr>"
  have net: "network_pipeline lib os kd ad (pipe g)" "\<not> transform_enabled (pipe g)" "pipeline_wf (pipe g)"
    using assms(1) by (simp_all add: in_service_def)
  have "spin_ok (ports_open kd ad (pipe g)) (port_pending kd ad (pipe g)) b ?g"
    using assms network_drains [OF net(1)] network_sinks_total [OF net(1) assms(4) net(2)]
    by (simp add: spin_ok_def gateway_wf_def in_service_def sources_named_def network_pipeline_def)
  from pipeline_spin_ok [OF this env_apart_ok [OF assms(5)], of lib] obtain g' where
    g': "pipeline_spin lib b env ?g = Some (Inr (0, g'))" "gateway_wf g'" "ports_open kd ad (pipe g) (world g')"
      "\<forall>i < 4. src_is_connected (sources (pipe g) ! i) \<longrightarrow> port_pending kd ad (pipe g) i (world g') = []"
    by (auto simp del: upt_4)
  have same: "same_pipe (pipe g) (pipe g')" using spin_same_pipe [OF g'(1) assms(6)] by simp
  have "network_pipeline lib os kd ad (pipe g')"
    using net(1) same_pipe_network(1) [OF same net(3), of lib os kd ad] by simp
  then have "in_service lib b os kd ad (pipe g')"
    using assms(1) g'(2) same_pipe_fields [OF same]
    by (simp add: in_service_def gateway_wf_def discards_quietly_def)
  with g' same show ?thesis by blast
qed

section \<open>Property\<close>

text \<open>
  C6. A gateway of network ports stays in service. Take open UDP and TCP ports with a
  struct each, sinks that send through them, and a system whose receives respect the
  buffers' sizes. Let the ports' threads receive, reconnect or lose their peers any number
  of times before every spin, in any order, whatever the calls of the system return. Then
  any number of rounds completes with \<^verbatim>\<open>SUCC\<close>: no fault, no spin that hangs. After each round
  every byte that was in the buffers has been read and all ports are open.
\<close>

theorem network_gateway_serves:
  assumes "gateway_wf g" and "in_service lib b os kd ad (pipe g)" and "ports_open kd ad (pipe g) (world g)"
    and "\<forall>m. frame_fits lib m" and "env_apart b env" and "\<not> USE_CONSOLE b" and "recv_bounded os"
    and "\<forall>is \<in> set rounds. \<forall>i \<in> set is. i < MAX_SOURCES \<and> src_is_connected (sources (pipe g) ! i)"
  shows "\<exists>g'. serve lib b env os kd ad rounds g = Some (Inr g') \<and> gateway_wf g'
    \<and> in_service lib b os kd ad (pipe g') \<and> ports_open kd ad (pipe g) (world g')
    \<and> (rounds \<noteq> [] \<longrightarrow> (\<forall>i < MAX_SOURCES. src_is_connected (sources (pipe g) ! i) \<longrightarrow>
          buffer_bytes (kind_buffer (kd i) (ad i) (world g')) = []))"
  using assms(1-3,8)
proof (induction rounds arbitrary: g)
  case (Cons "is" rounds)
  obtain w where w: "run_passes os kd ad is (world g) = Inr w" "ports_open kd ad (pipe g) w"
    using passes_keep_open [of lib os kd ad "pipe g" "world g" "is"] Cons.prems assms(7) by (auto simp: in_service_def)
  have "perf_show_ok (perf_secure_gateway g) (show_state g)" using Cons.prems(1) by (simp add: gateway_wf_def)
  from round_serves [OF Cons.prems(2) this w(2) assms(4-6)] obtain g1 where
    g1: "pipeline_spin lib b env (g\<lparr>world := w\<rparr>) = Some (Inr (0, g1))" "same_pipe (pipe g) (pipe g1)" "gateway_wf g1"
      "in_service lib b os kd ad (pipe g1)" "ports_open kd ad (pipe g) (world g1)"
      "\<forall>i < 4. src_is_connected (sources (pipe g) ! i) \<longrightarrow> port_pending kd ad (pipe g) i (world g1) = []"
    by blast
  have wf: "pipeline_wf (pipe g)" "length (sources (pipe g)) = 4"
    using Cons.prems(1) by (simp_all add: gateway_wf_def pipeline_wf_def)
  note open_same = same_pipe_network(2) [OF g1(2) wf(1)]
  have con: "src_is_connected (sources (pipe g1) ! i) = src_is_connected (sources (pipe g) ! i)" if "i < 4" for i
    using same_pipe_source [OF g1(2)] wf(2) that by simp
  have "\<exists>g'. serve lib b env os kd ad rounds g1 = Some (Inr g') \<and> gateway_wf g'
    \<and> in_service lib b os kd ad (pipe g') \<and> ports_open kd ad (pipe g1) (world g')
    \<and> (rounds \<noteq> [] \<longrightarrow> (\<forall>i < MAX_SOURCES. src_is_connected (sources (pipe g1) ! i) \<longrightarrow>
          buffer_bytes (kind_buffer (kd i) (ad i) (world g')) = []))"
    using Cons.prems(4) g1(3-5) open_same con by (intro Cons.IH) auto
  then obtain g' where g': "serve lib b env os kd ad rounds g1 = Some (Inr g')" "gateway_wf g'"
    "in_service lib b os kd ad (pipe g')" "ports_open kd ad (pipe g) (world g')"
    "rounds \<noteq> [] \<longrightarrow> (\<forall>i < 4. src_is_connected (sources (pipe g) ! i) \<longrightarrow>
          buffer_bytes (kind_buffer (kd i) (ad i) (world g')) = [])"
    using open_same con by auto
  moreover have "serve lib b env os kd ad (is # rounds) g = Some (Inr g')"
    using Cons.prems(2) w(1) g1(1) g'(1) by (simp add: in_service_def)
  moreover have "\<forall>i < 4. src_is_connected (sources (pipe g) ! i) \<longrightarrow> buffer_bytes (kind_buffer (kd i) (ad i) (world g')) = []"
  proof (cases rounds)
    case Nil
    then show ?thesis using g'(1) g1(6) by (auto simp: port_pending_def)
  qed (use g'(5) in blast)
  ultimately show ?case by auto
qed auto

text \<open>A system that gives at most the bytes asked for.\<close>

definition service_os :: "(unit, demo_sys) os" where
  "service_os = demo_os\<lparr>
     os_recv := (\<lambda>fd n s. case demo_receive s of (None, s') \<Rightarrow> (None, s') | (Some bs, s') \<Rightarrow> (Some (take n bs), s')),
     os_recvfrom := (\<lambda>fd n s. case demo_receive s of (None, s') \<Rightarrow> (None, s') | (Some bs, s') \<Rightarrow> (Some (take n bs, ()), s'))\<rparr>"

theorem network_gateway_serves_witness:
  "\<exists>g'. serve demo_lib demo_build net_env service_os (\<lambda>_. Udp_Kind) (\<lambda>i. i + 6) [[1, 2], [2], []] (net_gateway service_os) = Some (Inr g')
     \<and> udp_pending 7 (world g') = []"
proof -
  let ?g = "net_gateway service_os"
  have pipe: "pipe ?g = net_pipe service_os" by (simp add: net_gateway_def)
  have 1: "\<forall>m. frame_fits demo_lib m" by (simp add: frame_fits_def demo_lib_def BUFFER_BYTES_def)
  have 2: "in_service demo_lib demo_build service_os (\<lambda>_. Udp_Kind) (\<lambda>i. i + 6) (pipe ?g)"
    using net_gateway_network [of service_os] net_gateway_wf [of service_os]
    by (simp add: in_service_def pipe gateway_wf_def) (simp add: net_pipe_def static_pipeline_def)
  have 3: "env_apart demo_build net_env" by (simp add: env_apart_def net_env_def demo_build_def)
  have 4: "\<not> USE_CONSOLE demo_build" by (simp add: demo_build_def)
  have 5: "recv_bounded service_os" by (auto simp: recv_bounded_def service_os_def split: prod.splits option.splits)
  have con: "src_is_connected (sources (net_pipe service_os) ! 1)" "src_is_connected (sources (net_pipe service_os) ! 2)"
    by (simp_all add: net_pipe_def net_source_def)
  have 6: "\<forall>is \<in> set [[1, 2], [2], []]. \<forall>i \<in> set is. i < MAX_SOURCES \<and> src_is_connected (sources (pipe ?g) ! i)"
    using con by (simp add: pipe)
  from network_gateway_serves [OF net_gateway_wf 2 net_gateway_open(1) [of service_os, folded pipe] 1 3 4 5 6] con(1) pipe show ?thesis
    by (auto simp: udp_pending_def dest!: spec [of _ 1])
qed

end
