(* ===== verification/Port_Threads.thy ===== *)
theory Port_Threads
  imports Network_Service
begin

text \<open>
  The ports' threads beside the main loop. A thread exists once its port has been opened; a
  pass of it is one step on the port's struct. Two interleavings: passes before every
  operation of a port that the main loop calls (\<open>interleave\<close>), and passes between the turns of
  the loop (\<open>threaded_turns\<close>), where the end of a spin is the subject. A thread that has
  returned is given passes all the same, so a schedule may let it go on or not. A fault of a
  thread ends the program, as an assertion does.
\<close>

section \<open>The threads\<close>

fun has_thread :: "'a device \<Rightarrow> bool" where
  "has_thread (Uart u) \<longleftrightarrow> uart_initialized u \<and> uart_thread u"
| "has_thread (Udp u) \<longleftrightarrow> udp_initialized u \<and> udp_thread u"
| "has_thread (Tcpout t) \<longleftrightarrow> tcpout_initialized t \<and> tcpout_thread t"
| "has_thread (Tcp t) \<longleftrightarrow> tcp_initialized t \<and> tcp_thread t"

definition thread_pass :: "('a, 'o) os \<Rightarrow> nat \<Rightarrow> ('a, 'o) world \<Rightarrow> ('a, 'o) world res" where
  "thread_pass os a w = (case heap w a of
       None \<Rightarrow> Inr w
     | Some d \<Rightarrow> if has_thread d then effect (kind_pass os (kind_of d) a w) else Inr w)"

fun thread_passes :: "('a, 'o) os \<Rightarrow> nat list \<Rightarrow> ('a, 'o) world \<Rightarrow> ('a, 'o) world res" where
  "thread_passes os [] w = Inr w"
| "thread_passes os (a # as) w = bind_res (thread_pass os a w) (thread_passes os as)"

section \<open>Passes before every operation\<close>

text \<open>The schedule is any function of the world, which is where time and the traffic are.\<close>

definition interleave_source ::
  "('a, 'o) os \<Rightarrow> (('a, 'o) world \<Rightarrow> nat list) \<Rightarrow> (('a, 'o) world, 'x, 's) source_t \<Rightarrow> (('a, 'o) world, 'x, 's) source_t" where
  "interleave_source os sched src = src\<lparr>
     src_has_more := map_option (\<lambda>f opq w. bind_res (thread_passes os (sched w) w) (f opq)) (src_has_more src),
     src_read_byte := map_option (\<lambda>f opq w. bind_res (thread_passes os (sched w) w) (f opq)) (src_read_byte src)\<rparr>"

definition interleave_sink ::
  "('a, 'o) os \<Rightarrow> (('a, 'o) world \<Rightarrow> nat list) \<Rightarrow> (('a, 'o) world, 'x, 's) sink_t \<Rightarrow> (('a, 'o) world, 'x, 's) sink_t" where
  "interleave_sink os sched snk = snk\<lparr>
     snk_route := map_option (\<lambda>f opq m w. bind_res (thread_passes os (sched w) w) (f opq m)) (snk_route snk)\<rparr>"

definition interleave ::
  "('a, 'o) os \<Rightarrow> (('a, 'o) world \<Rightarrow> nat list) \<Rightarrow> (('a, 'o) world, 'x, 's) pipeline_t \<Rightarrow> (('a, 'o) world, 'x, 's) pipeline_t" where
  "interleave os sched p = p\<lparr>sources := map (interleave_source os sched) (sources p),
     snks := map (interleave_sink os sched) (snks p)\<rparr>"

lemma interleave_source_none [simp]: "interleave_source os (\<lambda>_. []) src = src"
  by (simp add: interleave_source_def option.map_ident)

lemma interleave_sink_none [simp]: "interleave_sink os (\<lambda>_. []) snk = snk"
  by (simp add: interleave_sink_def option.map_ident)

lemma interleave_none [simp]: "interleave os (\<lambda>_. []) p = p"
  by (simp add: interleave_def map_idI)

text \<open>The program with its threads: they run from the start of the main loop on.\<close>

definition threaded_main ::
  "('x, 's, 'c) mavlink_lib \<Rightarrow> build \<Rightarrow> ('a, 'o, 'x) host \<Rightarrow> (('a, 'o) world \<Rightarrow> nat list) \<Rightarrow> ('a, 'o) world env
     \<Rightarrow> (('a, 'o) world, 'x, 's, 'c) gateway \<Rightarrow> (('a, 'o) world, 'x, 's, 'c) gateway res option" where
  "threaded_main lib b h sched env g = bind_run (Some (gateway_setup lib b h g))
     (\<lambda>g'. main_loop lib b env (g'\<lparr>pipe := interleave (host_os h) sched (pipe g')\<rparr>))"

lemma threaded_main_none: "threaded_main lib b h (\<lambda>_. []) env g = gateway_main lib b h env g"
  by (simp add: threaded_main_def gateway_main_def)

section \<open>Passes between the turns\<close>

text \<open>
  The turns of the main loop, each after the passes of one element of the schedule, and the
  results of their spins: the loop ends early when one of them is not \<open>SUCC\<close>.
\<close>

fun threaded_turns ::
  "('x, 's, 'c) mavlink_lib \<Rightarrow> build \<Rightarrow> ('a, 'o) world env \<Rightarrow> ('a, 'o) os \<Rightarrow> nat list list
     \<Rightarrow> (('a, 'o) world, 'x, 's, 'c) gateway \<Rightarrow> (int list \<times> (('a, 'o) world, 'x, 's, 'c) gateway) res option" where
  "threaded_turns lib b env os [] g = Some (Inr ([], g))"
| "threaded_turns lib b env os (as # turns) g =
     (if terminated (pipe g) then Some (Inr ([], g))
      else bind_run (Some (thread_passes os as (world g))) (\<lambda>w.
           bind_run (pipeline_spin lib b env (g\<lparr>world := w\<rparr>)) (\<lambda>(rv, g').
             if rv \<noteq> error_code SUCC then Some (Inr ([rv], g'))
             else bind_run (threaded_turns lib b env os turns g') (\<lambda>(rvs, g''). Some (Inr (rv # rvs, g''))))))"

definition threaded_run ::
  "('x, 's, 'c) mavlink_lib \<Rightarrow> build \<Rightarrow> ('a, 'o, 'x) host \<Rightarrow> ('a, 'o) world env \<Rightarrow> nat list list
     \<Rightarrow> (('a, 'o) world, 'x, 's, 'c) gateway \<Rightarrow> (int list \<times> (('a, 'o) world, 'x, 's, 'c) gateway) res option" where
  "threaded_run lib b h env turns g = bind_run (Some (gateway_setup lib b h g)) (threaded_turns lib b env (host_os h) turns)"

section \<open>What a pass keeps\<close>

lemma effect_uart_pass: "effect (kind_pass os Uart_Kind a w) = effect (uart_server_step os a w)"
  by (cases "uart_server_step os a w") (auto simp: effect_def)

lemma thread_pass_kinds:
  assumes "kinds w a = Some k"
  shows "effect_sound (kinds w) (kinds w) (thread_pass os a w)"
proof -
  obtain d where d: "heap w a = Some d" "kind_of d = k" using assms by (auto simp: kinds_def)
  have same: "effect_sound (kinds w) (kinds w) (Inr w)" by (simp add: effect_sound_def)
  have "effect_sound (kinds w) (kinds w) (effect (kind_pass os (kind_of d) a w))"
    using d uart_sound(4) [of w a _ os] udp_sound(4) [of w a _ os] tcpout_sound(4) [of w a _ os] tcp_sound(7) [of w a _ os]
    by (cases d) (auto simp: effect_uart_pass simp del: kind_pass.simps(1) intro!: effect_sound)
  with d same show ?thesis by (simp add: thread_pass_def)
qed

lemma thread_passes_kinds: "effect_sound (kinds w) (kinds w) (thread_passes os as w)"
proof (induction "as" arbitrary: w)
  case Nil
  then show ?case by (simp add: effect_sound_def)
next
  case (Cons a as)
  have pass: "effect_sound (kinds w) (kinds w) (thread_pass os a w)"
  proof (cases "heap w a")
    case None
    then show ?thesis by (simp add: thread_pass_def effect_sound_def)
  next
    case (Some d)
    then show ?thesis using thread_pass_kinds [of w a "kind_of d" os] by (simp add: kinds_def)
  qed
  show ?case
  proof (cases "thread_pass os a w")
    case (Inr w1)
    then have "kinds w1 = kinds w" using pass by (simp add: effect_sound_def map_le_antisym)
    with Cons.IH [of w1] Inr show ?thesis by simp
  qed (use pass in \<open>simp add: effect_sound_def\<close>)
qed

end
