(* ===== verification/Program_Types.thy ===== *)
theory Program_Types
  imports Safe_Runs Gateway_Program Port_Threads
begin

text \<open>
  The structs of the program of \<^verbatim>\<open>main.c\<close>: what the set-up wires to what, and that from an
  empty heap no run ever uses a struct at a wrong type or after it is gone, or calls a null
  pointer. The first half is a typing of the pipeline by the types of the heap's blocks, the
  second runs the main loop under it with the rules of \<open>Safe_Runs\<close>.
\<close>

section \<open>Typed worlds\<close>

type_synonym typing = "nat \<Rightarrow> device_kind option"

definition typed :: "typing \<Rightarrow> ('a, 'o) world \<Rightarrow> bool" where
  "typed K w \<longleftrightarrow> (\<forall>a. map_option kind_of (heap w a) = K a)"

definition memory_safe :: "fault \<Rightarrow> bool" where
  "memory_safe f \<longleftrightarrow> f \<notin> {Type_Confusion, Use_After_Free, Null_Call}"

interpretation type_run: safe_run memory_safe "typed K" for K
  by unfold_locales (auto simp: own_fault_def memory_safe_def)

lemma typed_heap: "heap w' = heap w \<Longrightarrow> typed K w' = typed K w"
  by (simp add: typed_def)

lemma typed_sound:
  assumes "type_sound a w r" "typed K w"
  shows "yields memory_safe (\<lambda>(v, w'). typed K w') r"
proof (cases r)
  case (Inl f)
  with assms(1) show ?thesis by (simp add: type_sound_def memory_safe_def)
next
  case (Inr x)
  obtain v w' where x: "x = (v, w')" by (rule prod.exhaust)
  have "map_option kind_of (heap w' b) = map_option kind_of (heap w b)" for b
    using assms(1) Inr x by (cases "b = a") (auto simp: keeps_types_def)
  with assms(2) Inr x show ?thesis by (simp add: typed_def)
qed

text \<open>An operation on a port's struct, in a world where the struct has the port's type.\<close>

lemma typed_at:
  assumes "typed K w" "K a = Some k"
  shows "\<exists>d. heap w a = Some d \<and> kind_of d = k"
  using assms unfolding typed_def by (metis map_option_eq_Some)

lemma uart_typed:
  assumes "K a = Some Uart_Kind" "typed K w"
  shows "yields memory_safe (\<lambda>(v, w'). typed K w') (uart_has_more os (Some a) w)"
    "yields memory_safe (\<lambda>(v, w'). typed K w') (uart_read_byte os (Some a) w)"
    "yields memory_safe (\<lambda>(v, w'). typed K w') (uart_route_to lib os (Some a) m w)"
proof -
  obtain u where "heap w a = Some (Uart u)" using typed_at [OF assms(2,1)] by (auto elim: kind_of.elims)
  from uart_sound [OF this] assms(2) show
    "yields memory_safe (\<lambda>(v, w'). typed K w') (uart_has_more os (Some a) w)"
    "yields memory_safe (\<lambda>(v, w'). typed K w') (uart_read_byte os (Some a) w)"
    "yields memory_safe (\<lambda>(v, w'). typed K w') (uart_route_to lib os (Some a) m w)"
    by (blast intro: typed_sound)+
qed

lemma tcp_typed:
  assumes "K a = Some Tcp_Kind" "typed K w"
  shows "yields memory_safe (\<lambda>(v, w'). typed K w') (tcp_has_more os (Some a) w)"
    "yields memory_safe (\<lambda>(v, w'). typed K w') (tcp_has_more_mt os (Some a) w)"
    "yields memory_safe (\<lambda>(v, w'). typed K w') (tcp_read_byte os (Some a) w)"
    "yields memory_safe (\<lambda>(v, w'). typed K w') (tcp_read_byte_mt os (Some a) w)"
    "yields memory_safe (\<lambda>(v, w'). typed K w') (tcp_route_to lib raw os (Some a) m w)"
    "yields memory_safe (\<lambda>(v, w'). typed K w') (tcp_route_to_mt lib os (Some a) m w)"
proof -
  obtain t where "heap w a = Some (Tcp t)" using typed_at [OF assms(2,1)] by (auto elim: kind_of.elims)
  from tcp_sound [OF this] assms(2) show
    "yields memory_safe (\<lambda>(v, w'). typed K w') (tcp_has_more os (Some a) w)"
    "yields memory_safe (\<lambda>(v, w'). typed K w') (tcp_has_more_mt os (Some a) w)"
    "yields memory_safe (\<lambda>(v, w'). typed K w') (tcp_read_byte os (Some a) w)"
    "yields memory_safe (\<lambda>(v, w'). typed K w') (tcp_read_byte_mt os (Some a) w)"
    "yields memory_safe (\<lambda>(v, w'). typed K w') (tcp_route_to lib raw os (Some a) m w)"
    "yields memory_safe (\<lambda>(v, w'). typed K w') (tcp_route_to_mt lib os (Some a) m w)"
    by (blast intro: typed_sound)+
qed

text \<open>A pass of a port's thread, and the ports with such passes before their operations.\<close>

lemma typed_kinds: "typed K w \<longleftrightarrow> kinds w = K"
  by (auto simp: typed_def kinds_def)

lemma passes_typed:
  assumes "typed K w"
  shows "yields memory_safe (typed K) (thread_passes os as w)"
proof (cases "thread_passes os as w")
  case (Inl f)
  with thread_passes_kinds [of w os "as"] show ?thesis by (simp add: effect_sound_def memory_safe_def)
next
  case (Inr w')
  with thread_passes_kinds [of w os "as"] have "kinds w' = kinds w" by (simp add: effect_sound_def map_le_antisym)
  with assms Inr show ?thesis by (simp add: typed_kinds)
qed

lemma interleave_safe:
  assumes "ports_safe memory_safe (typed K) p"
  shows "ports_safe memory_safe (typed K) (interleave os sched p)"
proof -
  have "source_safe memory_safe (typed K) (interleave_source os sched src)" if "source_safe memory_safe (typed K) src" for src
    using that by (auto simp: source_safe_def interleave_source_def intro!: yields_bind [OF passes_typed])
  moreover have "sink_safe memory_safe (typed K) (interleave_sink os sched snk)" if "sink_safe memory_safe (typed K) snk" for snk
    using that by (auto simp: sink_safe_def interleave_sink_def intro!: yields_bind [OF passes_typed])
  ultimately show ?thesis using assms by (auto simp: ports_safe_def interleave_def)
qed

section \<open>The ports of the program\<close>

text \<open>
  A port is empty, the serial port, or the TCP server of either build, and its struct has
  its type. Its initialiser is one that does nothing when it is called on the port itself.
\<close>

definition inert_init :: "'w init_t option \<Rightarrow> bool" where
  "inert_init i \<longleftrightarrow> (\<forall>f w. i = Some f \<longrightarrow> f (Source_Obj True) w = Inr (error_code SUCC, w)
     \<and> f (Sink_Obj True) w = Inr (error_code SUCC, w))"

definition own_transform :: "('x, 's) transform option \<Rightarrow> bool" where
  "own_transform t \<longleftrightarrow> (\<forall>f m. t = Some f \<longrightarrow> own (f m))"

definition typed_source ::
  "('a, 'o) os \<Rightarrow> typing \<Rightarrow> (('a, 'o) world, 'x, 's) source_t \<Rightarrow> bool" where
  "typed_source os K src \<longleftrightarrow> inert_init (src_init src) \<and> own_transform (src_transform src)
     \<and> ((src_has_more src = None \<and> src_read_byte src = None)
        \<or> (\<exists>a. src_opaque src = Some a \<and> K a = Some Uart_Kind
             \<and> src_has_more src = Some (uart_has_more os) \<and> src_read_byte src = Some (uart_read_byte os))
        \<or> (\<exists>a. src_opaque src = Some a \<and> K a = Some Tcp_Kind
             \<and> src_has_more src \<in> {Some (tcp_has_more os), Some (tcp_has_more_mt os)}
             \<and> src_read_byte src \<in> {Some (tcp_read_byte os), Some (tcp_read_byte_mt os)}))"

definition typed_sink ::
  "('x, 's, 'c) mavlink_lib \<Rightarrow> ('a, 'o, 'x) host \<Rightarrow> typing \<Rightarrow> (('a, 'o) world, 'x, 's) sink_t \<Rightarrow> bool" where
  "typed_sink lib h K snk \<longleftrightarrow> own_transform (snk_transform snk)
     \<and> (inert_init (snk_init snk) \<or> snk_init snk = Some (stdio_init (set_nonblock h)))
     \<and> (snk_route snk = None \<or> snk_route snk = Some (stdio_route (message_info_of h) (emit_report h))
        \<or> (\<exists>a. snk_opaque snk = Some a \<and> K a = Some Uart_Kind \<and> snk_route snk = Some (uart_route_to lib (host_os h)))
        \<or> (\<exists>a. snk_opaque snk = Some a \<and> K a = Some Tcp_Kind
             \<and> snk_route snk \<in> {Some (tcp_route_to lib (raw_message h) (host_os h)), Some (tcp_route_to_mt lib (host_os h))}))"

definition typed_ports ::
  "('x, 's, 'c) mavlink_lib \<Rightarrow> ('a, 'o, 'x) host \<Rightarrow> typing \<Rightarrow> (('a, 'o) world, 'x, 's) pipeline_t \<Rightarrow> bool" where
  "typed_ports lib h K p \<longleftrightarrow> (\<forall>src \<in> set (sources p). typed_source (host_os h) K src)
     \<and> (\<forall>snk \<in> set (snks p). typed_sink lib h K snk)"

text \<open>The console is no struct: reports and its flags leave the heap alone.\<close>

definition console_apart :: "('a, 'o, 'x) host \<Rightarrow> bool" where
  "console_apart h \<longleftrightarrow> (\<forall>r w. heap (emit_report h r w) = heap w) \<and> (\<forall>w. heap (set_nonblock h w) = heap w)"

lemma own_transform_safe: "own_transform t \<Longrightarrow> transform_safe memory_safe t"
  by (auto simp: own_transform_def transform_safe_def intro!: type_run.own_yields)

lemma typed_source_safe:
  assumes "typed_source os K src"
  shows "source_safe memory_safe (typed K) src"
proof -
  have "yields memory_safe (\<lambda>(v, w'). typed K w') (f (src_opaque src) w)"
    if "src_has_more src = Some f" "typed K w" for f w
    using assms that unfolding typed_source_def
    by (auto simp: uart_typed tcp_typed)
  moreover have "yields memory_safe (\<lambda>(v, w'). typed K w') (f (src_opaque src) w)"
    if "src_read_byte src = Some f" "typed K w" for f w
    using assms that unfolding typed_source_def
    by (auto simp: uart_typed tcp_typed)
  ultimately show ?thesis
    using assms by (simp add: source_safe_def typed_source_def own_transform_safe)
qed

lemma stdio_route_safe:
  assumes "console_apart h" "typed K w"
  shows "yields memory_safe (\<lambda>(v, w'). typed K w') (stdio_route (message_info_of h) (emit_report h) opq m w)"
  unfolding stdio_route_def
  by (rule type_run.own_step [OF own_report]) (use assms in \<open>simp add: console_apart_def typed_def\<close>)

lemma typed_sink_safe:
  assumes "typed_sink lib h K snk" "console_apart h"
  shows "sink_safe memory_safe (typed K) snk"
proof -
  have "yields memory_safe (\<lambda>(v, w'). typed K w') (f (snk_opaque snk) m w)"
    if "snk_route snk = Some f" "typed K w" for f m w
    using assms that unfolding typed_sink_def
    by (auto simp: uart_typed tcp_typed stdio_route_safe)
  then show ?thesis
    using assms by (simp add: sink_safe_def typed_sink_def own_transform_safe)
qed

lemma typed_ports_safe:
  "typed_ports lib h K p \<Longrightarrow> console_apart h \<Longrightarrow> armed (policy_mgmt p) \<Longrightarrow> ports_safe memory_safe (typed K) p"
  by (auto simp: typed_ports_def ports_safe_def intro: typed_source_safe typed_sink_safe)

text \<open>More blocks do not take a port's type away.\<close>

lemma typed_ports_mono:
  assumes "typed_ports lib h K p" "K \<subseteq>\<^sub>m K'"
  shows "typed_ports lib h K' p"
proof -
  have K: "K' a = Some k" if "K a = Some k" for a k using assms(2) that by (auto simp: map_le_def dom_def)
  show ?thesis
    using assms(1) unfolding typed_ports_def typed_source_def typed_sink_def by (blast intro: K)
qed

lemma typed_update_source:
  "typed_ports lib h K p \<Longrightarrow> typed_source (host_os h) K src \<Longrightarrow> typed_ports lib h K (p\<lparr>sources := (sources p)[i := src]\<rparr>)"
  using set_update_subset_insert [of "sources p" i src] by (auto simp: typed_ports_def)

lemma typed_update_sink:
  "typed_ports lib h K p \<Longrightarrow> typed_sink lib h K snk \<Longrightarrow> typed_ports lib h K (p\<lparr>snks := (snks p)[i := snk]\<rparr>)"
  using set_update_subset_insert [of "snks p" i snk] by (auto simp: typed_ports_def)

lemma typed_nth:
  "typed_ports lib h K p \<Longrightarrow> i < length (sources p) \<Longrightarrow> typed_source (host_os h) K (sources p ! i)"
  "typed_ports lib h K p \<Longrightarrow> j < length (snks p) \<Longrightarrow> typed_sink lib h K (snks p ! j)"
  by (simp_all add: typed_ports_def)

section \<open>The set-up\<close>

lemma inert_inits [simp]:
  "inert_init None" "inert_init (Some (tcp_init_cb os))" "inert_init (Some (tcp_init_mt_cb os))"
  "inert_init (Some (uart_init_cb os))"
  by (simp_all add: inert_init_def)

lemma own_transforms [simp]:
  "own_transform None" "own_transform (Some (xor_encode lib))" "own_transform (Some (xor_decode lib))"
  by (simp_all add: own_transform_def own_rules)

lemma zero_ports_typed:
  assumes "sources p = replicate n (zero_source lib')" "snks p = replicate k zero_sink"
  shows "typed_ports lib h K p"
  using assms by (auto simp: typed_ports_def typed_source_def typed_sink_def zero_source_def zero_sink_def)

lemma init_typed:
  assumes "length (policies (policy_mgmt (pipe g))) = MAX_POLICIES"
  shows "yields memory_safe (\<lambda>g'. world g' = world g \<and> typed_ports lib h K (pipe g')) (pipeline_init lib g)"
proof -
  obtain p where p: "pipeline_init lib g = Inr (g\<lparr>pipe := p, perf_secure_gateway := perf_init\<rparr>)"
      "sources p = replicate MAX_SOURCES (zero_source lib)" "snks p = replicate MAX_SINKS zero_sink"
    using pipeline_init_ok [of g lib, OF assms] by blast
  show ?thesis unfolding p(1) using zero_ports_typed [OF p(2,3)] by simp
qed

lemma source_allocate_typed:
  assumes "typed_ports lib h K p"
    and "\<And>src. typed_source (host_os h) K (fill (src\<lparr>src_source_id := i, src_has_more := None, src_read_byte := None,
           src_transform := None, src_is_connected := True\<rparr>))"
  shows "yields memory_safe (typed_ports lib h K) (source_allocate p i fill)"
  using assms by (auto simp: source_allocate_def assert_that_def arr_update_def arr_get_def arr_put_def memory_safe_def intro!: typed_update_source)

lemma sink_allocate_typed:
  assumes "typed_ports lib h K p"
    and "\<And>snk. typed_sink lib h K (fill (snk\<lparr>snk_route := None, snk_transform := None, snk_is_connected := True\<rparr>))"
  shows "yields memory_safe (typed_ports lib h K) (sink_allocate p i fill)"
  using assms by (auto simp: sink_allocate_def arr_update_def arr_get_def arr_put_def memory_safe_def intro!: typed_update_sink)

text \<open>What a hook adds: at most one block, of the port's type, at an address that was free.\<close>

definition grown :: "device_kind \<Rightarrow> nat option \<Rightarrow> typing \<Rightarrow> typing" where
  "grown k r K = (case r of None \<Rightarrow> K | Some a \<Rightarrow> K(a \<mapsto> k))"

definition hooked ::
  "('x, 's, 'c) mavlink_lib \<Rightarrow> ('a, 'o, 'x) host \<Rightarrow> device_kind \<Rightarrow> typing \<Rightarrow> ('a, 'o) world
     \<Rightarrow> (int \<times> (('a, 'o) world, 'x, 's) pipeline_t \<times> ('a, 'o) world) \<Rightarrow> bool" where
  "hooked lib h k K w res \<longleftrightarrow> (case res of (rv, p', w') \<Rightarrow>
     let (r, s) = malloc (host_os h) (sys w)
     in sys w' = s \<and> typed (grown k r K) w' \<and> typed_ports lib h (grown k r K) p')"

lemma typed_grown:
  assumes "typed K w" "kind_of d = k"
  shows "typed (grown k (Some a) K) (heap_put a d (w\<lparr>sys := s\<rparr>))"
  using assms by (simp add: typed_def grown_def heap_put_def)

lemma typed_ports_grown:
  "typed_ports lib h K p \<Longrightarrow> K a = None \<Longrightarrow> typed_ports lib h (grown k (Some a) K) p"
  by (erule typed_ports_mono) (auto simp: grown_def map_le_def dom_def)

lemma hook_tcp_typed:
  assumes "typed K w" "typed_ports lib h K p" "\<forall>a. fst (malloc (host_os h) (sys w)) = Some a \<longrightarrow> K a = None"
  shows "yields memory_safe (hooked lib h Tcp_Kind K w) (hook_tcp nt lib (raw_message h) (host_os h) ga port i j p w)"
proof (cases "malloc (host_os h) (sys w)")
  case (Pair r s)
  show ?thesis
  proof (cases r)
    case None
    with Pair assms show ?thesis
      by (simp add: hook_tcp_def sys_step_def hooked_def grown_def typed_heap [of "w\<lparr>sys := s\<rparr>" w])
  next
    case (Some a)
    let ?K = "grown Tcp_Kind (Some a) K"
    have ports: "typed_ports lib h ?K p" and K: "?K a = Some Tcp_Kind"
      using typed_ports_grown [OF assms(2)] assms(3) Pair Some by (auto simp: grown_def)
    show ?thesis
      using Pair Some K typed_grown [OF assms(1)]
      by (auto simp: hook_tcp_def sys_step_def Let_def hooked_def typed_source_def typed_sink_def
          intro!: yields_bind [OF source_allocate_typed [OF ports]] yields_bind [OF sink_allocate_typed])
  qed
qed

lemma hook_uart_typed:
  assumes "typed K w" "typed_ports lib h K p" "\<forall>a. fst (malloc (host_os h) (sys w)) = Some a \<longrightarrow> K a = None"
  shows "yields memory_safe (hooked lib h Uart_Kind K w) (hook_uart lib (host_os h) ga dev i j p w)"
proof (cases "malloc (host_os h) (sys w)")
  case (Pair r s)
  show ?thesis
  proof (cases r)
    case None
    with Pair assms show ?thesis
      by (simp add: hook_uart_def sys_step_def hooked_def grown_def typed_heap [of "w\<lparr>sys := s\<rparr>" w])
  next
    case (Some a)
    let ?K = "grown Uart_Kind (Some a) K"
    have ports: "typed_ports lib h ?K p" and K: "?K a = Some Uart_Kind"
      using typed_ports_grown [OF assms(2)] assms(3) Pair Some by (auto simp: grown_def)
    show ?thesis
      using Pair Some K typed_grown [OF assms(1)]
      by (auto simp: hook_uart_def sys_step_def Let_def hooked_def typed_source_def typed_sink_def
          intro!: yields_bind [OF source_allocate_typed [OF ports]] yields_bind [OF sink_allocate_typed])
  qed
qed

text \<open>The blocks of the two hooks are different, as \<^verbatim>\<open>malloc\<close> promises.\<close>

definition distinct_blocks :: "('a, 'o, 'x) host \<Rightarrow> 'o \<Rightarrow> bool" where
  "distinct_blocks h s \<longleftrightarrow> (let (r1, s1) = malloc (host_os h) s; (r2, s2) = malloc (host_os h) s1
     in r1 = None \<or> r2 = None \<or> r1 \<noteq> r2)"

definition typed_gateway ::
  "('x, 's, 'c) mavlink_lib \<Rightarrow> ('a, 'o, 'x) host \<Rightarrow> (('a, 'o) world, 'x, 's, 'c) gateway \<Rightarrow> bool" where
  "typed_gateway lib h g \<longleftrightarrow> (\<exists>K. typed K (world g) \<and> typed_ports lib h K (pipe g))"

lemma hook_ports_typed:
  assumes "heap (world g) = (\<lambda>a. None)" "distinct_blocks h (sys (world g))"
    and "typed_ports lib h (\<lambda>a. None) (pipe g)"
  shows "yields memory_safe (typed_gateway lib h) (hook_ports lib h g)"
proof -
  have none: "typed (\<lambda>a. None) (world g)" using assms(1) by (simp add: typed_def)
  let ?r1 = "fst (malloc (host_os h) (sys (world g)))"
  let ?K1 = "grown Tcp_Kind ?r1 (\<lambda>a. None)"
  have tcp: "yields memory_safe (\<lambda>g1. typed ?K1 (world g1) \<and> typed_ports lib h ?K1 (pipe g1)
        \<and> sys (world g1) = snd (malloc (host_os h) (sys (world g))))
      (run_hook (hook_tcp nt lib (raw_message h) (host_os h) ga port i j) g)" for nt ga port i j
    unfolding run_hook_def
    by (rule yields_bind [OF hook_tcp_typed [OF none assms(3)]]) (auto simp: hooked_def split: prod.splits)
  have uart: "yields memory_safe (typed_gateway lib h) (run_hook (hook_uart lib (host_os h) ga dev i j) g1)"
    if "typed ?K1 (world g1)" "typed_ports lib h ?K1 (pipe g1)"
      "sys (world g1) = snd (malloc (host_os h) (sys (world g)))" for g1 ga dev i j
    unfolding run_hook_def
  proof (rule yields_bind [OF hook_uart_typed [OF that(1,2)]])
    show "\<forall>a. fst (malloc (host_os h) (sys (world g1))) = Some a \<longrightarrow> ?K1 a = None"
      using assms(2) that(3) by (auto simp: distinct_blocks_def grown_def split: prod.splits option.splits)
  qed (auto simp: hooked_def typed_gateway_def split: prod.splits)
  show ?thesis
    using none assms(3) by (auto simp: hook_ports_def typed_gateway_def intro!: yields_bind [OF tcp] uart)
qed

lemma hook_discard_typed:
  assumes "typed_gateway lib h g"
  shows "yields memory_safe (typed_gateway lib h) (hook_discard h g)"
proof -
  obtain K where K: "typed K (world g)" "typed_ports lib h K (pipe g)"
    using assms by (auto simp: typed_gateway_def)
  have "typed_sink lib h K ((snks (pipe g) ! j)\<lparr>snk_init := Some (stdio_init (set_nonblock h)), snk_cleanup := c,
      snk_route := Some (stdio_route (message_info_of h) (emit_report h))\<rparr>)" if "j < length (snks (pipe g))" for j c
    using typed_nth(2) [OF K(2) that] by (simp add: typed_sink_def)
  with K show ?thesis
    by (auto simp: hook_discard_def hook_stdio_sink_def sink_modify_def sink_get_def assert_that_def arr_get_def
        arr_put_def memory_safe_def typed_gateway_def intro!: exI [of _ K] typed_update_sink)
qed

lemma add_xor_typed:
  assumes "typed_gateway lib h g"
  shows "yields memory_safe (typed_gateway lib h) (add_xor lib b g)"
proof -
  obtain K where K: "typed K (world g)" "typed_ports lib h K (pipe g)"
    using assms by (auto simp: typed_gateway_def)
  have src: "yields memory_safe (typed_ports lib h K) (add_transformer p PORT_TYPE_SOURCE i (xor_decode lib))"
    if "typed_ports lib h K p" for p i
  proof -
    have "typed_source (host_os h) K ((sources p ! i)\<lparr>src_transform := Some (xor_decode lib)\<rparr>)" if "i < length (sources p)"
      using typed_nth(1) [OF \<open>typed_ports lib h K p\<close> that] by (simp add: typed_source_def)
    then show ?thesis
      using that by (auto simp: add_transformer_def arr_update_def assert_that_def arr_get_def arr_put_def memory_safe_def
          intro!: typed_update_source)
  qed
  have snk: "yields memory_safe (typed_ports lib h K) (add_transformer p PORT_TYPE_SINK i (xor_encode lib))"
    if "typed_ports lib h K p" for p i
  proof -
    have "typed_sink lib h K ((snks p ! i)\<lparr>snk_transform := Some (xor_encode lib)\<rparr>)" if "i < length (snks p)"
      using typed_nth(2) [OF \<open>typed_ports lib h K p\<close> that] by (simp add: typed_sink_def)
    then show ?thesis
      using that by (auto simp: add_transformer_def sink_modify_def sink_get_def assert_that_def arr_get_def arr_put_def
          memory_safe_def intro!: typed_update_sink)
  qed
  show ?thesis
    using assms K by (auto simp: add_xor_def typed_gateway_def intro!: yields_bind [OF src] yields_bind [OF snk])
qed

lemma init_inert:
  "inert_init i \<Longrightarrow> i = Some f \<Longrightarrow> f (Source_Obj True) w = Inr (0, w)"
  "inert_init i \<Longrightarrow> i = Some f \<Longrightarrow> f (Sink_Obj True) w = Inr (0, w)"
  by (auto simp: inert_init_def)

lemma connect_sources_inert: "\<forall>src \<in> set ss. inert_init (src_init src) \<Longrightarrow> connect_sources ss w = Inr w"
  by (induction ss w rule: connect_sources.induct) (auto simp: init_inert)

lemma connect_sinks_typed:
  "\<forall>snk \<in> set ss. typed_sink lib h K snk \<Longrightarrow> console_apart h \<Longrightarrow> typed K w \<Longrightarrow>
     yields memory_safe (typed K) (connect_sinks ss w)"
proof (induction ss w rule: connect_sinks.induct)
  case (2 snk ss w)
  show ?case
  proof (cases "snk_is_connected snk \<and> snk_init snk \<noteq> None")
    case True
    then obtain f where f: "snk_init snk = Some f" by blast
    have "\<exists>w'. f (Sink_Obj True) w = Inr (0, w') \<and> typed K w'"
      using 2 f by (auto simp: typed_sink_def init_inert stdio_init_def console_apart_def typed_def)
    with 2 True f show ?thesis by auto
  qed (use 2 in auto)
qed simp

lemma connect_typed:
  assumes "typed_gateway lib h g" "console_apart h"
  shows "yields memory_safe (typed_gateway lib h) (connect_all g)"
proof -
  obtain K where K: "typed K (world g)" "typed_ports lib h K (pipe g)"
    using assms by (auto simp: typed_gateway_def)
  have "connect_sources (sources (pipe g)) (world g) = Inr (world g)"
    using K(2) by (intro connect_sources_inert) (auto simp: typed_ports_def typed_source_def)
  moreover have "yields memory_safe (typed K) (connect_sinks (snks (pipe g)) (world g))"
    using K assms(2) by (intro connect_sinks_typed) (auto simp: typed_ports_def)
  ultimately show ?thesis
    using K(2) by (auto simp: connect_all_def pipeline_connect_def typed_gateway_def intro!: yields_bind)
qed

lemma setup_typed:
  assumes "heap (world g) = (\<lambda>a. None)" "distinct_blocks h (sys (world g))" "console_apart h"
    and "length (policies (policy_mgmt (pipe g))) = MAX_POLICIES"
  shows "yields memory_safe (typed_gateway lib h) (gateway_setup lib b h g)"
  unfolding gateway_setup_def
  by (rule yields_bind [OF init_typed [OF assms(4)]])
     (use assms in \<open>auto intro!: yields_bind [OF hook_ports_typed] yields_bind [OF hook_discard_typed]
        yields_bind [OF add_xor_typed] connect_typed\<close>)

text \<open>The three default policies have both functions.\<close>

lemma guarded_armed:
  assumes "guarded lib p" shows "armed (policy_mgmt p)"
proof -
  have pm: "count (policy_mgmt p) = 3" "take 3 (policies (policy_mgmt p)) = default_policies lib"
    using assms by (simp_all add: guarded_def default_config_def has_default_policies_def)
  have "policies (policy_mgmt p) ! i = default_policies lib ! i" if "i < 3" for i
    using that by (simp flip: pm(2))
  then show ?thesis
    using pm(1) by (auto simp: armed_def default_policies_def less_Suc_eq numeral_eq_Suc)
qed

section \<open>The result of the set-up\<close>

lemma setup_result:
  assumes "STD_LIBC h" "malloc (host_os h) (sys w) = (Some a, s1)" "malloc (host_os h) s1 = (Some a', s2)"
  shows "\<exists>g. gateway_setup lib b (h :: ('a, 'o, 'x) host) (static_gateway lib c w) = Inr g
    \<and> world g = w\<lparr>heap := (heap w)(a \<mapsto> Tcp ((tcp_garbage h)\<lparr>tcp_port := 12001, tcp_initialized := False\<rparr>),
                    a' \<mapsto> Uart ((uart_garbage h)\<lparr>uart_device := ''/dev/ttyAMA0'', uart_initialized := False\<rparr>)),
                  sys := s2\<rparr>
    \<and> sources (pipe g) = [zero_source lib,
         (zero_source lib)\<lparr>src_is_connected := True, src_source_id := 1, src_opaque := Some a',
            src_has_more := Some (uart_has_more (host_os h)), src_read_byte := Some (uart_read_byte (host_os h)),
            src_transform := (if USE_XOR b then Some (xor_decode lib) else None),
            src_init := Some (uart_init_cb (host_os h)), src_cleanup := Some (uart_cleanup_cb (host_os h))\<rparr>,
         (zero_source lib)\<lparr>src_is_connected := True, src_source_id := 2, src_opaque := Some a,
            src_has_more := Some (if STDC_NO_THREADS h then tcp_has_more (host_os h) else tcp_has_more_mt (host_os h)),
            src_read_byte := Some (if STDC_NO_THREADS h then tcp_read_byte (host_os h) else tcp_read_byte_mt (host_os h)),
            src_init := Some (if STDC_NO_THREADS h then tcp_init_cb (host_os h) else tcp_init_mt_cb (host_os h)),
            src_cleanup := Some (tcp_cleanup_cb (host_os h))\<rparr>,
         zero_source lib]
    \<and> snks (pipe g) = [
         zero_sink\<lparr>snk_init := Some (stdio_init (set_nonblock h)), snk_cleanup := Some (stdio_cleanup (unset_nonblock h)),
            snk_route := Some (stdio_route (message_info_of h) (emit_report h))\<rparr>,
         zero_sink\<lparr>snk_is_connected := True, snk_opaque := Some a', snk_route := Some (uart_route_to lib (host_os h)),
            snk_transform := (if USE_XOR b then Some (xor_encode lib) else None),
            snk_init := Some (uart_init_cb (host_os h)), snk_cleanup := Some (uart_cleanup_cb (host_os h))\<rparr>,
         zero_sink,
         zero_sink\<lparr>snk_is_connected := True, snk_opaque := Some a,
            snk_route := Some (if STDC_NO_THREADS h then tcp_route_to lib (raw_message h) (host_os h)
                               else tcp_route_to_mt lib (host_os h)),
            snk_init := Some (if STDC_NO_THREADS h then tcp_init_cb (host_os h) else tcp_init_mt_cb (host_os h)),
            snk_cleanup := Some (tcp_cleanup_cb (host_os h))\<rparr>]
    \<and> \<not> transform_enabled (pipe g) \<and> perf_secure_gateway g = perf_init \<and> show_state g = perf_show_init"
proof -
  let ?g = "static_gateway lib c w"
  obtain p where p: "pipeline_init lib ?g = Inr (?g\<lparr>pipe := p, perf_secure_gateway := perf_init\<rparr>)"
      "sources p = [zero_source lib, zero_source lib, zero_source lib, zero_source lib]"
      "snks p = [zero_sink, zero_sink, zero_sink, zero_sink]" "\<not> transform_enabled p"
    using pipeline_init_ok [of ?g lib] by (auto simp: static_gateway_def static_pipeline_def numeral_eq_Suc)
  have world: "world (static_gateway lib c v) = v" "show_state (static_gateway lib c v) = perf_show_init"
    for v :: "('a, 'o) world" by (simp_all add: static_gateway_def)
  note ops = connect_all_def pipeline_connect_def hook_discard_def hook_stdio_sink_def sink_modify_def sink_get_def
    add_xor_def add_transformer_def hook_ports_def run_hook_def hook_tcp_def hook_uart_def sys_step_def
    source_allocate_def sink_allocate_def assert_that_def arr_update_def arr_get_def arr_put_def heap_put_def
  show ?thesis
    using assms p(2-4)
    unfolding gateway_setup_def p(1) bind_res.simps
    by (cases w) (simp add: ops Let_def world zero_source_def zero_sink_def)
qed

section \<open>Properties\<close>

text \<open>
  C15. What \<^verbatim>\<open>main\<close> has set up before its loop, when both allocations succeed. The TCP server
  of port 12001 is the legacy source and sink, the serial port \<^verbatim>\<open>/dev/ttyAMA0\<close> the vehicle's,
  each with a struct of its own that the port's source and sink share; a \<^verbatim>\<open>USE_XOR\<close> build
  decodes and encodes on the vehicle's side only; the reporting sink takes the discarded
  messages and the enclave has neither. The system has seen the two allocations and nothing
  else: connecting opened no device, and both structs still say so.
\<close>

theorem setup_wires_ports:
  assumes "STD_LIBC h" "malloc (host_os h) (sys w) = (Some a, s1)" "malloc (host_os h) s1 = (Some a', s2)"
  shows "\<exists>g. gateway_setup lib b (h :: ('a, 'o, 'x) host) (static_gateway lib c w) = Inr g
    \<and> world g = w\<lparr>heap := (heap w)(a \<mapsto> Tcp ((tcp_garbage h)\<lparr>tcp_port := 12001, tcp_initialized := False\<rparr>),
                    a' \<mapsto> Uart ((uart_garbage h)\<lparr>uart_device := ''/dev/ttyAMA0'', uart_initialized := False\<rparr>)),
                  sys := s2\<rparr>
    \<and> map src_is_connected (sources (pipe g)) = [False, True, True, False]
    \<and> map src_opaque (sources (pipe g)) = [None, Some a', Some a, None]
    \<and> map src_has_more (sources (pipe g)) = [None, Some (uart_has_more (host_os h)),
         Some (if STDC_NO_THREADS h then tcp_has_more (host_os h) else tcp_has_more_mt (host_os h)), None]
    \<and> map src_transform (sources (pipe g)) = [None, if USE_XOR b then Some (xor_decode lib) else None, None, None]
    \<and> map snk_is_connected (snks (pipe g)) = [False, True, False, True]
    \<and> map snk_opaque (snks (pipe g)) = [None, Some a', None, Some a]
    \<and> map snk_route (snks (pipe g)) = [Some (stdio_route (message_info_of h) (emit_report h)),
         Some (uart_route_to lib (host_os h)), None,
         Some (if STDC_NO_THREADS h then tcp_route_to lib (raw_message h) (host_os h) else tcp_route_to_mt lib (host_os h))]
    \<and> map snk_transform (snks (pipe g)) = [None, if USE_XOR b then Some (xor_encode lib) else None, None, None]"
  using setup_result [OF assms, of lib b c] by (auto simp: zero_source_def zero_sink_def)

theorem setup_wires_ports_witness:
  "\<exists>g. gateway_setup demo_lib demo_build (demo_host\<lparr>STD_LIBC := True\<rparr>) demo_start = Inr g
     \<and> heap (world g) 100 = Some (Tcp (demo_tcp\<lparr>tcp_port := 12001, tcp_initialized := False\<rparr>))
     \<and> heap (world g) 101 = Some (Uart (demo_uart\<lparr>uart_device := ''/dev/ttyAMA0'', uart_initialized := False\<rparr>))
     \<and> sys (world g) = ([], [], 102)
     \<and> map src_opaque (sources (pipe g)) = [None, Some 101, Some 100, None]"
  using setup_wires_ports [of "demo_host\<lparr>STD_LIBC := True\<rparr>" "demo_world [] []" 100 "([], [], 101)" 101 "([], [], 102)"
      demo_lib demo_build "()"]
  by (auto simp: demo_host_def demo_os_def demo_world_def)

text \<open>
  C5. Pointer safety of the whole program. Start with an empty heap, a \<^verbatim>\<open>malloc\<close> that does not
  give out a block twice, and a clock and a console that touch no struct; the other calls of
  the system, the library and the traffic are arbitrary. Then \<^verbatim>\<open>main\<close> never takes one port's
  struct for another's, never uses one that is gone, and never calls or follows a null
  pointer, in either build, however long it runs and whatever allocation or system call
  fails: by itself, and with the ports' threads running, any number of passes of each
  before every operation of a port.
\<close>

theorem program_pointers_safe:
  assumes "heap w = (\<lambda>a. None)" "distinct_blocks h (sys w)" "console_apart h"
    and "\<forall>w. heap (snd (clock_gettime env w)) = heap w \<and> heap (snd (read_char env w)) = heap w"
  shows "gateway_main lib b h env (static_gateway lib c w)
      \<notin> {Some (Inl Type_Confusion), Some (Inl Use_After_Free), Some (Inl Null_Call)}
    \<and> (\<forall>sched. threaded_main lib b h sched env (static_gateway lib c w)
      \<notin> {Some (Inl Type_Confusion), Some (Inl Use_After_Free), Some (Inl Null_Call)})"
proof -
  let ?g = "static_gateway lib c w"
  have zero: "length (policies (policy_mgmt (pipe ?g))) = MAX_POLICIES" "world ?g = w"
    by (simp_all add: static_gateway_def static_pipeline_def)
  then have set: "yields memory_safe (typed_gateway lib h) (gateway_setup lib b h ?g)"
    using assms(1-3) by (intro setup_typed) simp_all
  have safe: "yields memory_safe (\<lambda>g'. True) r" if r: "threaded_main lib b h sched env ?g = Some r" for sched r
  proof (cases "gateway_setup lib b h ?g")
    case (Inl f)
    with set r show ?thesis by (auto simp: threaded_main_def)
  next
    case (Inr g)
    let ?gi = "g\<lparr>pipe := interleave (host_os h) sched (pipe g)\<rparr>"
    obtain K where K: "typed K (world g)" "typed_ports lib h K (pipe g)"
      using set Inr by (auto simp: typed_gateway_def)
    have "env_safe (typed K) env" using assms(4) by (simp add: env_safe_def typed_def)
    moreover have "ports_safe memory_safe (typed K) (pipe g)"
      using K assms(3) guarded_armed [OF setup_guarded [OF Inr zero(1)]] by (simp add: typed_ports_safe)
    then have "safe_state memory_safe (typed K) ?gi" using K by (simp add: safe_state_def interleave_safe)
    moreover have "main_loop lib b env ?gi = Some r" using r Inr by (simp add: threaded_main_def)
    ultimately have "yields memory_safe (safe_state memory_safe (typed K)) r"
      using type_run.main_loop_safe by blast
    then show ?thesis by (rule yields_weaken) simp
  qed
  have "threaded_main lib b h sched env ?g
      \<notin> {Some (Inl Type_Confusion), Some (Inl Use_After_Free), Some (Inl Null_Call)}" for sched
    by (auto simp: memory_safe_def dest!: safe)
  from this [of "\<lambda>_. []"] this show ?thesis by (simp add: threaded_main_none)
qed

theorem program_pointers_safe_witness:
  "threaded_main demo_lib demo_build (demo_host\<lparr>STD_LIBC := True\<rparr>) (\<lambda>_. [100, 101, 100]) net_env demo_start
     \<notin> {Some (Inl Type_Confusion), Some (Inl Use_After_Free), Some (Inl Null_Call)}"
proof -
  have 1: "heap (demo_world [] []) = (\<lambda>a. None)" by (simp add: demo_world_def)
  have 2: "distinct_blocks (demo_host\<lparr>STD_LIBC := True\<rparr>) (sys (demo_world [] []))"
    by (simp add: demo_world_def distinct_blocks_def demo_host_def demo_os_def)
  have 3: "console_apart (demo_host\<lparr>STD_LIBC := True\<rparr>)" by (simp add: demo_host_def console_apart_def)
  have 4: "\<forall>w. heap (snd (clock_gettime net_env w)) = heap w \<and> heap (snd (read_char net_env w)) = heap w"
    by (simp add: net_env_def)
  show ?thesis using program_pointers_safe [OF 1 2 3 4, of demo_lib demo_build "()"] by blast
qed

end
