(* ===== verification/Running_Gateway.thy ===== *)
theory Running_Gateway
  imports Gateway_Program
begin

text \<open>
  When the main loop runs for ever without a fault. A spin returns if every connected source
  has finitely many bytes left and reading one takes it off; unlike \<open>byte_source\<close> this does
  not say which byte it is, so it also covers a port whose sends overwrite bytes it has
  received. The clock may change the world in any way that keeps the ports usable; the passes
  of the ports' threads between the spins are in \<open>Program_Runs\<close>.
\<close>

section \<open>What a spin needs\<close>

text \<open>\<open>left\<close> is the number of bytes each source still has to give.\<close>

definition counted :: "('w \<Rightarrow> bool) \<Rightarrow> (nat \<Rightarrow> 'w \<Rightarrow> nat) \<Rightarrow> nat \<Rightarrow> ('w, 'x, 's) source_t \<Rightarrow> bool" where
  "counted ok left i src \<longleftrightarrow> (src_is_connected src \<longrightarrow>
     (\<exists>h r. src_has_more src = Some h \<and> src_read_byte src = Some r \<and> (\<forall>w. ok w \<longrightarrow>
        (\<exists>v w1. h (src_opaque src) w = Inr (v, w1) \<and> ok w1 \<and> (v = 0 \<longleftrightarrow> left i w = 0)
           \<and> (left i w \<noteq> 0 \<longrightarrow>
                (\<exists>x w2. r (src_opaque src) w1 = Inr (x, w2) \<and> ok w2 \<and> Suc (left i w2) = left i w))))))"

definition running :: "('w \<Rightarrow> bool) \<Rightarrow> (nat \<Rightarrow> 'w \<Rightarrow> nat) \<Rightarrow> build \<Rightarrow> ('w, 'x, 's, 'c) gateway \<Rightarrow> bool" where
  "running ok left b g \<longleftrightarrow> gateway_wf g \<and> ok (world g) \<and> discards_quietly b (pipe g) \<and> sources_named (pipe g)
     \<and> (\<forall>i < 4. counted ok left i (sources (pipe g) ! i))
     \<and> (\<forall>qs. sinks_total (\<lambda>w. ok w \<and> (\<forall>j. left j w = qs j)) (pipe g)) \<and> \<not> terminated (pipe g)"

lemma running_same:
  assumes "running ok left b g" "same_pipe (pipe g) (pipe g')"
    "perf_show_ok (perf_secure_gateway g') (show_state g')" "ok (world g')"
  shows "running ok left b g'"
proof -
  have len: "length (sources (pipe g)) = 4"
    using assms(1) by (simp add: running_def gateway_wf_def pipeline_wf_def)
  note f = same_pipe_fields [OF assms(2)]
  have src: "src_is_connected (sources (pipe g') ! i) = src_is_connected (sources (pipe g) ! i)"
    "src_source_id (sources (pipe g') ! i) = src_source_id (sources (pipe g) ! i)"
    "src_opaque (sources (pipe g') ! i) = src_opaque (sources (pipe g) ! i)"
    "src_has_more (sources (pipe g') ! i) = src_has_more (sources (pipe g) ! i)"
    "src_read_byte (sources (pipe g') ! i) = src_read_byte (sources (pipe g) ! i)"
    "src_transform (sources (pipe g') ! i) = src_transform (sources (pipe g) ! i)" if "i < 4" for i
    using same_pipe_source [OF assms(2), of i] len that by simp_all
  have "\<forall>i < 4. counted ok left i (sources (pipe g') ! i)"
    using assms(1) by (simp add: running_def counted_def src)
  moreover have "sources_named (pipe g')"
    using assms(1) src f by (simp add: running_def sources_named_def)
  moreover have "gateway_wf g'"
    using assms(1,3) f len by (simp add: running_def gateway_wf_def pipeline_wf_def)
  moreover have "sinks_total P (pipe g') = sinks_total P (pipe g)" for P
    using f by (simp add: sinks_total_def)
  ultimately show ?thesis
    using assms(1,4) f by (simp add: running_def discards_quietly_def)
qed

section \<open>A spin returns\<close>

lemma byte_runs:
  assumes run: "running ok left b g" and i: "i < 4"
  shows "\<exists>g'. spin_byte lib b i (sources (pipe g) ! i) x g = Inr g' \<and> running ok left b g'
    \<and> same_pipe (pipe g) (pipe g') \<and> (\<forall>j. left j (world g') = left j (world g))"
proof -
  let ?src = "sources (pipe g) ! i"
  have len: "length (sources (pipe g)) = 4" and perf: "perf_show_ok (perf_secure_gateway g) (show_state g)"
    using run by (simp_all add: running_def gateway_wf_def pipeline_wf_def)
  obtain rv c ms st where parse: "mavlink_parse_char lib i x (chan g) (msg (src_cur ?src)) (status (src_cur ?src))
      = (rv, c, ms, st)" by (metis prod_cases4)
  let ?m = "(src_cur ?src)\<lparr>msg := ms, status := st\<rparr>"
  let ?g1 = "g\<lparr>total_bytes := total_bytes g + 1, chan := c\<rparr>"
  show ?thesis
  proof (cases "rv = MAVLINK_FRAMING_OK")
    case True
    obtain m' g2 where m: "spin_message lib b i ?src ?m ?g1 = Inr (m', g2)" "pipe g2 = pipe g"
        "perf_show_ok (perf_secure_gateway g2) (show_state g2)" "ok (world g2)" "\<forall>j. left j (world g2) = left j (world g)"
      using run spin_message_total [of ?g1 b "\<lambda>w. ok w \<and> (\<forall>j. left j w = left j (world g))" i lib ?m] i
      by (auto simp: running_def gateway_wf_def)
    let ?g3 = "g2\<lparr>pipe := set_cur (pipe g2) i m'\<rparr>"
    have same: "same_pipe (pipe g) (pipe ?g3)" using m(2) len i by (simp add: same_pipe_set_cur)
    have "running ok left b ?g3"
      by (rule running_same [OF run same]) (use m in simp_all)
    then show ?thesis using parse True m same by (auto simp: spin_byte_def)
  next
    case False
    let ?g3 = "?g1\<lparr>pipe := set_cur (pipe g) i ?m\<rparr>"
    have same: "same_pipe (pipe g) (pipe ?g3)" using len i by (simp add: same_pipe_set_cur)
    have "running ok left b ?g3"
      by (rule running_same [OF run same]) (use run perf in \<open>simp_all add: running_def\<close>)
    then show ?thesis using parse False same by (cases rv) (auto simp: spin_byte_def Let_def)
  qed
qed

lemma step_runs:
  assumes run: "running ok left b g" and i: "i < 4" and con: "src_is_connected (sources (pipe g) ! i)"
  shows "\<exists>again g'. spin_step lib b i g = Inr (again, g') \<and> running ok left b g' \<and> same_pipe (pipe g) (pipe g')
    \<and> (again \<longleftrightarrow> left i (world g) \<noteq> 0) \<and> (again \<longrightarrow> Suc (left i (world g')) = left i (world g))"
proof -
  let ?src = "sources (pipe g) ! i"
  have len: "length (sources (pipe g)) = 4" and w: "ok (world g)" and cnt: "counted ok left i ?src"
    and perf: "perf_show_ok (perf_secure_gateway g) (show_state g)"
    using run i by (simp_all add: running_def gateway_wf_def pipeline_wf_def)
  obtain h r where hr: "src_has_more ?src = Some h" "src_read_byte ?src = Some r"
    and more: "\<exists>v w1. h (src_opaque ?src) (world g) = Inr (v, w1) \<and> ok w1 \<and> (v = 0 \<longleftrightarrow> left i (world g) = 0)
       \<and> (left i (world g) \<noteq> 0 \<longrightarrow>
            (\<exists>x w2. r (src_opaque ?src) w1 = Inr (x, w2) \<and> ok w2 \<and> Suc (left i w2) = left i (world g)))"
    using cnt con w unfolding counted_def by blast
  then obtain v w1 where 1: "h (src_opaque ?src) (world g) = Inr (v, w1)" "ok w1" "v = 0 \<longleftrightarrow> left i (world g) = 0"
    "left i (world g) \<noteq> 0 \<longrightarrow>
       (\<exists>x w2. r (src_opaque ?src) w1 = Inr (x, w2) \<and> ok w2 \<and> Suc (left i w2) = left i (world g))"
    by (elim exE conjE)
  have moved: "running ok left b (g\<lparr>world := w'\<rparr>)" if "ok w'" for w'
    using running_same [OF run, of "g\<lparr>world := w'\<rparr>"] perf that by simp
  show ?thesis
  proof (cases "left i (world g) = 0")
    case True
    then show ?thesis using 1 hr len i moved [OF 1(2)]
      by (intro exI [of _ False] exI [of _ "g\<lparr>world := w1\<rparr>"]) (simp add: spin_step_def)
  next
    case False
    then obtain x w2 where 2: "r (src_opaque ?src) w1 = Inr (x, w2)" "ok w2" "Suc (left i w2) = left i (world g)"
      using 1(4) by blast
    obtain g' where "spin_byte lib b i ?src x (g\<lparr>world := w2\<rparr>) = Inr g'" "running ok left b g'"
        "same_pipe (pipe g) (pipe g')" "left i (world g') = left i w2"
      using byte_runs [OF moved [OF 2(2)] i, of lib x] by auto
    then show ?thesis using 1 2 hr len i False
      by (intro exI [of _ True] exI [of _ g']) (simp add: spin_step_def)
  qed
qed

lemma loop_runs:
  "running ok left b g \<Longrightarrow> i < 4 \<Longrightarrow> src_is_connected (sources (pipe g) ! i) \<Longrightarrow>
     \<exists>load' g'. spin_loop lib b i load g = Some (Inr (load', g')) \<and> running ok left b g' \<and> same_pipe (pipe g) (pipe g')"
proof (induction "left i (world g)" arbitrary: g load rule: less_induct)
  case less
  have len: "length (sources (pipe g)) = 4"
    using less.prems(1) by (simp add: running_def gateway_wf_def pipeline_wf_def)
  from step_runs [OF less.prems] obtain again g1 where
    g1: "spin_step lib b i g = Inr (again, g1)" "running ok left b g1" "same_pipe (pipe g) (pipe g1)"
      "again \<longrightarrow> Suc (left i (world g1)) = left i (world g)" by blast
  show ?case
  proof (cases again)
    case True
    have "left i (world g1) < left i (world g)" using g1(4) True by linarith
    moreover have "src_is_connected (sources (pipe g1) ! i)"
      using same_pipe_source [OF g1(3), of i] less.prems(2,3) len by simp
    ultimately obtain load' g' where "spin_loop lib b i True g1 = Some (Inr (load', g'))" "running ok left b g'"
        "same_pipe (pipe g1) (pipe g')"
      using less.hyps [of g1 True] g1(2) less.prems(2) by blast
    then show ?thesis
      using g1 True by (subst spin_loop.simps) (auto intro: same_pipe_trans)
  next
    case False
    then show ?thesis using g1 by (subst spin_loop.simps) auto
  qed
qed

lemma sources_run:
  "running ok left b g \<Longrightarrow> \<forall>i \<in> set is. i < 4 \<Longrightarrow>
     \<exists>load' g'. spin_sources lib b is load g = Some (Inr (load', g')) \<and> running ok left b g' \<and> same_pipe (pipe g) (pipe g')"
proof (induction "is" arbitrary: load g)
  case (Cons i "is")
  have len: "length (sources (pipe g)) = 4" and i: "i < 4"
    using Cons.prems by (simp_all add: running_def gateway_wf_def pipeline_wf_def)
  have "\<exists>load1 g1. spin_source lib b i load g = Some (Inr (load1, g1)) \<and> running ok left b g1 \<and> same_pipe (pipe g) (pipe g1)"
  proof (cases "src_is_connected (sources (pipe g) ! i)")
    case True
    then have "src_has_more (sources (pipe g) ! i) \<noteq> None" "src_read_byte (sources (pipe g) ! i) \<noteq> None"
      using Cons.prems(1) i by (auto simp: running_def counted_def)
    then show ?thesis
      using loop_runs [OF Cons.prems(1) i True, of lib load] True i len by (simp add: spin_source_def)
  next
    case False
    then show ?thesis using Cons.prems(1) i len by (simp add: spin_source_def)
  qed
  then obtain load1 g1 where g1: "spin_source lib b i load g = Some (Inr (load1, g1))" "running ok left b g1"
      "same_pipe (pipe g) (pipe g1)" by blast
  moreover obtain load' g' where "spin_sources lib b is load1 g1 = Some (Inr (load', g'))" "running ok left b g'"
      "same_pipe (pipe g1) (pipe g')"
    using Cons.IH [OF g1(2), of load1] Cons.prems(2) by auto
  ultimately show ?case by (auto intro: same_pipe_trans)
qed simp

section \<open>The main loop\<close>

text \<open>Reading the clock leaves the ports usable.\<close>

definition clock_keeps :: "('w \<Rightarrow> bool) \<Rightarrow> 'w env \<Rightarrow> bool" where
  "clock_keeps ok env \<longleftrightarrow> (\<forall>w. ok w \<longrightarrow> ok (snd (clock_gettime env w)))"

lemma clock_keepsD: "clock_keeps ok env \<Longrightarrow> time_us env w = (t, w') \<Longrightarrow> ok w \<Longrightarrow> ok w'"
  unfolding clock_keeps_def time_us_def by (cases "clock_gettime env w") force

lemma spin_runs:
  assumes run: "running ok left b g" and env: "clock_keeps ok env" and b: "\<not> USE_CONSOLE b"
  shows "\<exists>g'. pipeline_spin lib b env g = Some (Inr (0, g')) \<and> running ok left b g'"
proof -
  obtain t w0 where t: "time_us env (world g) = (t, w0)" by (rule prod.exhaust)
  have "running ok left b (g\<lparr>world := w0\<rparr>)"
    by (rule running_same [OF run]) (use run clock_keepsD [OF env t] in \<open>simp_all add: running_def gateway_wf_def\<close>)
  from sources_run [OF this, of "[0 ..< 4]" lib False] obtain load g1 where
    g1: "spin_sources lib b [0 ..< 4] False (g\<lparr>world := w0\<rparr>) = Some (Inr (load, g1))" "running ok left b g1"
    by (auto simp del: spin_sources.simps upt_4)
  have "env_ok ok (\<lambda>_ _. []) b env" using b by (simp add: env_ok_def clock_keepsD [OF env])
  then obtain g' where g': "spin_finish b env t load g1 = Inr (0, g')" "gateway_wf g'" "ok (world g')"
    using spin_finish_ok [of ok "\<lambda>_ _. []" b env g1 t load] g1(2) by (auto simp: running_def)
  have "pipe g' = pipe g1"
    using g'(1) b by (auto simp: spin_finish_def res_simps Let_def split: prod.splits)
  then have "running ok left b g'"
    by (intro running_same [OF g1(2)]) (use g' in \<open>simp_all add: gateway_wf_def\<close>)
  with g1(1) g'(1) t show ?thesis by (simp add: pipeline_spin_def del: spin_sources.simps upt_4)
qed

lemma loop_never_ends:
  assumes run: "running ok left b g" and env: "clock_keeps ok env" and b: "\<not> USE_CONSOLE b"
  shows "main_loop lib b env g = None"
proof (rule ccontr)
  assume "main_loop lib b env g \<noteq> None"
  then obtain r where r: "main_loop lib b env g = Some r" by blast
  have "running ok left b g \<longrightarrow> clock_keeps ok env \<longrightarrow> \<not> USE_CONSOLE b \<longrightarrow> False" (is "?P lib b env g r")
  proof (rule main_loop.raw_induct [where P = ?P, OF _ r])
    fix loop lib b env g r
    assume 1: "\<And>lib b env g r. loop lib b env g = Some r \<Longrightarrow> ?P lib b env g r"
      "(if terminated (pipe g) then Some (Inr g)
        else case pipeline_spin lib b env g of None \<Rightarrow> None | Some (Inl f) \<Rightarrow> Some (Inl f)
          | Some (Inr (rv, g')) \<Rightarrow> if rv \<noteq> error_code SUCC then Some (Inr g') else loop lib b env g') = Some r"
    show "?P lib b env g r"
    proof (intro impI)
      assume *: "running ok left b g" "clock_keeps ok env" "\<not> USE_CONSOLE b"
      from spin_runs [OF this, of lib] obtain g1 where
        "pipeline_spin lib b env g = Some (Inr (0, g1))" "running ok left b g1" by blast
      moreover have "\<not> terminated (pipe g)" using *(1) by (simp add: running_def)
      ultimately show False using 1(1) [of lib b env g1 r] 1(2) * by simp
    qed
  qed
  with assms show False by blast
qed

end
