(* ===== verification/Lazy_Ports.thy ===== *)
theory Lazy_Ports
  imports Device_Ports
begin

text \<open>
  Ports that open on first use. The hooks of the TCP server and of the serial port only
  allocate the struct; whichever of \<^verbatim>\<open>has_more\<close> and \<^verbatim>\<open>route\<close> comes first calls the
  initialiser, and calls it again the next time if it has failed. The contract says what a
  caller sees of such a port in both states; \<open>bytes_left\<close>, the number of bytes it still has to
  give, is what makes the drain loop end.
\<close>

section \<open>The contract\<close>

text \<open>A step that touches the struct at \<open>a\<close> only.\<close>

definition only_at :: "nat \<Rightarrow> ('a, 'o) world \<Rightarrow> ('a, 'o) world \<Rightarrow> bool" where
  "only_at a w w' \<longleftrightarrow> (\<forall>b. b \<noteq> a \<longrightarrow> heap w' b = heap w b)"

lemma only_at_heap [simp]: "heap w' = heap w \<Longrightarrow> only_at a w w'"
  by (simp add: only_at_def)

lemma only_at_trans: "only_at a w w1 \<Longrightarrow> only_at a w1 w2 \<Longrightarrow> only_at a w w2"
  by (simp add: only_at_def)

definition bytes_left :: "(nat \<Rightarrow> 'w \<Rightarrow> bool) \<Rightarrow> (nat \<Rightarrow> 'w \<Rightarrow> u8 list) \<Rightarrow> nat \<Rightarrow> 'w \<Rightarrow> nat" where
  "bytes_left is_open pending a w = (if is_open a w then length (pending a w) else 0)"

locale lazy_port =
  fixes has_more :: "('a, 'o) world has_more_t"
    and read_byte :: "('a, 'o) world read_byte_t"
    and route :: "(('a, 'o) world, 'x, 's) route_t"
    and fits :: "('x, 's) message \<Rightarrow> bool"
    and usable is_open :: "nat \<Rightarrow> ('a, 'o) world \<Rightarrow> bool"
    and pending :: "nat \<Rightarrow> ('a, 'o) world \<Rightarrow> u8 list"
  assumes open_usable: "is_open a w \<Longrightarrow> usable a w"
    and opens: "usable a w \<Longrightarrow> \<not> is_open a w \<Longrightarrow> \<exists>w1. usable a w1 \<and> only_at a w w1 \<and>
      ((is_open a w1 \<and> pending a w1 = [] \<and> has_more (Some a) w = has_more (Some a) w1
          \<and> (\<forall>m. route (Some a) m w = route (Some a) m w1))
       \<or> (\<not> is_open a w1 \<and> has_more (Some a) w = Inr (0, w1) \<and> (\<forall>m. \<exists>v. route (Some a) m w = Inr (v, w1))))"
    and asks: "is_open a w \<Longrightarrow>
      \<exists>v w1. has_more (Some a) w = Inr (v, w1) \<and> heap w1 = heap w \<and> (v = 0 \<longleftrightarrow> pending a w = [])"
    and reads: "is_open a w \<Longrightarrow> pending a w = x # xs \<Longrightarrow>
      \<exists>w1. read_byte (Some a) w = Inr (x, w1) \<and> is_open a w1 \<and> pending a w1 = xs \<and> only_at a w w1"
    and sends: "is_open a w \<Longrightarrow> fits m \<Longrightarrow>
      \<exists>v w1. route (Some a) m w = Inr (v, w1) \<and> is_open a w1
        \<and> length (pending a w1) = length (pending a w) \<and> only_at a w w1"
    and local: "heap w' a = heap w a \<Longrightarrow>
      usable a w' = usable a w \<and> is_open a w' = is_open a w \<and> pending a w' = pending a w"
begin

lemma local_bytes: "heap w' a = heap w a \<Longrightarrow> bytes_left is_open pending a w' = bytes_left is_open pending a w"
  using local [of w' a w] by (simp add: bytes_left_def)

lemma asks_open:
  assumes "is_open a w"
  shows "\<exists>v w1. has_more (Some a) w = Inr (v, w1) \<and> is_open a w1 \<and> pending a w1 = pending a w \<and> only_at a w w1
    \<and> (v = 0 \<longleftrightarrow> bytes_left is_open pending a w = 0)"
proof -
  obtain v w1 where v: "has_more (Some a) w = Inr (v, w1)" "heap w1 = heap w" "v = 0 \<longleftrightarrow> pending a w = []"
    using asks [OF assms] by blast
  with local [of w1 a w] assms show ?thesis by (simp add: bytes_left_def)
qed

text \<open>Asking a usable port, open or not, and reading from it what it then has.\<close>

lemma has_more_runs:
  assumes "usable a w"
  shows "\<exists>v w1. has_more (Some a) w = Inr (v, w1) \<and> usable a w1 \<and> only_at a w w1
    \<and> (v = 0 \<longleftrightarrow> bytes_left is_open pending a w = 0)
    \<and> (bytes_left is_open pending a w \<noteq> 0 \<longrightarrow>
         (\<exists>x w2. read_byte (Some a) w1 = Inr (x, w2) \<and> usable a w2 \<and> only_at a w w2
           \<and> Suc (bytes_left is_open pending a w2) = bytes_left is_open pending a w))"
proof (cases "is_open a w")
  case True
  then obtain v w1 where 1: "has_more (Some a) w = Inr (v, w1)" "is_open a w1" "pending a w1 = pending a w"
      "only_at a w w1" "v = 0 \<longleftrightarrow> bytes_left is_open pending a w = 0" using asks_open by blast
  have "\<exists>x w2. read_byte (Some a) w1 = Inr (x, w2) \<and> usable a w2 \<and> only_at a w w2
      \<and> Suc (bytes_left is_open pending a w2) = bytes_left is_open pending a w"
    if "bytes_left is_open pending a w \<noteq> 0"
  proof -
    have "pending a w1 \<noteq> []" using that 1(3) True by (auto simp: bytes_left_def)
    then obtain x xs where xs: "pending a w1 = x # xs" by (auto simp: neq_Nil_conv)
    obtain w2 where w2: "read_byte (Some a) w1 = Inr (x, w2)" "is_open a w2" "pending a w2 = xs" "only_at a w1 w2"
      using reads [OF 1(2) xs] by blast
    have "pending a w = x # pending a w2" using 1(3) xs w2(3) by simp
    then have "Suc (bytes_left is_open pending a w2) = bytes_left is_open pending a w"
      using True w2(2) by (simp add: bytes_left_def)
    with w2 1(4) open_usable show ?thesis by (blast intro: only_at_trans)
  qed
  with 1 open_usable [OF 1(2)] show ?thesis
    by (intro exI [of _ v] exI [of _ w1]) simp
next
  case False
  then obtain w1 where 1: "usable a w1" "only_at a w w1"
    and cases: "(is_open a w1 \<and> pending a w1 = [] \<and> has_more (Some a) w = has_more (Some a) w1)
      \<or> has_more (Some a) w = Inr (0, w1)"
    using opens [OF assms] by blast
  have zero: "bytes_left is_open pending a w = 0" using False by (simp add: bytes_left_def)
  from cases show ?thesis
  proof (elim disjE conjE)
    assume o: "is_open a w1" "pending a w1 = []" "has_more (Some a) w = has_more (Some a) w1"
    have "bytes_left is_open pending a w1 = 0" using o by (simp add: bytes_left_def)
    with asks_open [OF o(1)] 1 o(3) zero show ?thesis by (auto intro: open_usable only_at_trans)
  qed (use 1 zero in auto)
qed

text \<open>Sending: a port that cannot be opened loses the message and nothing else.\<close>

lemma route_runs:
  assumes "usable a w" "fits m"
  shows "\<exists>v w1. route (Some a) m w = Inr (v, w1) \<and> usable a w1 \<and> only_at a w w1
    \<and> bytes_left is_open pending a w1 = bytes_left is_open pending a w"
proof (cases "is_open a w")
  case True
  from sends [OF True assms(2)] True show ?thesis by (auto simp: bytes_left_def intro: open_usable)
next
  case False
  then obtain w1 where 1: "usable a w1" "only_at a w w1"
    and cases: "(is_open a w1 \<and> pending a w1 = [] \<and> route (Some a) m w = route (Some a) m w1)
      \<or> (\<not> is_open a w1 \<and> (\<exists>v. route (Some a) m w = Inr (v, w1)))"
    using opens [OF assms(1)] by blast
  have zero: "bytes_left is_open pending a w = 0" using False by (simp add: bytes_left_def)
  from cases show ?thesis
  proof (elim disjE conjE exE)
    assume o: "is_open a w1" "pending a w1 = []" "route (Some a) m w = route (Some a) m w1"
    from sends [OF o(1) assms(2)] o 1 zero show ?thesis
      by (auto simp: bytes_left_def intro: open_usable only_at_trans)
  qed (use 1 zero in \<open>auto simp: bytes_left_def\<close>)
qed

end

section \<open>The TCP server\<close>

text \<open>\<open>sane\<close>: the arrays have the declared sizes, and a port marked initialised has been.\<close>

definition tcp_sane :: "tcp_socket \<Rightarrow> bool" where
  "tcp_sane t \<longleftrightarrow> length (rx_data (tcp_rx t)) = BUFFER_BYTES \<and> length (tcp_output t) = BUFFER_BYTES
     \<and> (tcp_initialized t \<longrightarrow> rx_wf (tcp_rx t))"

definition tcp_usable :: "nat \<Rightarrow> ('a, 'o) world \<Rightarrow> bool" where
  "tcp_usable a w \<longleftrightarrow> (\<exists>t. heap w a = Some (Tcp t) \<and> tcp_sane t)"

lemma tcp_listen_keeps:
  assumes "tcp_listen_to os t w = (rv, t1, w1)"
  shows "\<exists>fd. t1 = t\<lparr>tcp_fd := fd\<rparr>" "heap w1 = heap w"
  using assms by (auto simp: tcp_listen_to_def sys_step_def Let_def split: prod.splits if_splits)

lemma tcp_init_usable:
  assumes t: "heap w a = Some (Tcp t)" "tcp_sane t" "\<not> tcp_initialized t"
  shows "\<exists>rv w1. tcp_init_mt os a w = Inr (rv, w1) \<and> tcp_usable a w1 \<and> only_at a w w1
    \<and> (if rv = 0 then tcp_open a w1 \<and> tcp_pending a w1 = [] else \<not> tcp_open a w1)"
proof -
  obtain rv t1 w1 where l: "tcp_listen_to os (tcp_state_init t) w = (rv, t1, w1)" by (rule prod_cases3)
  obtain fd where t1: "t1 = (tcp_state_init t)\<lparr>tcp_fd := fd\<rparr>" and w1: "heap w1 = heap w"
    using tcp_listen_keeps [OF l] by blast
  obtain created w2 where c: "sys_step (thrd_create os a) w1 = (created, w2)" by (rule prod.exhaust)
  have w2: "heap w2 = heap w" using sys_step_heap [OF c] w1 by simp
  have sane: "tcp_sane t1" "\<not> tcp_initialized t1" "tcp_sane (t1\<lparr>tcp_thread := True, tcp_initialized := True\<rparr>)"
    "rx_wf (tcp_rx t1)" "rx_unread (tcp_rx t1) = []" "length (tcp_output t1) = BUFFER_BYTES"
    using t by (simp_all add: t1 tcp_sane_def tcp_state_init_def rx_wf_def rx_unread_def)
  show ?thesis
    using t(1,3) l c w1 w2 sane
    by (cases "rv = 0"; cases created)
       (auto simp: tcp_init_mt_def tcp_usable_def tcp_open_iff tcp_pending_def tcp_buffer_def only_at_def)
qed

interpretation tcp_lazy: lazy_port "tcp_has_more_mt os" "tcp_read_byte_mt os" "tcp_route_to_mt lib os" "frame_fits lib"
    tcp_usable tcp_open tcp_pending
  for os :: "('a, 'o) os" and lib :: "('x, 's, 'c) mavlink_lib"
proof unfold_locales
  fix a and w :: "('a, 'o) world"
  assume "tcp_open a w"
  then show "tcp_usable a w" by (auto simp: tcp_open_iff tcp_usable_def tcp_sane_def rx_wf_def)
next
  fix a and w :: "('a, 'o) world"
  assume "tcp_usable a w" "\<not> tcp_open a w"
  then obtain t where t: "heap w a = Some (Tcp t)" "tcp_sane t" "\<not> tcp_initialized t"
    by (auto simp: tcp_usable_def tcp_open_iff tcp_sane_def)
  obtain rv w1 where i: "tcp_init_mt os a w = Inr (rv, w1)" "tcp_usable a w1" "only_at a w w1"
      "if rv = 0 then tcp_open a w1 \<and> tcp_pending a w1 = [] else \<not> tcp_open a w1"
    using tcp_init_usable [OF t, of os] by blast
  show "\<exists>w1. tcp_usable a w1 \<and> only_at a w w1 \<and>
      ((tcp_open a w1 \<and> tcp_pending a w1 = [] \<and> tcp_has_more_mt os (Some a) w = tcp_has_more_mt os (Some a) w1
          \<and> (\<forall>m. tcp_route_to_mt lib os (Some a) m w = tcp_route_to_mt lib os (Some a) m w1))
       \<or> (\<not> tcp_open a w1 \<and> tcp_has_more_mt os (Some a) w = Inr (0, w1)
          \<and> (\<forall>m. \<exists>v. tcp_route_to_mt lib os (Some a) m w = Inr (v, w1))))"
  proof (cases "rv = 0")
    case True
    with i(4) obtain t1 where "heap w1 a = Some (Tcp t1)" "tcp_initialized t1" by (auto simp: tcp_open_iff)
    with True t(1,3) i show ?thesis
      by (intro exI [of _ w1]) (simp add: tcp_has_more_mt_def tcp_route_to_mt_def)
  next
    case False
    with t(1,3) i show ?thesis
      by (intro exI [of _ w1]) (simp add: tcp_has_more_mt_def tcp_route_to_mt_def)
  qed
next
  fix a and w :: "('a, 'o) world"
  assume "tcp_open a w"
  then obtain rx where rx: "tcp_buffer a w = Some rx" by (auto simp: tcp_open_def)
  then show "\<exists>v w1. tcp_has_more_mt os (Some a) w = Inr (v, w1) \<and> heap w1 = heap w \<and> (v = 0 \<longleftrightarrow> tcp_pending a w = [])"
    using tcp_rx.asks [OF rx, of os] rx_has_data_iff [OF tcp_rx.wf [OF rx]] by (auto simp: tcp_pending_def)
next
  fix a x xs and w :: "('a, 'o) world"
  assume "tcp_open a w" "tcp_pending a w = x # xs"
  then obtain rx where rx: "tcp_buffer a w = Some rx" "rx_unread rx = x # xs"
    by (auto simp: tcp_open_def tcp_pending_def)
  note wf = tcp_rx.wf [OF rx(1)]
  obtain rx' where rx': "rx_take rx = Inr (x, rx')" "rx_wf rx'" "rx_unread rx' = xs"
    using rx_take_ok [OF wf rx(2)] by blast
  have "rx_has_data rx" using rx_has_data_iff [OF wf] rx(2) by simp
  from tcp_rx.reads [OF rx(1) this rx'(1,2), of os] rx'(3)
  show "\<exists>w1. tcp_read_byte_mt os (Some a) w = Inr (x, w1) \<and> tcp_open a w1 \<and> tcp_pending a w1 = xs \<and> only_at a w w1"
    by (auto simp: tcp_open_def tcp_pending_def only_at_def)
next
  fix a m and w :: "('a, 'o) world"
  assume "tcp_open a w" "frame_fits lib m"
  then obtain rx where "tcp_buffer a w = Some rx" by (auto simp: tcp_open_def)
  from tcp_net.sends [OF this \<open>frame_fits lib m\<close>, of os] this
  show "\<exists>v w1. tcp_route_to_mt lib os (Some a) m w = Inr (v, w1) \<and> tcp_open a w1
      \<and> length (tcp_pending a w1) = length (tcp_pending a w) \<and> only_at a w w1"
    by (auto simp: tcp_open_def tcp_pending_def only_at_def)
next
  fix a and w w' :: "('a, 'o) world"
  assume "heap w' a = heap w a"
  then show "tcp_usable a w' = tcp_usable a w \<and> tcp_open a w' = tcp_open a w \<and> tcp_pending a w' = tcp_pending a w"
    by (simp add: tcp_usable_def tcp_open_def tcp_pending_def tcp_buffer_def)
qed

section \<open>The serial port\<close>

definition uart_sane :: "uart_connection \<Rightarrow> bool" where
  "uart_sane u \<longleftrightarrow> length (uart_output u) = BUFFER_BYTES \<and> (uart_initialized u \<longrightarrow> uart_wf u)"

definition uart_usable :: "nat \<Rightarrow> ('a, 'o) world \<Rightarrow> bool" where
  "uart_usable a w \<longleftrightarrow> (\<exists>u. heap w a = Some (Uart u) \<and> uart_sane u)"

lemma uart_device_init_keeps:
  assumes "uart_device_init os u s = (rv, u1, s1)"
  shows "uart_output u1 = uart_output u" "uart_initialized u1 = uart_initialized u"
  using assms by (auto simp: uart_device_init_def Let_def split: prod.splits if_splits option.splits)

lemma uart_init_usable:
  assumes u: "heap w a = Some (Uart u)" "uart_sane u" "\<not> uart_initialized u"
  shows "\<exists>rv w1. uart_init os a w = Inr (rv, w1) \<and> uart_usable a w1 \<and> only_at a w w1
    \<and> (if rv = 0 then uart_open a w1 \<and> uart_pending a w1 = [] else \<not> uart_open a w1)"
proof -
  obtain rv u1 s1 where d: "uart_device_init os u (sys w) = (rv, u1, s1)" by (rule prod_cases3)
  have u1: "length (uart_output u1) = BUFFER_BYTES" "\<not> uart_initialized u1"
    using uart_device_init_keeps [OF d] u by (simp_all add: uart_sane_def)
  let ?rb = "\<lparr>head = 0, tail = 0, max_size = BUFFER_BYTES, full = False\<rparr>"
  let ?u2 = "u1\<lparr>uart_thread := False, uart_terminate := False, uart_input := ?rb\<rparr>"
  have init: "uart_state_init u1 = Inr (0, ?u2)"
    using u1 by (simp add: uart_state_init_def ring_buffer_init_def assert_that_def)
  obtain created s2 where c: "thrd_create os a s1 = (created, s2)" by (rule prod.exhaust)
  have empty: "contents ?rb mem = []" for mem by (simp add: contents_def ring_buffer_size_def)
  show ?thesis
    using u d u1 init c empty
    by (cases "rv = 0"; cases created)
       (auto simp: uart_init_def sys_step_def Let_def uart_usable_def uart_sane_def uart_open_def uart_pending_def
          uart_wf_def ring_wf_def only_at_def)
qed

interpretation uart_lazy: lazy_port "uart_has_more os" "uart_read_byte os" "uart_route_to lib os" "frame_fits lib"
    uart_usable uart_open uart_pending
  for os :: "('a, 'o) os" and lib :: "('x, 's, 'c) mavlink_lib"
proof unfold_locales
  fix a and w :: "('a, 'o) world"
  assume "uart_open a w"
  then show "uart_usable a w" by (auto simp: uart_open_def uart_usable_def uart_sane_def uart_wf_def)
next
  fix a and w :: "('a, 'o) world"
  assume "uart_usable a w" "\<not> uart_open a w"
  then obtain u where u: "heap w a = Some (Uart u)" "uart_sane u" "\<not> uart_initialized u"
    by (auto simp: uart_usable_def uart_open_def uart_sane_def)
  obtain rv w1 where i: "uart_init os a w = Inr (rv, w1)" "uart_usable a w1" "only_at a w w1"
      "if rv = 0 then uart_open a w1 \<and> uart_pending a w1 = [] else \<not> uart_open a w1"
    using uart_init_usable [OF u, of os] by blast
  show "\<exists>w1. uart_usable a w1 \<and> only_at a w w1 \<and>
      ((uart_open a w1 \<and> uart_pending a w1 = [] \<and> uart_has_more os (Some a) w = uart_has_more os (Some a) w1
          \<and> (\<forall>m. uart_route_to lib os (Some a) m w = uart_route_to lib os (Some a) m w1))
       \<or> (\<not> uart_open a w1 \<and> uart_has_more os (Some a) w = Inr (0, w1)
          \<and> (\<forall>m. \<exists>v. uart_route_to lib os (Some a) m w = Inr (v, w1))))"
  proof (cases "rv = 0")
    case True
    with i(4) obtain u1 where "heap w1 a = Some (Uart u1)" "uart_initialized u1"
      by (auto simp: uart_open_def uart_wf_def)
    with True u(1,3) i show ?thesis
      by (intro exI [of _ w1]) (simp add: uart_has_more_def uart_route_to_def)
  next
    case False
    with u(1,3) i show ?thesis
      by (intro exI [of _ w1]) (simp add: uart_has_more_def uart_route_to_def)
  qed
next
  fix a and w :: "('a, 'o) world"
  assume "uart_open a w"
  then obtain u where u: "heap w a = Some (Uart u)" "uart_wf u" by (auto simp: uart_open_def)
  then show "\<exists>v w1. uart_has_more os (Some a) w = Inr (v, w1) \<and> heap w1 = heap w \<and> (v = 0 \<longleftrightarrow> uart_pending a w = [])"
    by (simp add: uart_has_more_def uart_pending_def uart_wf_def contents_Nil_iff)
next
  fix a x xs and w :: "('a, 'o) world"
  assume "uart_open a w" "uart_pending a w = x # xs"
  then obtain u where u: "heap w a = Some (Uart u)" "uart_wf u" "contents (uart_input u) (uart_output u) = x # xs"
    by (auto simp: uart_open_def uart_pending_def)
  then have wf: "ring_wf (uart_input u) (uart_output u)" by (simp add: uart_wf_def)
  from ring_buffer_pop_refines [OF wf] u(3) obtain rb where
    rb: "ring_buffer_pop (uart_input u) (uart_output u) = Inr (x, rb)" "ring_wf rb (uart_output u)"
      "max_size rb = max_size (uart_input u)" "contents rb (uart_output u) = xs" by auto
  with u show "\<exists>w1. uart_read_byte os (Some a) w = Inr (x, w1) \<and> uart_open a w1 \<and> uart_pending a w1 = xs \<and> only_at a w w1"
    by (simp add: uart_read_byte_def uart_open_def uart_pending_def uart_wf_def only_at_def)
next
  fix a m and w :: "('a, 'o) world"
  assume "uart_open a w" and fits: "frame_fits lib m"
  then obtain u where u: "heap w a = Some (Uart u)" "uart_wf u" by (auto simp: uart_open_def)
  let ?f = "mavlink_msg_to_send_buffer lib (msg m)"
  let ?mem = "?f @ drop (length ?f) (uart_output u)"
  obtain n s where s: "os_write os (uart_fd u) ?f (sys w) = (n, s)" by (rule prod.exhaust)
  have mem: "length ?mem = length (uart_output u)" using u fits by (simp add: uart_wf_def frame_fits_def)
  have "ring_wf (uart_input u) ?mem" using u ring_wf_length [OF mem] by (simp add: uart_wf_def)
  with mem u fits s show "\<exists>v w1. uart_route_to lib os (Some a) m w = Inr (v, w1) \<and> uart_open a w1
      \<and> length (uart_pending a w1) = length (uart_pending a w) \<and> only_at a w w1"
    by (simp add: uart_route_to_def uart_open_def uart_pending_def uart_wf_def only_at_def frame_fits_def sys_step_def Let_def)
next
  fix a and w w' :: "('a, 'o) world"
  assume "heap w' a = heap w a"
  then show "uart_usable a w' = uart_usable a w \<and> uart_open a w' = uart_open a w \<and> uart_pending a w' = uart_pending a w"
    by (simp add: uart_usable_def uart_open_def uart_pending_def)
qed

end
