(* ===== verification/Program_Runs.thy ===== *)
theory Program_Runs
  imports Running_Gateway Lazy_Ports Program_Types
begin

text \<open>
  The program of \<^verbatim>\<open>main.c\<close> in the build with threads, with both its ports: it opens them on
  first use, and from then on serves them for ever. The invariant says of the two structs
  only that they are usable ports; it survives every failure of a call of the system, and
  every pass of the ports' own threads (\<open>Port_Threads\<close>).
\<close>

section \<open>Both ports usable\<close>

definition served :: "nat \<Rightarrow> nat \<Rightarrow> ('a, 'o) world \<Rightarrow> bool" where
  "served a a' w \<longleftrightarrow> tcp_usable a w \<and> uart_usable a' w"

text \<open>The legacy source 2 is the TCP server, the vehicle's source 1 the serial port.\<close>

definition port_left :: "nat \<Rightarrow> nat \<Rightarrow> nat \<Rightarrow> ('a, 'o) world \<Rightarrow> nat" where
  "port_left a a' i w = (if i = 1 then bytes_left uart_open uart_pending a' w
     else if i = 2 then bytes_left tcp_open tcp_pending a w else 0)"

lemma port_left_tcp: "port_left a a' 2 w = bytes_left tcp_open tcp_pending a w"
  and port_left_uart: "port_left a a' 1 w = bytes_left uart_open uart_pending a' w"
  by (simp_all add: port_left_def)

lemma servedD: "served a a' w \<Longrightarrow> tcp_usable a w" "served a a' w \<Longrightarrow> uart_usable a' w"
  by (simp_all add: served_def)

text \<open>What the one port does, the other does not see.\<close>

lemma tcp_only:
  assumes "only_at a w w'" "a \<noteq> a'" "served a a' w" "tcp_usable a w'"
  shows "served a a' w'" "bytes_left uart_open uart_pending a' w' = bytes_left uart_open uart_pending a' w"
proof -
  have "heap w' a' = heap w a'" using assms(1,2) by (simp add: only_at_def)
  from uart_lazy.local [OF this] uart_lazy.local_bytes [OF this] assms(3,4)
  show "served a a' w'" "bytes_left uart_open uart_pending a' w' = bytes_left uart_open uart_pending a' w"
    by (simp_all add: served_def)
qed

lemma uart_only:
  assumes "only_at a' w w'" "a \<noteq> a'" "served a a' w" "uart_usable a' w'"
  shows "served a a' w'" "bytes_left tcp_open tcp_pending a w' = bytes_left tcp_open tcp_pending a w"
proof -
  have "heap w' a = heap w a" using assms(1,2) by (simp add: only_at_def)
  from tcp_lazy.local [OF this] tcp_lazy.local_bytes [OF this] assms(3,4)
  show "served a a' w'" "bytes_left tcp_open tcp_pending a w' = bytes_left tcp_open tcp_pending a w"
    by (simp_all add: served_def)
qed

lemma tcp_counted:
  assumes "a \<noteq> a'" "src_opaque src = Some a" "src_has_more src = Some (tcp_has_more_mt os)"
    "src_read_byte src = Some (tcp_read_byte_mt os)"
  shows "counted (served a a') (port_left a a') 2 src"
proof -
  have "\<exists>v w1. tcp_has_more_mt os (Some a) w = Inr (v, w1) \<and> served a a' w1 \<and> (v = 0 \<longleftrightarrow> port_left a a' 2 w = 0)
      \<and> (port_left a a' 2 w \<noteq> 0 \<longrightarrow> (\<exists>x w2. tcp_read_byte_mt os (Some a) w1 = Inr (x, w2) \<and> served a a' w2
           \<and> Suc (port_left a a' 2 w2) = port_left a a' 2 w))" if w: "served a a' w" for w
    using tcp_lazy.has_more_runs [of a w os] tcp_only(1) [OF _ assms(1) w] servedD(1) [OF w]
    unfolding port_left_tcp by meson
  then show ?thesis using assms by (simp add: counted_def)
qed

lemma uart_counted:
  assumes "a \<noteq> a'" "src_opaque src = Some a'" "src_has_more src = Some (uart_has_more os)"
    "src_read_byte src = Some (uart_read_byte os)"
  shows "counted (served a a') (port_left a a') 1 src"
proof -
  have "\<exists>v w1. uart_has_more os (Some a') w = Inr (v, w1) \<and> served a a' w1 \<and> (v = 0 \<longleftrightarrow> port_left a a' 1 w = 0)
      \<and> (port_left a a' 1 w \<noteq> 0 \<longrightarrow> (\<exists>x w2. uart_read_byte os (Some a') w1 = Inr (x, w2) \<and> served a a' w2
           \<and> Suc (port_left a a' 1 w2) = port_left a a' 1 w))" if w: "served a a' w" for w
    using uart_lazy.has_more_runs [of a' w os] uart_only(1) [OF _ assms(1) w] servedD(2) [OF w]
    unfolding port_left_uart by meson
  then show ?thesis using assms by (simp add: counted_def)
qed

lemma tcp_route_total:
  assumes "a \<noteq> a'" "\<forall>m. frame_fits lib m" "snk_opaque snk = Some a" "snk_route snk = Some (tcp_route_to_mt lib (os :: ('a, 'o) os))"
  shows "route_total (\<lambda>w. served a a' w \<and> (\<forall>j. port_left a a' j w = qs j)) snk"
  unfolding route_total_def
proof (intro allI impI)
  fix r m and w :: "('a, 'o) world"
  assume r: "snk_route snk = Some r" and w: "served a a' w \<and> (\<forall>j. port_left a a' j w = qs j)"
  then obtain v w1 where 1: "tcp_route_to_mt lib os (Some a) m w = Inr (v, w1)" "tcp_usable a w1" "only_at a w w1"
      "bytes_left tcp_open tcp_pending a w1 = bytes_left tcp_open tcp_pending a w"
    using tcp_lazy.route_runs [of a w lib m os] assms(2) by (auto simp: served_def)
  have "served a a' w1" "\<forall>j. port_left a a' j w1 = port_left a a' j w"
    using tcp_only [OF 1(3) assms(1) conjunct1 [OF w] 1(2)] 1(4) by (simp_all add: port_left_def)
  with 1 w r assms(3,4)
  show "\<exists>v w'. r (snk_opaque snk) m w = Inr (v, w') \<and> served a a' w' \<and> (\<forall>j. port_left a a' j w' = qs j)"
    by (intro exI [of _ v] exI [of _ w1]) simp
qed

lemma uart_route_total:
  assumes "a \<noteq> a'" "\<forall>m. frame_fits lib m" "snk_opaque snk = Some a'" "snk_route snk = Some (uart_route_to lib (os :: ('a, 'o) os))"
  shows "route_total (\<lambda>w. served a a' w \<and> (\<forall>j. port_left a a' j w = qs j)) snk"
  unfolding route_total_def
proof (intro allI impI)
  fix r m and w :: "('a, 'o) world"
  assume r: "snk_route snk = Some r" and w: "served a a' w \<and> (\<forall>j. port_left a a' j w = qs j)"
  then obtain v w1 where 1: "uart_route_to lib os (Some a') m w = Inr (v, w1)" "uart_usable a' w1" "only_at a' w w1"
      "bytes_left uart_open uart_pending a' w1 = bytes_left uart_open uart_pending a' w"
    using uart_lazy.route_runs [of a' w lib m os] assms(2) by (auto simp: served_def)
  have "served a a' w1" "\<forall>j. port_left a a' j w1 = port_left a a' j w"
    using uart_only [OF 1(3) assms(1) conjunct1 [OF w] 1(2)] 1(4) by (simp_all add: port_left_def)
  with 1 w r assms(3,4)
  show "\<exists>v w'. r (snk_opaque snk) m w = Inr (v, w') \<and> served a a' w' \<and> (\<forall>j. port_left a a' j w' = qs j)"
    by (intro exI [of _ v] exI [of _ w1]) simp
qed

section \<open>The ports' threads\<close>

lemma tcp_receive_usable:
  assumes "tcp_receive os a t w = Inr (r, w')" "tcp_sane t" "heap w = heap w0"
  shows "tcp_usable a w' \<and> only_at a w0 w'"
  using assms
  by (auto simp: tcp_receive_def Let_def res_simps rx_fill_def write_front_def tcp_usable_def tcp_sane_def rx_wf_def only_at_def
      split: prod.splits option.splits if_splits dest!: sys_step_heap)

lemma tcp_pass_usable:
  assumes "tcp_server_pass os a w = Inr (r, w')" "tcp_usable a w"
  shows "tcp_usable a w' \<and> only_at a w w'"
proof -
  obtain t where t: "heap w a = Some (Tcp t)" "tcp_sane t" using assms(2) by (auto simp: tcp_usable_def)
  obtain rv t1 w1 where c: "tcp_accept_client os t w = (rv, t1, w1)" by (rule prod_cases3)
  have t1: "tcp_sane t1" "heap w1 = heap w"
    using c t(2) tcp_accept_heap [OF c] by (auto simp: tcp_accept_client_def tcp_sane_def split: prod.splits)
  show ?thesis
    using assms t c t1 tcp_receive_usable [of os a t w r w' w] tcp_receive_usable [of os a t1 w1 r w' w]
    by (auto simp: tcp_server_pass_def tcp_usable_def only_at_def split: if_splits)
qed

lemma uart_pass_usable:
  assumes "uart_server_step os a w = Inr (r, w')" "uart_usable a w"
  shows "uart_usable a w' \<and> only_at a w w'"
proof -
  obtain u where u: "heap w a = Some (Uart u)" "uart_sane u" using assms(2) by (auto simp: uart_usable_def)
  obtain got w1 where s: "sys_step (os_read os (uart_fd u) 256) w = (got, w1)" by (rule prod.exhaust)
  have w1: "heap w1 = heap w" by (rule sys_step_heap [OF s])
  have sane: "uart_sane (u\<lparr>uart_input := rb, uart_output := mem\<rparr>)"
    if "ring_buffer_copy_from (uart_input u) (uart_output u) bs (length bs) = Inr (rb, mem)" for bs rb mem
    using that copy_from_length [OF that] u(2)
      ring_buffer_copy_from_refines [of "uart_input u" "uart_output u" "length bs" bs]
    by (auto simp: uart_sane_def uart_wf_def ring_buffer_copy_from_def res_simps)
  show ?thesis
    using assms(1) u s w1 sane
    by (auto simp: uart_server_step_def uart_usable_def only_at_def res_simps split: if_splits option.splits)
qed

text \<open>
  No pass faults while every read of the serial line gives at least a byte, as a blocking
  \<^verbatim>\<open>read\<close> with \<^verbatim>\<open>VMIN\<close> 1 does until the line hangs up. A read of 0 bytes would stop the program.
\<close>

definition reads_bytes :: "('a, 'o) os \<Rightarrow> bool" where
  "reads_bytes os \<longleftrightarrow> (\<forall>fd n s bs. fst (os_read os fd n s) = Some bs \<longrightarrow> bs \<noteq> [])"

lemma empty_read_stops:
  assumes "heap w a = Some (Uart u)" "has_thread (Uart u :: 'a device)" "\<not> uart_terminate u"
    and "os_read os (uart_fd u) 256 (sys w) = (Some [], s)"
  shows "thread_pass os a (w :: ('a, 'o) world) = Inl Assert_Failed"
proof -
  have "uart_server_step os a w = Inl Assert_Failed"
    using assms by (simp add: uart_server_step_def sys_step_def ring_buffer_copy_from_def assert_that_def)
  with assms(1,2) show ?thesis by (simp add: thread_pass_def effect_def)
qed

lemma uart_pass_returns:
  assumes "heap w a = Some (Uart u)" "uart_wf u" "reads_bytes os"
  shows "\<exists>r w'. uart_server_step os a w = Inr (r, w')"
proof -
  obtain got s where g: "os_read os (uart_fd u) 256 (sys w) = (got, s)" by (rule prod.exhaust)
  show ?thesis
  proof (cases got)
    case None
    with g assms(1) show ?thesis by (simp add: uart_server_step_def sys_step_def)
  next
    case (Some bs)
    then have "bs \<noteq> []" using g assms(3) unfolding reads_bytes_def by (metis fst_conv)
    then obtain rb mem where "ring_buffer_copy_from (uart_input u) (uart_output u) bs (length bs) = Inr (rb, mem)"
      using ring_buffer_copy_from_refines [of "uart_input u" "uart_output u" "length bs" bs] assms(2)
      by (auto simp: uart_wf_def)
    with g Some assms(1) show ?thesis by (simp add: uart_server_step_def sys_step_def)
  qed
qed

lemma thread_pass_serves:
  assumes "served a a' w" "a \<noteq> a'" "recv_bounded os" "reads_bytes os" "c \<in> {a, a'}"
  shows "\<exists>w'. thread_pass os c w = Inr w' \<and> served a a' w'"
proof (cases "c = a")
  case True
  obtain t where t: "heap w a = Some (Tcp t)" "tcp_sane t" using assms(1) by (auto simp: served_def tcp_usable_def)
  show ?thesis
  proof (cases "has_thread (Tcp t)")
    case runs: True
    then have "tcp_buffer a w = Some (tcp_rx t)" using t by (auto simp: tcp_buffer_iff tcp_sane_def)
    from tcp_pass_ok [OF assms(3) this] obtain v w' where p: "tcp_server_pass os a w = Inr (v, w')"
      by (auto simp: pass_ok_def)
    have "served a a' w'"
      using tcp_pass_usable [OF p] tcp_only(1) [OF _ assms(2,1)] servedD(1) [OF assms(1)] by blast
    with p runs t True show ?thesis by (simp add: thread_pass_def effect_def)
  qed (use t True assms(1) in \<open>auto simp: thread_pass_def\<close>)
next
  case False
  then have c: "c = a'" using assms(5) by simp
  obtain u where u: "heap w a' = Some (Uart u)" "uart_sane u" using assms(1) by (auto simp: served_def uart_usable_def)
  show ?thesis
  proof (cases "has_thread (Uart u)")
    case runs: True
    then have "uart_wf u" using u by (simp add: uart_sane_def)
    from uart_pass_returns [OF u(1) this assms(4)] obtain v w' where p: "uart_server_step os a' w = Inr (v, w')" by blast
    have "served a a' w'"
      using uart_pass_usable [OF p] uart_only(1) [OF _ assms(2,1)] servedD(2) [OF assms(1)] by blast
    with p runs u c show ?thesis by (simp add: thread_pass_def effect_def)
  qed (use u c assms(1) in \<open>auto simp: thread_pass_def\<close>)
qed

lemma thread_passes_serve:
  "served a a' w \<Longrightarrow> a \<noteq> a' \<Longrightarrow> recv_bounded os \<Longrightarrow> reads_bytes os \<Longrightarrow> set cs \<subseteq> {a, a'} \<Longrightarrow>
     \<exists>w'. thread_passes os cs w = Inr w' \<and> served a a' w'"
proof (induction cs arbitrary: w)
  case (Cons c cs)
  then obtain w1 where "thread_pass os c w = Inr w1" "served a a' w1"
    using thread_pass_serves [of a a' w os c] by auto
  with Cons show ?case by auto
qed simp

text \<open>So every turn completes.\<close>

lemma threaded_turns_complete:
  "running (served a a') left b g \<Longrightarrow> clock_keeps (served a a') env \<Longrightarrow> \<not> USE_CONSOLE b \<Longrightarrow>
     a \<noteq> a' \<Longrightarrow> recv_bounded os \<Longrightarrow> reads_bytes os \<Longrightarrow> \<forall>cs \<in> set turns. set cs \<subseteq> {a, a'} \<Longrightarrow>
     \<exists>g'. threaded_turns lib b env os turns g = Some (Inr (replicate (length turns) 0, g')) \<and> running (served a a') left b g'"
proof (induction turns arbitrary: g)
  case (Cons cs turns)
  have run: "served a a' (world g)" "\<not> terminated (pipe g)" using Cons.prems(1) by (simp_all add: running_def)
  obtain w where w: "thread_passes os cs (world g) = Inr w" "served a a' w"
    using thread_passes_serve [OF run(1) Cons.prems(4-6), of cs] Cons.prems(7) by auto
  have "running (served a a') left b (g\<lparr>world := w\<rparr>)"
    by (rule running_same [OF Cons.prems(1)]) (use w Cons.prems(1) in \<open>simp_all add: running_def gateway_wf_def\<close>)
  from spin_runs [OF this Cons.prems(2,3), of lib] obtain g1 where
    g1: "pipeline_spin lib b env (g\<lparr>world := w\<rparr>) = Some (Inr (0, g1))" "running (served a a') left b g1" by blast
  obtain g' where "threaded_turns lib b env os turns g1 = Some (Inr (replicate (length turns) 0, g'))"
      "running (served a a') left b g'"
    using Cons.IH [OF g1(2) Cons.prems(2-6)] Cons.prems(7) by auto
  with w(1) g1(1) run(2) show ?case by simp
qed simp

section \<open>The program after its set-up\<close>

definition roomy :: "('a, 'o, 'x) host \<Rightarrow> bool" where
  "roomy h \<longleftrightarrow> length (rx_data (tcp_rx (tcp_garbage h))) = BUFFER_BYTES \<and> length (tcp_output (tcp_garbage h)) = BUFFER_BYTES
     \<and> length (uart_output (uart_garbage h)) = BUFFER_BYTES"

lemma setup_running:
  assumes host: "STD_LIBC h" "\<not> STDC_NO_THREADS h" "roomy h" and b: "\<not> DEBUG b"
    and mem: "malloc (host_os h) (sys w) = (Some a, s1)" "malloc (host_os h) s1 = (Some a', s2)" "a \<noteq> a'"
    and fits: "\<forall>m. frame_fits lib m"
  shows "\<exists>g. gateway_setup lib b (h :: ('a, 'o, 'x) host) (static_gateway lib c w) = Inr g
    \<and> running (served a a') (port_left a a') b g"
proof -
  let ?zero = "length (policies (policy_mgmt (pipe (static_gateway lib c w)))) = MAX_POLICIES"
  have zero: ?zero by (simp add: static_gateway_def static_pipeline_def)
  obtain g where g: "gateway_setup lib b h (static_gateway lib c w) = Inr g"
    and world: "world g = w\<lparr>heap := (heap w)(a \<mapsto> Tcp ((tcp_garbage h)\<lparr>tcp_port := 12001, tcp_initialized := False\<rparr>),
                    a' \<mapsto> Uart ((uart_garbage h)\<lparr>uart_device := ''/dev/ttyAMA0'', uart_initialized := False\<rparr>)),
                  sys := s2\<rparr>"
    and src: "\<not> src_is_connected (sources (pipe g) ! 0)" "\<not> src_is_connected (sources (pipe g) ! 3)"
        "src_opaque (sources (pipe g) ! 1) = Some a'" "src_has_more (sources (pipe g) ! 1) = Some (uart_has_more (host_os h))"
        "src_read_byte (sources (pipe g) ! 1) = Some (uart_read_byte (host_os h))"
        "src_opaque (sources (pipe g) ! 2) = Some a" "src_has_more (sources (pipe g) ! 2) = Some (tcp_has_more_mt (host_os h))"
        "src_read_byte (sources (pipe g) ! 2) = Some (tcp_read_byte_mt (host_os h))"
        "map src_source_id (sources (pipe g)) = [0, 1, 2, 0]"
    and snk: "snk_opaque (snks (pipe g) ! 1) = Some a'" "snk_route (snks (pipe g) ! 1) = Some (uart_route_to lib (host_os h))"
        "snk_route (snks (pipe g) ! 2) = None"
        "snk_opaque (snks (pipe g) ! 3) = Some a" "snk_route (snks (pipe g) ! 3) = Some (tcp_route_to_mt lib (host_os h))"
    and st: "\<not> transform_enabled (pipe g)" "perf_secure_gateway g = perf_init" "show_state g = perf_show_init"
    using setup_result [OF host(1) mem(1,2), of lib b c] host(2) by (auto simp: zero_source_def zero_sink_def)
  have guard: "guarded lib (pipe g)" by (rule setup_guarded [OF g zero])
  have "served a a' (world g)"
    using host(3) mem(3) by (simp add: world served_def tcp_usable_def uart_usable_def tcp_sane_def uart_sane_def roomy_def)
  moreover have "counted (served a a') (port_left a a') i (sources (pipe g) ! i)" if "i < 4" for i
    using that src(1,2) uart_counted [OF mem(3) src(3-5)] tcp_counted [OF mem(3) src(6-8)]
    by (auto simp: less_Suc_eq numeral_eq_Suc counted_def)
  moreover have "sources_named (pipe g)"
  proof -
    have "length (sources (pipe g)) = 4" using guard by (simp add: guarded_def default_config_def pipeline_wf_def)
    then have "src_source_id (sources (pipe g) ! i) = [0, 1, 2, 0] ! i" if "i < 4" for i
      using that src(9) by (metis nth_map)
    then show ?thesis using st(1) by (auto simp: sources_named_def less_Suc_eq numeral_eq_Suc)
  qed
  moreover have "sinks_total (\<lambda>w. served a a' w \<and> (\<forall>j. port_left a a' j w = qs j)) (pipe g)" for qs
  proof -
    have "route_total P (snks (pipe g) ! 2)" for P using snk(3) by (simp add: route_total_def)
    then show ?thesis
      using st(1) uart_route_total [OF mem(3) fits snk(1,2)] tcp_route_total [OF mem(3) fits snk(4,5)]
      by (auto simp: sinks_total_def less_Suc_eq numeral_eq_Suc)
  qed
  moreover have "gateway_wf g"
    using guard st(2,3) perf_show_ok_init by (simp add: gateway_wf_def guarded_def default_config_def)
  ultimately show ?thesis
    using g guard b by (auto simp: running_def guarded_def discards_quietly_def)
qed

section \<open>Property\<close>

text \<open>
  C4. The program serves for ever. Take the build with threads, without console and debug
  output, let both allocations succeed, whatever was in that memory, and let the ports'
  threads make any passes, in any order, before each turn of the main loop; a message's frame
  fits the ports' buffers, and the clock touches no struct. Of the system's calls only two
  things are asked: a receive gives at most the bytes it was asked for, and a read of the
  serial line that succeeds gives at least one (0 bytes, a hang-up, fail an assertion in the
  port's thread). Every call may fail at any time: a device that cannot be opened, a thread
  that is not created, a client that goes away, a short write stop nothing; a write to a
  client that is gone is taken to fail, with \<^verbatim>\<open>SIGPIPE\<close> ignored. Then the set-up succeeds,
  every turn completes with \<open>SUCC\<close> and without a fault, and \<^verbatim>\<open>main\<close> does not return.
\<close>

theorem program_runs:
  assumes "STD_LIBC h" "\<not> STDC_NO_THREADS h" "roomy h" "\<not> DEBUG b" "\<not> USE_CONSOLE b"
    and "malloc (host_os h) (sys w) = (Some a, s1)" "malloc (host_os h) s1 = (Some a', s2)" "a \<noteq> a'"
    and "\<forall>m. frame_fits lib m" and "\<forall>w. heap (snd (clock_gettime env w)) = heap w"
    and "recv_bounded (host_os h)" and "reads_bytes (host_os h)"
    and "\<forall>cs \<in> set turns. set cs \<subseteq> {a, a'}"
  shows "(\<exists>g. threaded_run lib b h env turns (static_gateway lib c w)
        = Some (Inr (replicate (length turns) (error_code SUCC), g)) \<and> served a a' (world g))
    \<and> gateway_main lib b h env (static_gateway lib c w) = None"
proof -
  obtain g where g: "gateway_setup lib b h (static_gateway lib c w) = Inr g"
      "running (served a a') (port_left a a') b g"
    using setup_running [OF assms(1-4,6-9), of c] by blast
  have clock: "clock_keeps (served a a') env"
    using assms(10) by (simp add: clock_keeps_def served_def tcp_usable_def uart_usable_def)
  have "\<exists>g'. threaded_turns lib b env (host_os h) turns g = Some (Inr (replicate (length turns) 0, g')) \<and> served a a' (world g')"
    using threaded_turns_complete [OF g(2) clock assms(5,8,11-13), of lib] by (auto simp: running_def)
  with g(1) loop_never_ends [OF g(2) clock assms(5)] show ?thesis
    by (simp add: gateway_main_def threaded_run_def)
qed

text \<open>A system that receives and reads at most what is asked for, and never nothing.\<close>

definition run_os :: "(unit, demo_sys) os" where
  "run_os = service_os\<lparr>os_read := (\<lambda>fd n s. case demo_receive s of (None, s') \<Rightarrow> (None, s')
     | (Some bs, s') \<Rightarrow> (if take n bs = [] then None else Some (take n bs), s'))\<rparr>"

theorem program_runs_witness:
  "let h = demo_host\<lparr>STD_LIBC := True, host_os := run_os\<rparr>; start = static_gateway demo_lib () (demo_world [] [[1, 2], [], [3]])
   in (\<exists>g. threaded_run demo_lib demo_build h net_env [[], [100, 101], [101, 100, 100]] start = Some (Inr ([0, 0, 0], g)))
     \<and> gateway_main demo_lib demo_build h net_env start = None"
proof -
  let ?h = "demo_host\<lparr>STD_LIBC := True, host_os := run_os\<rparr>" and ?w = "demo_world [] [[1, 2], [], [3]]"
  have host: "STD_LIBC ?h" "\<not> STDC_NO_THREADS ?h" "roomy ?h" "\<not> DEBUG demo_build" "\<not> USE_CONSOLE demo_build"
    by (simp_all add: demo_host_def roomy_def demo_tcp_def demo_uart_def demo_rx_def demo_build_def)
  have mem: "malloc (host_os ?h) (sys ?w) = (Some 100, ([[1, 2], [], [3]], [], 101))"
      "malloc (host_os ?h) ([[1, 2], [], [3]], [], 101) = (Some 101, ([[1, 2], [], [3]], [], 102))" "(100 :: nat) \<noteq> 101"
    by (simp_all add: run_os_def service_os_def demo_os_def demo_world_def)
  have fits: "\<forall>m. frame_fits demo_lib m" by (simp add: frame_fits_def demo_lib_def BUFFER_BYTES_def)
  have clock: "\<forall>w. heap (snd (clock_gettime net_env w)) = heap w" by (simp add: net_env_def)
  have os: "recv_bounded (host_os ?h)" "reads_bytes (host_os ?h)"
    by (auto simp: recv_bounded_def reads_bytes_def run_os_def service_os_def split: prod.splits option.splits if_splits)
  have turns: "\<forall>cs \<in> set [[], [100, 101], [101, 100, 100]]. set cs \<subseteq> {100, 101 :: nat}" by simp
  from program_runs [OF host mem fits clock os turns, of "()"] show ?thesis by (auto simp: Let_def numeral_3_eq_3)
qed

end
