(* ===== verification/Tcp_Bridge.thy ===== *)
theory Tcp_Bridge
  imports Devices "HOL-Library.Sublist" "HOL-Library.Signed_Division"
begin

text \<open>
  The bridge of \<^verbatim>\<open>tools/tcp_bridge.cc\<close>, which carries a MAVLink stream between two TCP
  servers: two adapters, and for each direction a tunnel with a queue, a receiver thread
  and a sender thread. The four threads and the monitor are interleaved; an access to a
  shared variable outside the lock is a step of its own, and so is every call of the
  system. A wait may end at any time, which covers the signal and spurious wake-ups. The
  system's calls are those of \<open>os\<close>.

  A packet is its \<^verbatim>\<open>size\<close> bytes; nothing reads the rest of its 1024. Messages printed by the
  threads are left out; \<^verbatim>\<open>to_string\<close>, \<^verbatim>\<open>join\<close> and the destructors are in \<open>Bridge_Teardown\<close>.
  \<^verbatim>\<open>sleep\<close> and \<^verbatim>\<open>usleep\<close> only take time.
\<close>

section \<open>Adapters\<close>

record adapter_metrics_t =
  bytes_sent :: u64
  bytes_received :: u64
  packets_sent :: u64
  packets_received :: u64

record tcp_adapter =
  ad_terminate :: bool
  ad_metrics :: adapter_metrics_t
  ad_ip :: string
  ad_port :: int
  ad_fd :: int

text \<open>\<^verbatim>\<open>strncpy\<close> keeps 16 characters of the address.\<close>

definition tcp_adapter_new :: "string \<Rightarrow> int \<Rightarrow> tcp_adapter" where
  "tcp_adapter_new ip port = \<lparr>ad_terminate = False,
     ad_metrics = \<lparr>bytes_sent = 0, bytes_received = 0, packets_sent = 0, packets_received = 0\<rparr>,
     ad_ip = take 16 ip, ad_port = port, ad_fd = -1\<rparr>"

definition adapter_is_connected :: "tcp_adapter \<Rightarrow> bool" where
  "adapter_is_connected a \<longleftrightarrow> ad_fd a \<noteq> -1"

text \<open>
  Each counter has one writer, the thread that sends or receives through the adapter, and no
  other thread decides on it; the two increments of a count are one step here.
\<close>

definition count_sent :: "nat \<Rightarrow> tcp_adapter \<Rightarrow> tcp_adapter" where
  "count_sent n a = a\<lparr>ad_metrics := (ad_metrics a)\<lparr>packets_sent := packets_sent (ad_metrics a) + 1,
     bytes_sent := bytes_sent (ad_metrics a) + of_nat n\<rparr>\<rparr>"

definition count_received :: "int \<Rightarrow> tcp_adapter \<Rightarrow> tcp_adapter" where
  "count_received rv a = a\<lparr>ad_metrics := (ad_metrics a)\<lparr>packets_received := packets_received (ad_metrics a) + 1,
     bytes_received := bytes_received (ad_metrics a) + word_of_int rv\<rparr>\<rparr>"

definition adapter_get_metrics :: "tcp_adapter \<Rightarrow> adapter_metrics_t" where
  "adapter_get_metrics a = ad_metrics a"

definition adapter_disconnect :: "tcp_adapter \<Rightarrow> int \<times> tcp_adapter" where
  "adapter_disconnect a = (0, a\<lparr>ad_terminate := True\<rparr>)"

definition tcp_adapter_disconnect :: "('a, 'o) os \<Rightarrow> tcp_adapter \<Rightarrow> 'o \<Rightarrow> tcp_adapter \<times> 'o" where
  "tcp_adapter_disconnect os a s =
     (let (_, a1) = adapter_disconnect a
      in if ad_fd a \<noteq> -1 then (a1\<lparr>ad_fd := -1\<rparr>, os_close os (ad_fd a) s) else (a1, s))"

text \<open>What the destructor does to the system.\<close>

definition tcp_adapter_delete :: "('a, 'o) os \<Rightarrow> tcp_adapter \<Rightarrow> 'o \<Rightarrow> 'o" where
  "tcp_adapter_delete os a s = (if ad_fd a \<noteq> -1 then os_close os (ad_fd a) s else s)"

lemma disconnect_closes_once:
  "tcp_adapter_disconnect os a s = (a', s') \<Longrightarrow> tcp_adapter_delete os a' s' = tcp_adapter_delete os a s"
  by (auto simp: tcp_adapter_disconnect_def adapter_disconnect_def tcp_adapter_delete_def Let_def split: if_splits)

section \<open>Tunnels\<close>

text \<open>Where the receiver is: \<open>Rc_Test\<close> to \<open>Rc_Count\<close> are \<^verbatim>\<open>Adapter::recv\<close>.\<close>

datatype receiver_pc =
    Rc_Off
  | Rc_Check
  | Rc_Test
  | Rc_Socket
  | Rc_Option
  | Rc_Address
  | Rc_Connect
  | Rc_Failed
  | Rc_Receive
  | Rc_Close
  | Rc_Clear
  | Rc_Count
  | Rc_Lock
  | Rc_Push
  | Rc_Unlock

text \<open>Where the sender is: \<open>Sn_Test\<close> to \<open>Sn_Count\<close> are \<^verbatim>\<open>Adapter::send\<close>.\<close>

datatype sender_pc =
    Sn_Off
  | Sn_Check
  | Sn_Lock
  | Sn_Empty
  | Sn_Waiting
  | Sn_Relock
  | Sn_Front
  | Sn_Pop
  | Sn_Unlock
  | Sn_Test
  | Sn_Send
  | Sn_Count
  | Sn_Delete
  | Sn_Lock_Again
  | Sn_Limit
  | Sn_Free_All
  | Sn_Clear
  | Sn_Unlock_Again
  | Sn_Pace

datatype tunnel_owner = Free | Receiver_Owns | Sender_Owns

text \<open>
  \<open>rc_len\<close>, \<open>rc_packet\<close>, \<open>sn_packet\<close> and \<open>sn_start\<close> are the threads' local values. What follows
  \<open>sn_slept\<close> only records what happened: the packets the receiver queued, those the sender
  took, and those it passed to the socket; how many packets were discarded for overflow;
  how many were allocated and freed; the results of the receives.
\<close>

record tunnel =
  tn_queue :: "u8 list list"
  tn_lock :: tunnel_owner
  tn_terminate :: bool
  tn_bandwidth :: int
  tn_max_queue_size :: int
  rc_pc :: receiver_pc
  rc_len :: int
  rc_packet :: "u8 list"
  sn_pc :: sender_pc
  sn_packet :: "u8 list"
  sn_start :: "int \<times> int"
  sn_slept :: u32
  queued :: "u8 list list"
  taken :: "u8 list list"
  wire :: "u8 list list"
  discarded :: nat
  allocated :: nat
  deleted :: nat
  results :: "int list"

definition tunnel_new :: "int \<Rightarrow> tunnel" where
  "tunnel_new bandwidth = \<lparr>tn_queue = [], tn_lock = Free, tn_terminate = False, tn_bandwidth = bandwidth,
     tn_max_queue_size = 0, rc_pc = Rc_Off, rc_len = 0, rc_packet = [], sn_pc = Sn_Off, sn_packet = [],
     sn_start = (0, 0), sn_slept = 0, queued = [], taken = [], wire = [], discarded = 0, allocated = 0,
     deleted = 0, results = []\<rparr>"

definition set_max_queue_size :: "int \<Rightarrow> tunnel \<Rightarrow> tunnel" where
  "set_max_queue_size n t = t\<lparr>tn_max_queue_size := n\<rparr>"

text \<open>The receiver is created first; without it the sender is not created.\<close>

definition tunnel_start :: "('a, 'o) os \<Rightarrow> nat \<Rightarrow> tunnel \<Rightarrow> 'o \<Rightarrow> int \<times> tunnel \<times> 'o" where
  "tunnel_start os k t s =
     (let (created, s1) = thrd_create os k s
      in if \<not> created then (-1, t, s1)
         else let t1 = t\<lparr>rc_pc := Rc_Check\<rparr>;
                  (created', s2) = thrd_create os (k + 1) s1
              in if \<not> created' then (-1, t1, s2) else (0, t1\<lparr>sn_pc := Sn_Check\<rparr>, s2))"

subsection \<open>The receiver\<close>

text \<open>A thread that cannot go on stays where it is.\<close>

fun tcp_connect_at ::
  "('a, 'o) os \<Rightarrow> receiver_pc \<Rightarrow> tcp_adapter \<Rightarrow> tunnel \<Rightarrow> 'o \<Rightarrow> tcp_adapter \<times> tunnel \<times> 'o" where
  "tcp_connect_at os Rc_Socket a t s =
     (let (fd, s1) = socket_stream os s
      in (a\<lparr>ad_fd := fd\<rparr>, t\<lparr>rc_pc := (if fd < 0 then Rc_Failed else Rc_Option)\<rparr>, s1))"
| "tcp_connect_at os Rc_Option a t s =
     (let (done, s1) = set_reuseaddr os (ad_fd a) s
      in (a, t\<lparr>rc_pc := (if done then Rc_Address else Rc_Failed)\<rparr>, s1))"
| "tcp_connect_at os Rc_Address a t s = (a, t\<lparr>rc_pc := (if inet_pton os (ad_ip a) then Rc_Connect else Rc_Failed)\<rparr>, s)"
| "tcp_connect_at os Rc_Connect a t s =
     (let (done, s1) = os_connect os (ad_fd a) (ad_ip a) (ad_port a) s
      in (a, t\<lparr>rc_pc := (if done then Rc_Test else Rc_Failed)\<rparr>, s1))"
| "tcp_connect_at os Rc_Failed a t s = (a\<lparr>ad_fd := -1\<rparr>, t\<lparr>rc_pc := Rc_Test\<rparr>, s)"
| "tcp_connect_at os _ a t s = (a, t, s)"

fun tcp_do_recv_at ::
  "('a, 'o) os \<Rightarrow> receiver_pc \<Rightarrow> tcp_adapter \<Rightarrow> tunnel \<Rightarrow> 'o \<Rightarrow> tcp_adapter \<times> tunnel \<times> 'o" where
  "tcp_do_recv_at os Rc_Receive a t s =
     (let (r, s1) = os_recv os (ad_fd a) 1024 s
      in (a, (case r of
                None \<Rightarrow> t\<lparr>rc_len := -1, rc_pc := Rc_Count\<rparr>
              | Some bs \<Rightarrow> t\<lparr>rc_len := int (length bs), rc_packet := bs,
                             rc_pc := (if bs = [] then Rc_Close else Rc_Count)\<rparr>), s1))"
| "tcp_do_recv_at os Rc_Close a t s = (a, t\<lparr>rc_pc := Rc_Clear\<rparr>, os_close os (ad_fd a) s)"
| "tcp_do_recv_at os Rc_Clear a t s = (a\<lparr>ad_fd := -1\<rparr>, t\<lparr>rc_pc := Rc_Count\<rparr>, s)"
| "tcp_do_recv_at os _ a t s = (a, t, s)"

fun adapter_recv_at ::
  "('a, 'o) os \<Rightarrow> receiver_pc \<Rightarrow> tcp_adapter \<Rightarrow> tunnel \<Rightarrow> 'o \<Rightarrow> tcp_adapter \<times> tunnel \<times> 'o" where
  "adapter_recv_at os Rc_Test a t s = (a, t\<lparr>rc_pc := (if adapter_is_connected a then Rc_Receive else Rc_Socket)\<rparr>, s)"
| "adapter_recv_at os Rc_Receive a t s = tcp_do_recv_at os Rc_Receive a t s"
| "adapter_recv_at os Rc_Close a t s = tcp_do_recv_at os Rc_Close a t s"
| "adapter_recv_at os Rc_Clear a t s = tcp_do_recv_at os Rc_Clear a t s"
| "adapter_recv_at os Rc_Count a t s =
     (count_received (rc_len t) a,
      t\<lparr>rc_pc := (if 0 < rc_len t then Rc_Lock else Rc_Check), results := results t @ [rc_len t]\<rparr>, s)"
| "adapter_recv_at os pc a t s = tcp_connect_at os pc a t s"

fun receiver_at ::
  "('a, 'o) os \<Rightarrow> receiver_pc \<Rightarrow> tcp_adapter \<Rightarrow> tunnel \<Rightarrow> 'o \<Rightarrow> tcp_adapter \<times> tunnel \<times> 'o" where
  "receiver_at os Rc_Off a t s = (a, t, s)"
| "receiver_at os Rc_Check a t s =
     (if tn_terminate t then (a, t\<lparr>rc_pc := Rc_Off\<rparr>, s)
      else (a, t\<lparr>allocated := allocated t + 1, rc_pc := Rc_Test\<rparr>, s))"
| "receiver_at os Rc_Lock a t s = (a, if tn_lock t = Free then t\<lparr>tn_lock := Receiver_Owns, rc_pc := Rc_Push\<rparr> else t, s)"
| "receiver_at os Rc_Push a t s =
     (a, t\<lparr>tn_queue := tn_queue t @ [rc_packet t], queued := queued t @ [rc_packet t], rc_pc := Rc_Unlock\<rparr>, s)"
| "receiver_at os Rc_Unlock a t s = (a, t\<lparr>tn_lock := Free, rc_pc := Rc_Check\<rparr>, s)"
| "receiver_at os pc a t s = adapter_recv_at os pc a t s"

definition receiver_step ::
  "('a, 'o) os \<Rightarrow> tcp_adapter \<Rightarrow> tunnel \<Rightarrow> 'o \<Rightarrow> tcp_adapter \<times> tunnel \<times> 'o" where
  "receiver_step os a t s = receiver_at os (rc_pc t) a t s"

subsection \<open>The sender\<close>

text \<open>
  Clock readings are seconds and nanoseconds. The difference is signed; it becomes unsigned
  for the comparison with the time the packet should take, and the argument of \<^verbatim>\<open>usleep\<close>,
  a \<^verbatim>\<open>useconds_t\<close>, keeps the low 32 bits of what is left.
\<close>

definition elapsed_us :: "int \<times> int \<Rightarrow> int \<times> int \<Rightarrow> int" where
  "elapsed_us tstart tend = (fst tend - fst tstart) * 1000000 + (snd tend - snd tstart) sdiv 1000"

definition rate_us :: "nat \<Rightarrow> int \<Rightarrow> u64" where
  "rate_us packet_size bandwidth = (of_nat packet_size * 1000000) div word_of_int bandwidth"

definition pace_us :: "int \<Rightarrow> nat \<Rightarrow> int \<Rightarrow> u32" where
  "pace_us elapsed packet_size bandwidth =
     (if bandwidth \<le> 0 then 0
      else if (word_of_int elapsed :: u64) < rate_us packet_size bandwidth
      then ucast (rate_us packet_size bandwidth - word_of_int elapsed)
      else 0)"

text \<open>The sender does not look at the result of a send.\<close>

definition tcp_do_send :: "('a, 'o) os \<Rightarrow> tcp_adapter \<Rightarrow> u8 list \<Rightarrow> 'o \<Rightarrow> int \<times> 'o" where
  "tcp_do_send os a data s = (let (len, s1) = os_send os (ad_fd a) data s in (if len < 0 then -1 else len, s1))"

fun adapter_send_at ::
  "('a, 'o) os \<Rightarrow> sender_pc \<Rightarrow> tcp_adapter \<Rightarrow> tunnel \<Rightarrow> 'o \<Rightarrow> tcp_adapter \<times> tunnel \<times> 'o" where
  "adapter_send_at os Sn_Test a t s = (a, t\<lparr>sn_pc := (if adapter_is_connected a then Sn_Send else Sn_Delete)\<rparr>, s)"
| "adapter_send_at os Sn_Send a t s =
     (a, t\<lparr>wire := wire t @ [sn_packet t], sn_pc := Sn_Count\<rparr>, snd (tcp_do_send os a (sn_packet t) s))"
| "adapter_send_at os Sn_Count a t s = (count_sent (length (sn_packet t)) a, t\<lparr>sn_pc := Sn_Delete\<rparr>, s)"
| "adapter_send_at os _ a t s = (a, t, s)"

text \<open>\<open>now\<close> is the clock at the time of the step.\<close>

fun sender_at ::
  "('a, 'o) os \<Rightarrow> int \<times> int \<Rightarrow> sender_pc \<Rightarrow> tcp_adapter \<Rightarrow> tunnel \<Rightarrow> 'o \<Rightarrow> tcp_adapter \<times> tunnel \<times> 'o" where
  "sender_at os now Sn_Off a t s = (a, t, s)"
| "sender_at os now Sn_Check a t s = (a, if tn_terminate t then t\<lparr>sn_pc := Sn_Off\<rparr> else t\<lparr>sn_start := now, sn_pc := Sn_Lock\<rparr>, s)"
| "sender_at os now Sn_Lock a t s = (a, if tn_lock t = Free then t\<lparr>tn_lock := Sender_Owns, sn_pc := Sn_Empty\<rparr> else t, s)"
| "sender_at os now Sn_Empty a t s =
     (a, if tn_queue t = [] then t\<lparr>tn_lock := Free, sn_pc := Sn_Waiting\<rparr> else t\<lparr>sn_pc := Sn_Front\<rparr>, s)"
| "sender_at os now Sn_Waiting a t s = (a, t\<lparr>sn_pc := Sn_Relock\<rparr>, s)"
| "sender_at os now Sn_Relock a t s = (a, if tn_lock t = Free then t\<lparr>tn_lock := Sender_Owns, sn_pc := Sn_Empty\<rparr> else t, s)"
| "sender_at os now Sn_Front a t s = (a, t\<lparr>sn_packet := hd (tn_queue t), sn_pc := Sn_Pop\<rparr>, s)"
| "sender_at os now Sn_Pop a t s = (a, t\<lparr>tn_queue := tl (tn_queue t), taken := taken t @ [sn_packet t], sn_pc := Sn_Unlock\<rparr>, s)"
| "sender_at os now Sn_Unlock a t s = (a, t\<lparr>tn_lock := Free, sn_pc := Sn_Test\<rparr>, s)"
| "sender_at os now Sn_Test a t s = adapter_send_at os Sn_Test a t s"
| "sender_at os now Sn_Send a t s = adapter_send_at os Sn_Send a t s"
| "sender_at os now Sn_Count a t s = adapter_send_at os Sn_Count a t s"
| "sender_at os now Sn_Delete a t s = (a, t\<lparr>deleted := deleted t + 1, sn_pc := Sn_Lock_Again\<rparr>, s)"
| "sender_at os now Sn_Lock_Again a t s = (a, if tn_lock t = Free then t\<lparr>tn_lock := Sender_Owns, sn_pc := Sn_Limit\<rparr> else t, s)"
| "sender_at os now Sn_Limit a t s =
     (a, t\<lparr>sn_pc := (if 0 < tn_max_queue_size t \<and> tn_max_queue_size t < int (length (tn_queue t))
                    then Sn_Free_All else Sn_Unlock_Again)\<rparr>, s)"
| "sender_at os now Sn_Free_All a t s =
     (a, t\<lparr>deleted := deleted t + length (tn_queue t), discarded := discarded t + length (tn_queue t),
           sn_pc := Sn_Clear\<rparr>, s)"
| "sender_at os now Sn_Clear a t s = (a, t\<lparr>tn_queue := [], sn_pc := Sn_Unlock_Again\<rparr>, s)"
| "sender_at os now Sn_Unlock_Again a t s = (a, t\<lparr>tn_lock := Free, sn_pc := Sn_Pace\<rparr>, s)"
| "sender_at os now Sn_Pace a t s =
     (a, t\<lparr>sn_slept := pace_us (elapsed_us (sn_start t) now) (length (sn_packet t)) (tn_bandwidth t),
           sn_pc := Sn_Check\<rparr>, s)"

definition sender_step ::
  "('a, 'o) os \<Rightarrow> int \<times> int \<Rightarrow> tcp_adapter \<Rightarrow> tunnel \<Rightarrow> 'o \<Rightarrow> tcp_adapter \<times> tunnel \<times> 'o" where
  "sender_step os now a t s = sender_at os now (sn_pc t) a t s"

section \<open>The bridge\<close>

record tunnel_metrics_t =
  queue_size :: nat

record bridge_metrics_t =
  up_adp :: adapter_metrics_t
  down_adp :: adapter_metrics_t
  up_tun :: tunnel_metrics_t
  down_tun :: tunnel_metrics_t

record 'o bridge =
  up_adapt :: tcp_adapter
  down_adapt :: tcp_adapter
  uplink :: tunnel
  downlink :: tunnel
  bridge_metrics :: bridge_metrics_t
  printed :: "u64 list list"
  bsys :: 'o

definition tunnel_get_metrics :: "tunnel \<Rightarrow> tunnel_metrics_t" where
  "tunnel_get_metrics t = \<lparr>queue_size = length (tn_queue t)\<rparr>"

definition zero_bridge_metrics :: bridge_metrics_t where
  "zero_bridge_metrics =
     (let z = \<lparr>bytes_sent = 0, bytes_received = 0, packets_sent = 0, packets_received = 0\<rparr>
      in \<lparr>up_adp = z, down_adp = z, up_tun = \<lparr>queue_size = 0\<rparr>, down_tun = \<lparr>queue_size = 0\<rparr>\<rparr>)"

text \<open>Only the uplink is paced.\<close>

definition bridge_new :: "tcp_adapter \<Rightarrow> tcp_adapter \<Rightarrow> int \<Rightarrow> 'o \<Rightarrow> 'o bridge" where
  "bridge_new up down bandwidth s = \<lparr>up_adapt = up, down_adapt = down, uplink = tunnel_new bandwidth,
     downlink = tunnel_new 0, bridge_metrics = zero_bridge_metrics, printed = [], bsys = s\<rparr>"

definition tcp_bridge_new :: "string \<Rightarrow> int \<Rightarrow> string \<Rightarrow> int \<Rightarrow> int \<Rightarrow> 'o \<Rightarrow> 'o bridge" where
  "tcp_bridge_new up_ip up_port down_ip down_port bandwidth s =
     bridge_new (tcp_adapter_new up_ip up_port) (tcp_adapter_new down_ip down_port) bandwidth s"

text \<open>The results of starting the tunnels are not looked at.\<close>

definition bridge_start :: "('a, 'o) os \<Rightarrow> 'o bridge \<Rightarrow> 'o bridge" where
  "bridge_start os b =
     (let (_, t, s) = tunnel_start os 0 (uplink b) (bsys b);
          (_, t', s') = tunnel_start os 2 (downlink b) s
      in b\<lparr>uplink := t, downlink := t', bsys := s'\<rparr>)"

text \<open>One turn of the monitor: the line it prints is what has changed since the last.\<close>

definition bridge_monitor :: "'o bridge \<Rightarrow> 'o bridge" where
  "bridge_monitor b =
     (let up = adapter_get_metrics (up_adapt b); down = adapter_get_metrics (down_adapt b);
          upt = tunnel_get_metrics (uplink b); downt = tunnel_get_metrics (downlink b);
          m = bridge_metrics b
      in b\<lparr>printed := printed b @ [[
             packets_received up - packets_received (up_adp m),
             bytes_received up - bytes_received (up_adp m),
             packets_sent down - packets_sent (down_adp m),
             bytes_sent down - bytes_sent (down_adp m),
             of_nat (queue_size upt),
             packets_sent up - packets_sent (up_adp m),
             bytes_sent up - bytes_sent (up_adp m),
             packets_received down - packets_received (down_adp m),
             bytes_received down - bytes_received (down_adp m),
             of_nat (queue_size downt)]],
           bridge_metrics := \<lparr>up_adp = up, down_adp = down, up_tun = upt, down_tun = downt\<rparr>\<rparr>)"

text \<open>\<^verbatim>\<open>atoi\<close>: white space, a sign, digits.\<close>

fun digits_value :: "int \<Rightarrow> string \<Rightarrow> int" where
  "digits_value v [] = v"
| "digits_value v (c # cs) =
     (if 48 \<le> (of_char c :: nat) \<and> (of_char c :: nat) \<le> 57
      then digits_value (10 * v + (of_char c - 48)) cs else v)"

definition is_space :: "char \<Rightarrow> bool" where
  "is_space c \<longleftrightarrow> of_char c \<in> {9 :: nat, 10, 11, 12, 13, 32}"

definition atoi :: "string \<Rightarrow> int" where
  "atoi cs =
     (case dropWhile is_space cs of
        [] \<Rightarrow> 0
      | c # ds \<Rightarrow> if c = CHR ''-'' then - digits_value 0 ds
                  else if c = CHR ''+'' then digits_value 0 ds
                  else digits_value 0 (c # ds))"

text \<open>The program up to its monitor loop; \<open>argv\<close> has the program's name first.\<close>

definition bridge_main :: "('a, 'o) os \<Rightarrow> string list \<Rightarrow> 'o \<Rightarrow> 'o bridge" where
  "bridge_main os argv s =
     (let b = (if length argv \<noteq> 6 then tcp_bridge_new ''127.0.0.1'' 5762 ''127.0.0.1'' 20501 4000 s
               else tcp_bridge_new (argv ! 1) (atoi (argv ! 2)) (argv ! 3) (atoi (argv ! 4)) (atoi (argv ! 5)) s)
      in bridge_start os (b\<lparr>uplink := set_max_queue_size 1000000 (uplink b)\<rparr>))"

text \<open>Any interleaving of the four threads and the monitor.\<close>

inductive bridge_step :: "('a, 'o) os \<Rightarrow> 'o bridge \<Rightarrow> 'o bridge \<Rightarrow> bool" for os where
  Up_Receiver: "receiver_step os (up_adapt b) (uplink b) (bsys b) = (a, t, s) \<Longrightarrow>
     bridge_step os b (b\<lparr>up_adapt := a, uplink := t, bsys := s\<rparr>)"
| Up_Sender: "sender_step os now (down_adapt b) (uplink b) (bsys b) = (a, t, s) \<Longrightarrow>
     bridge_step os b (b\<lparr>down_adapt := a, uplink := t, bsys := s\<rparr>)"
| Down_Receiver: "receiver_step os (down_adapt b) (downlink b) (bsys b) = (a, t, s) \<Longrightarrow>
     bridge_step os b (b\<lparr>down_adapt := a, downlink := t, bsys := s\<rparr>)"
| Down_Sender: "sender_step os now (up_adapt b) (downlink b) (bsys b) = (a, t, s) \<Longrightarrow>
     bridge_step os b (b\<lparr>up_adapt := a, downlink := t, bsys := s\<rparr>)"
| Monitor: "bridge_step os b (bridge_monitor b)"

inductive bridge_reachable :: "('a, 'o) os \<Rightarrow> 'o bridge \<Rightarrow> bool" for os where
  Start: "bridge_reachable os (bridge_main os argv s)"
| Step: "bridge_reachable os b \<Longrightarrow> bridge_step os b b' \<Longrightarrow> bridge_reachable os b'"

section \<open>Invariants of a tunnel\<close>

definition receiver_has_lock :: "receiver_pc \<Rightarrow> bool" where
  "receiver_has_lock pc \<longleftrightarrow> pc \<in> {Rc_Push, Rc_Unlock}"

definition sender_has_lock :: "sender_pc \<Rightarrow> bool" where
  "sender_has_lock pc \<longleftrightarrow> pc \<in> {Sn_Empty, Sn_Front, Sn_Pop, Sn_Unlock, Sn_Limit, Sn_Free_All, Sn_Clear, Sn_Unlock_Again}"

definition tunnel_lock :: "tunnel \<Rightarrow> bool" where
  "tunnel_lock t \<longleftrightarrow> (tn_lock t = Receiver_Owns \<longleftrightarrow> receiver_has_lock (rc_pc t))
     \<and> (tn_lock t = Sender_Owns \<longleftrightarrow> sender_has_lock (sn_pc t))"

text \<open>The queue, while its packets are freed but not yet removed.\<close>

definition live_queue :: "tunnel \<Rightarrow> u8 list list" where
  "live_queue t = (if sn_pc t = Sn_Clear then [] else tn_queue t)"

definition tunnel_stream :: "tunnel \<Rightarrow> bool" where
  "tunnel_stream t \<longleftrightarrow> subseq (taken t @ live_queue t) (queued t)
     \<and> length (queued t) = length (taken t) + length (live_queue t) + discarded t
     \<and> (sn_pc t \<in> {Sn_Front, Sn_Pop} \<longrightarrow> tn_queue t \<noteq> [])
     \<and> (sn_pc t = Sn_Pop \<longrightarrow> sn_packet t = hd (tn_queue t))
     \<and> (discarded t \<noteq> 0 \<or> sn_pc t \<in> {Sn_Free_All, Sn_Clear} \<longrightarrow> 0 < tn_max_queue_size t)"

text \<open>The sender's packet is the last one taken until it is dealt with.\<close>

definition tunnel_wire :: "tunnel \<Rightarrow> bool" where
  "tunnel_wire t \<longleftrightarrow>
     (if sn_pc t \<in> {Sn_Unlock, Sn_Test, Sn_Send}
      then \<exists>before. taken t = before @ [sn_packet t] \<and> subseq (wire t) before
      else subseq (wire t) (taken t))"

text \<open>A packet is freed once; a receive that gives no bytes loses its packet.\<close>

definition in_receiver :: "receiver_pc \<Rightarrow> nat" where
  "in_receiver pc = (if pc \<in> {Rc_Off, Rc_Check, Rc_Unlock} then 0 else 1)"

definition in_sender :: "sender_pc \<Rightarrow> nat" where
  "in_sender pc = (if pc \<in> {Sn_Unlock, Sn_Test, Sn_Send, Sn_Count, Sn_Delete} then 1 else 0)"

definition failed_receives :: "tunnel \<Rightarrow> nat" where
  "failed_receives t = length (filter (\<lambda>n. n \<le> 0) (results t))"

definition tunnel_memory :: "tunnel \<Rightarrow> bool" where
  "tunnel_memory t \<longleftrightarrow> allocated t
     = deleted t + length (live_queue t) + in_receiver (rc_pc t) + in_sender (sn_pc t) + failed_receives t
     \<and> (rc_pc t = Rc_Lock \<or> rc_pc t = Rc_Push \<longrightarrow> 0 < rc_len t)"

definition tunnel_inv :: "tunnel \<Rightarrow> bool" where
  "tunnel_inv t \<longleftrightarrow> tunnel_lock t \<and> tunnel_stream t \<and> tunnel_wire t \<and> tunnel_memory t"

lemmas tunnel_defs = tunnel_inv_def tunnel_lock_def tunnel_stream_def tunnel_wire_def tunnel_memory_def
  receiver_has_lock_def sender_has_lock_def live_queue_def in_receiver_def in_sender_def failed_receives_def

lemma tunnel_new_inv [simp]: "tunnel_inv (tunnel_new bw)"
  by (simp add: tunnel_defs tunnel_new_def)

lemma set_max_queue_size_inv: "discarded t = 0 \<Longrightarrow> sn_pc t = Sn_Off \<Longrightarrow> tunnel_inv t \<Longrightarrow> tunnel_inv (set_max_queue_size n t)"
  by (simp add: tunnel_defs set_max_queue_size_def)

text \<open>Starting a thread that is off.\<close>

lemma receiver_on:
  assumes "tunnel_inv t" "rc_pc t = Rc_Off" shows "tunnel_inv (t\<lparr>rc_pc := Rc_Check\<rparr>)"
proof -
  let ?t = "t\<lparr>rc_pc := Rc_Check\<rparr>"
  have "tunnel_lock ?t" using assms by (simp add: tunnel_inv_def tunnel_lock_def receiver_has_lock_def)
  moreover have "tunnel_stream ?t = tunnel_stream t" by (simp add: tunnel_stream_def live_queue_def)
  moreover have "tunnel_wire ?t = tunnel_wire t" by (simp add: tunnel_wire_def)
  moreover have "tunnel_memory ?t"
    using assms by (simp add: tunnel_inv_def tunnel_memory_def live_queue_def in_receiver_def failed_receives_def)
  ultimately show ?thesis using assms(1) by (simp add: tunnel_inv_def)
qed

lemma sender_on: "tunnel_inv t \<Longrightarrow> sn_pc t = Sn_Off \<Longrightarrow> tunnel_inv (t\<lparr>sn_pc := Sn_Check\<rparr>)"
  unfolding tunnel_defs by simp

lemma tunnel_start_inv:
  assumes "tunnel_start os k t s = (rv, t', s')" "rc_pc t = Rc_Off" "sn_pc t = Sn_Off" "tunnel_inv t"
  shows "tunnel_inv t'"
proof -
  obtain c1 s1 where 1: "thrd_create os k s = (c1, s1)" by (rule prod.exhaust)
  obtain c2 s2 where 2: "thrd_create os (k + 1) s1 = (c2, s2)" by (rule prod.exhaust)
  have "t' = t \<or> t' = t\<lparr>rc_pc := Rc_Check\<rparr> \<or> t' = (t\<lparr>rc_pc := Rc_Check\<rparr>)\<lparr>sn_pc := Sn_Check\<rparr>"
    using assms(1) 1 2 by (simp add: tunnel_start_def Let_def split: if_splits)
  moreover have "tunnel_inv (t\<lparr>rc_pc := Rc_Check\<rparr>)" using receiver_on assms by blast
  moreover from this have "tunnel_inv ((t\<lparr>rc_pc := Rc_Check\<rparr>)\<lparr>sn_pc := Sn_Check\<rparr>)"
    using assms(3) by (intro sender_on) simp_all
  ultimately show ?thesis using assms(4) by blast
qed

lemma receiver_keeps_lock: "receiver_step os a t s = (a', t', s') \<Longrightarrow> tunnel_lock t \<Longrightarrow> tunnel_lock t'"
  by (cases "rc_pc t") (auto simp: receiver_step_def tunnel_lock_def receiver_has_lock_def
      split: prod.splits option.splits if_splits)

lemma sender_keeps_lock: "sender_step os now a t s = (a', t', s') \<Longrightarrow> tunnel_lock t \<Longrightarrow> tunnel_lock t'"
  by (cases "sn_pc t") (auto simp: sender_step_def tunnel_lock_def sender_has_lock_def split: if_splits)

lemma subseq_snoc: "subseq xs ys \<Longrightarrow> subseq (xs @ [x]) (ys @ [x])"
  by simp

lemma subseq_front: "subseq (xs @ ys) zs \<Longrightarrow> subseq xs zs"
  using subseq_order.order_trans [of xs "xs @ ys" zs] by auto

text \<open>What the receiver leaves alone, and what it does to the queue and to the memory.\<close>

lemma receiver_frame:
  "receiver_step os a t s = (a', t', s') \<Longrightarrow>
     sn_pc t' = sn_pc t \<and> sn_packet t' = sn_packet t \<and> taken t' = taken t \<and> wire t' = wire t
     \<and> discarded t' = discarded t \<and> deleted t' = deleted t \<and> tn_max_queue_size t' = tn_max_queue_size t"
  by (cases "rc_pc t") (auto simp: receiver_step_def split: prod.splits option.splits if_splits)

lemma receiver_queues:
  "receiver_step os a t s = (a', t', s') \<Longrightarrow>
     (if rc_pc t = Rc_Push then tn_queue t' = tn_queue t @ [rc_packet t] \<and> queued t' = queued t @ [rc_packet t]
      else tn_queue t' = tn_queue t \<and> queued t' = queued t)"
  by (cases "rc_pc t") (auto simp: receiver_step_def split: prod.splits option.splits if_splits)

lemma receiver_allocates:
  "receiver_step os a t s = (a', t', s') \<Longrightarrow> rc_pc t = Rc_Lock \<or> rc_pc t = Rc_Push \<longrightarrow> 0 < rc_len t \<Longrightarrow>
     allocated t' + in_receiver (rc_pc t) + failed_receives t + length (tn_queue t)
       = allocated t + in_receiver (rc_pc t') + failed_receives t' + length (tn_queue t')
     \<and> (rc_pc t' = Rc_Lock \<or> rc_pc t' = Rc_Push \<longrightarrow> 0 < rc_len t')"
  by (cases "rc_pc t") (auto simp: receiver_step_def in_receiver_def failed_receives_def
      split: prod.splits option.splits if_splits)

lemma push_excludes_sender: "tunnel_lock t \<Longrightarrow> rc_pc t = Rc_Push \<Longrightarrow> \<not> sender_has_lock (sn_pc t)"
  by (auto simp: tunnel_lock_def receiver_has_lock_def)

lemma receiver_live_queue:
  assumes "receiver_step os a t s = (a', t', s')" "tunnel_lock t"
  shows "live_queue t' = (if rc_pc t = Rc_Push then live_queue t @ [rc_packet t] else live_queue t)"
  using receiver_frame [OF assms(1)] receiver_queues [OF assms(1)] push_excludes_sender [OF assms(2)]
  by (auto simp: live_queue_def sender_has_lock_def)

lemma receiver_keeps_stream:
  assumes "receiver_step os a t s = (a', t', s')" "tunnel_lock t" "tunnel_stream t"
  shows "tunnel_stream t'"
proof (cases "rc_pc t = Rc_Push")
  case True
  then have "sn_pc t \<notin> {Sn_Front, Sn_Pop, Sn_Free_All}"
    using push_excludes_sender [OF assms(2)] by (auto simp: sender_has_lock_def)
  with True assms(3) show ?thesis
    using receiver_frame [OF assms(1)] receiver_queues [OF assms(1)] receiver_live_queue [OF assms(1,2)]
      subseq_snoc [of "taken t @ live_queue t" "queued t" "rc_packet t"]
    by (simp add: tunnel_stream_def)
next
  case False
  with assms(3) show ?thesis
    using receiver_frame [OF assms(1)] receiver_queues [OF assms(1)] receiver_live_queue [OF assms(1,2)]
    by (simp add: tunnel_stream_def)
qed

lemma receiver_keeps_wire: "receiver_step os a t s = (a', t', s') \<Longrightarrow> tunnel_wire t \<Longrightarrow> tunnel_wire t'"
  using receiver_frame [of os a t s a' t' s'] by (simp add: tunnel_wire_def)

lemma receiver_keeps_memory:
  assumes "receiver_step os a t s = (a', t', s')" "tunnel_lock t" "tunnel_memory t"
  shows "tunnel_memory t'"
  using receiver_frame [OF assms(1)] receiver_queues [OF assms(1)] receiver_live_queue [OF assms(1,2)]
    receiver_allocates [OF assms(1)] assms(3)
  by (simp add: tunnel_memory_def split: if_splits)

lemma sender_keeps_stream: "sender_step os now a t s = (a', t', s') \<Longrightarrow> tunnel_stream t \<Longrightarrow> tunnel_stream t'"
  by (cases "sn_pc t") (auto simp: sender_step_def tunnel_stream_def live_queue_def dest: subseq_front split: if_splits)

lemma sender_keeps_wire: "sender_step os now a t s = (a', t', s') \<Longrightarrow> tunnel_wire t \<Longrightarrow> tunnel_wire t'"
  by (cases "sn_pc t") (auto simp: sender_step_def tunnel_wire_def split: if_splits)

lemma sender_frame:
  "sender_step os now a t s = (a', t', s') \<Longrightarrow> rc_pc t' = rc_pc t \<and> rc_len t' = rc_len t \<and> results t' = results t
     \<and> queued t' = queued t \<and> allocated t' = allocated t \<and> tn_max_queue_size t' = tn_max_queue_size t"
  by (cases "sn_pc t") (auto simp: sender_step_def split: if_splits)

lemma sender_frees:
  "sender_step os now a t s = (a', t', s') \<Longrightarrow> sn_pc t = Sn_Pop \<longrightarrow> tn_queue t \<noteq> [] \<Longrightarrow>
     deleted t' + length (live_queue t') + in_sender (sn_pc t') = deleted t + length (live_queue t) + in_sender (sn_pc t)"
  by (cases "sn_pc t") (auto simp: sender_step_def live_queue_def in_sender_def split: if_splits)

lemma sender_keeps_memory:
  "sender_step os now a t s = (a', t', s') \<Longrightarrow> tunnel_stream t \<Longrightarrow> tunnel_memory t \<Longrightarrow> tunnel_memory t'"
  using sender_frame [of os now a t s a' t' s'] sender_frees [of os now a t s a' t' s']
  by (simp add: tunnel_memory_def failed_receives_def tunnel_stream_def)

lemma receiver_keeps_inv: "receiver_step os a t s = (a', t', s') \<Longrightarrow> tunnel_inv t \<Longrightarrow> tunnel_inv t'"
  unfolding tunnel_inv_def
  by (blast intro: receiver_keeps_lock receiver_keeps_stream receiver_keeps_wire receiver_keeps_memory)

lemma sender_keeps_inv: "sender_step os now a t s = (a', t', s') \<Longrightarrow> tunnel_inv t \<Longrightarrow> tunnel_inv t'"
  unfolding tunnel_inv_def
  by (blast intro: sender_keeps_lock sender_keeps_stream sender_keeps_wire sender_keeps_memory)

end
