(* ===== verification/Bridge_Threads.thy ===== *)
theory Bridge_Threads
  imports Tcp_Bridge
begin

text \<open>
  The whole bridge of \<^verbatim>\<open>tools/tcp_bridge.cc\<close>: the invariants of the two tunnels and the
  accounting of the two adapters hold in every interleaving of the four threads and the
  monitor.
\<close>

section \<open>The accounting of an adapter\<close>

text \<open>
  An adapter is read by one tunnel's receiver and written by the other tunnel's sender. A
  failing receive counts as a packet of -1 bytes; a send counts whatever the socket took.
\<close>

definition received_counted :: "tcp_adapter \<Rightarrow> tunnel \<Rightarrow> bool" where
  "received_counted a t \<longleftrightarrow> packets_received (ad_metrics a) = of_nat (length (results t))
     \<and> bytes_received (ad_metrics a) = word_of_int (sum_list (results t))"

definition sent_counted :: "tcp_adapter \<Rightarrow> tunnel \<Rightarrow> bool" where
  "sent_counted a t \<longleftrightarrow>
     packets_sent (ad_metrics a) + (if sn_pc t = Sn_Count then 1 else 0) = of_nat (length (wire t))
     \<and> bytes_sent (ad_metrics a) + (if sn_pc t = Sn_Count then of_nat (length (sn_packet t)) else 0)
       = of_nat (length (concat (wire t)))"

lemma receiver_counts:
  "receiver_step os a t s = (a', t', s') \<Longrightarrow> received_counted a t \<Longrightarrow> received_counted a' t'"
  by (cases "rc_pc t") (auto simp: receiver_step_def received_counted_def count_received_def
      split: prod.splits option.splits if_splits)

lemma receiver_sent_same:
  "receiver_step os a t s = (a', t', s') \<Longrightarrow> packets_sent (ad_metrics a') = packets_sent (ad_metrics a)
     \<and> bytes_sent (ad_metrics a') = bytes_sent (ad_metrics a)"
  by (cases "rc_pc t") (auto simp: receiver_step_def count_received_def split: prod.splits option.splits if_splits)

lemma sender_counts:
  "sender_step os now a t s = (a', t', s') \<Longrightarrow> sent_counted a t \<Longrightarrow> sent_counted a' t'"
  by (cases "sn_pc t") (auto simp: sender_step_def sent_counted_def count_sent_def algebra_simps split: if_splits)

lemma sender_received_same:
  "sender_step os now a t s = (a', t', s') \<Longrightarrow> packets_received (ad_metrics a') = packets_received (ad_metrics a)
     \<and> bytes_received (ad_metrics a') = bytes_received (ad_metrics a)"
  by (cases "sn_pc t") (auto simp: sender_step_def count_sent_def split: if_splits)

lemma receiver_keeps_sent:
  "receiver_step os a t s = (a', t', s') \<Longrightarrow> sent_counted c u \<Longrightarrow> (c = a \<longrightarrow> sent_counted a' u)"
  using receiver_sent_same [of os a t s a' t' s'] by (auto simp: sent_counted_def)

lemma receiver_keeps_own_sent:
  "receiver_step os a t s = (a', t', s') \<Longrightarrow> sent_counted c t \<Longrightarrow> sent_counted c t'"
  using receiver_frame [of os a t s a' t' s'] by (simp add: sent_counted_def split: if_splits)

lemma sender_keeps_received:
  "sender_step os now a t s = (a', t', s') \<Longrightarrow> received_counted a u \<Longrightarrow> received_counted a' u"
  using sender_received_same [of os now a t s a' t' s'] by (simp add: received_counted_def)

lemma sender_keeps_own_received:
  "sender_step os now a t s = (a', t', s') \<Longrightarrow> received_counted c t \<Longrightarrow> received_counted c t'"
  using sender_frame [of os now a t s a' t' s'] by (simp add: received_counted_def)

section \<open>The bridge\<close>

definition bridge_inv :: "'o bridge \<Rightarrow> bool" where
  "bridge_inv b \<longleftrightarrow> tunnel_inv (uplink b) \<and> tunnel_inv (downlink b) \<and> tn_max_queue_size (downlink b) = 0
     \<and> received_counted (up_adapt b) (uplink b) \<and> received_counted (down_adapt b) (downlink b)
     \<and> sent_counted (down_adapt b) (uplink b) \<and> sent_counted (up_adapt b) (downlink b)"

lemma tunnel_start_frame:
  "tunnel_start os k t s = (rv, t', s') \<Longrightarrow> sn_pc t = Sn_Off \<Longrightarrow> tn_max_queue_size t' = tn_max_queue_size t
     \<and> received_counted a t' = received_counted a t \<and> sent_counted a t' = sent_counted a t"
  by (auto simp: tunnel_start_def Let_def received_counted_def sent_counted_def split: prod.splits if_splits)

lemma bridge_start_inv:
  assumes "bridge_inv b" "rc_pc (uplink b) = Rc_Off" "sn_pc (uplink b) = Sn_Off" "rc_pc (downlink b) = Rc_Off"
    "sn_pc (downlink b) = Sn_Off"
  shows "bridge_inv (bridge_start os b)"
proof -
  obtain rv t s where 1: "tunnel_start os 0 (uplink b) (bsys b) = (rv, t, s)" by (metis prod_cases3)
  obtain rv' t' s' where 2: "tunnel_start os 2 (downlink b) s = (rv', t', s')" by (metis prod_cases3)
  show ?thesis
    using assms tunnel_start_inv [OF 1] tunnel_start_inv [OF 2] tunnel_start_frame [OF 1] tunnel_start_frame [OF 2] 1 2
    by (simp add: bridge_inv_def bridge_start_def)
qed

lemma bridge_new_inv [simp]:
  "bridge_inv (tcp_bridge_new ui up di dp bw s)" "discarded (tunnel_new bw) = 0"
  "rc_pc (tunnel_new bw) = Rc_Off" "sn_pc (tunnel_new bw) = Sn_Off"
  by (simp_all add: bridge_inv_def tcp_bridge_new_def bridge_new_def received_counted_def sent_counted_def tcp_adapter_new_def)
     (simp_all add: tunnel_new_def)

lemma limit_uplink_inv:
  assumes "bridge_inv b" "discarded (uplink b) = 0" "sn_pc (uplink b) = Sn_Off"
  shows "bridge_inv (b\<lparr>uplink := set_max_queue_size n (uplink b)\<rparr>)"
  using assms set_max_queue_size_inv [of "uplink b" n]
  by (simp add: bridge_inv_def received_counted_def sent_counted_def set_max_queue_size_def)

lemma bridge_main_inv: "bridge_inv (bridge_main os argv s)"
proof -
  have "bridge_inv (bridge_start os (b\<lparr>uplink := set_max_queue_size 1000000 (uplink b)\<rparr>))"
    if b: "b = tcp_bridge_new ui up di dp bw s" for b ui up di dp bw
  proof -
    have fields: "uplink b = tunnel_new bw" "downlink b = tunnel_new 0" using b by (simp_all add: tcp_bridge_new_def bridge_new_def)
    have "bridge_inv b" using b by simp
    then have "bridge_inv (b\<lparr>uplink := set_max_queue_size 1000000 (uplink b)\<rparr>)"
      by (rule limit_uplink_inv) (simp_all add: fields)
    then show ?thesis
      by (rule bridge_start_inv) (simp_all add: fields set_max_queue_size_def)
  qed
  then show ?thesis by (simp add: bridge_main_def Let_def)
qed

lemma bridge_step_inv:
  assumes "bridge_step os b b'" "bridge_inv b"
  shows "bridge_inv b'"
  using assms(1)
proof cases
  case (Up_Receiver a t s)
  with assms(2) show ?thesis
    using receiver_keeps_inv [OF Up_Receiver(2)] receiver_counts [OF Up_Receiver(2)] receiver_frame [OF Up_Receiver(2)]
      receiver_keeps_sent [OF Up_Receiver(2), of "up_adapt b" "downlink b"] receiver_keeps_own_sent [OF Up_Receiver(2)]
    by (simp add: bridge_inv_def)
next
  case (Up_Sender now a t s)
  with assms(2) show ?thesis
    using sender_keeps_inv [OF Up_Sender(2)] sender_counts [OF Up_Sender(2)] sender_frame [OF Up_Sender(2)]
      sender_keeps_received [OF Up_Sender(2)] sender_keeps_own_received [OF Up_Sender(2)]
    by (simp add: bridge_inv_def)
next
  case (Down_Receiver a t s)
  with assms(2) show ?thesis
    using receiver_keeps_inv [OF Down_Receiver(2)] receiver_counts [OF Down_Receiver(2)] receiver_frame [OF Down_Receiver(2)]
      receiver_keeps_sent [OF Down_Receiver(2), of "down_adapt b" "uplink b"] receiver_keeps_own_sent [OF Down_Receiver(2)]
    by (simp add: bridge_inv_def)
next
  case (Down_Sender now a t s)
  with assms(2) show ?thesis
    using sender_keeps_inv [OF Down_Sender(2)] sender_counts [OF Down_Sender(2)] sender_frame [OF Down_Sender(2)]
      sender_keeps_received [OF Down_Sender(2)] sender_keeps_own_received [OF Down_Sender(2)]
    by (simp add: bridge_inv_def)
next
  case Monitor
  with assms(2) show ?thesis by (simp add: bridge_inv_def bridge_monitor_def adapter_get_metrics_def Let_def)
qed

lemma bridge_reachable_inv: "bridge_reachable os b \<Longrightarrow> bridge_inv b"
  by (induction rule: bridge_reachable.induct) (auto intro: bridge_main_inv bridge_step_inv)

text \<open>What the invariant says of the packets.\<close>

lemma wire_taken: "tunnel_wire t \<Longrightarrow> subseq (wire t) (taken t)"
  by (auto simp: tunnel_wire_def split: if_splits intro: subseq_order.order_trans)

lemma tunnel_facts:
  assumes "tunnel_inv t"
  shows "\<not> (receiver_has_lock (rc_pc t) \<and> sender_has_lock (sn_pc t))
    \<and> subseq (wire t) (queued t) \<and> subseq (taken t @ live_queue t) (queued t)
    \<and> length (queued t) = length (taken t) + length (live_queue t) + discarded t
    \<and> allocated t = deleted t + length (live_queue t) + in_receiver (rc_pc t) + in_sender (sn_pc t) + failed_receives t"
proof -
  have "subseq (wire t) (queued t)"
    using wire_taken [of t] subseq_front [of "taken t" "live_queue t" "queued t"] subseq_order.order_trans assms
    by (auto simp: tunnel_inv_def tunnel_stream_def)
  moreover have "\<not> (receiver_has_lock (rc_pc t) \<and> sender_has_lock (sn_pc t))"
    using assms by (auto simp: tunnel_inv_def tunnel_lock_def)
  ultimately show ?thesis using assms by (simp add: tunnel_inv_def tunnel_stream_def tunnel_memory_def)
qed

lemma unlimited_facts:
  assumes "tunnel_inv t" "tn_max_queue_size t = 0"
  shows "queued t = taken t @ tn_queue t"
proof -
  have s: "tunnel_stream t" using assms(1) by (simp add: tunnel_inv_def)
  with assms(2) have none: "discarded t = 0" by (auto simp: tunnel_stream_def)
  have "sn_pc t \<noteq> Sn_Clear" using s assms(2) by (auto simp: tunnel_stream_def)
  with s none show ?thesis
    using subseq_same_length [of "taken t @ tn_queue t" "queued t"] by (simp add: tunnel_stream_def live_queue_def)
qed

section \<open>The pace\<close>

text \<open>
  The sleep, in integers: what is left of the packet's share of the bandwidth. A clock that
  has run backwards gives a huge unsigned elapsed time, hence no sleep.
\<close>

lemma uint_rate_us:
  assumes "n \<le> 1024" "0 < bandwidth" "bandwidth < 2 ^ 31"
  shows "uint (rate_us n bandwidth) = int n * 1000000 div bandwidth" "uint (rate_us n bandwidth) < 2 ^ 32"
proof -
  have "uint (of_nat n * 1000000 :: u64) = int n * 1000000"
    using assms(1) by (simp add: uint_word_ariths unsigned_of_nat take_bit_eq_mod)
  then show r: "uint (rate_us n bandwidth) = int n * 1000000 div bandwidth"
    using assms by (simp add: rate_us_def uint_div_distrib uint_word_of_int)
  have "int n * 1000000 div bandwidth \<le> int n * 1000000"
    using zdiv_mono2 [of "int n * 1000000" 1 bandwidth] assms(2) by simp
  moreover have "int n * 1000000 < 2 ^ 32" using assms(1) by simp
  ultimately show "uint (rate_us n bandwidth) < 2 ^ 32" using r by simp
qed

lemma uint_elapsed:
  assumes "- (2 ^ 63) \<le> elapsed" "elapsed < 2 ^ 63"
  shows "uint (word_of_int elapsed :: u64) = (if elapsed < 0 then elapsed + 2 ^ 64 else elapsed)"
proof (cases "elapsed < 0")
  case True
  have "elapsed mod 2 ^ 64 = (elapsed + 2 ^ 64) mod 2 ^ 64" by simp
  also have "\<dots> = elapsed + 2 ^ 64" using assms True by (intro mod_pos_pos_trivial) simp_all
  finally show ?thesis using True by (simp add: uint_word_of_int)
next
  case False
  then show ?thesis using assms by (simp add: uint_word_of_int)
qed

lemma uint_pace_us:
  assumes "- (2 ^ 63) \<le> elapsed" "elapsed < 2 ^ 63" "n \<le> 1024" "bandwidth < 2 ^ 31"
  shows "uint (pace_us elapsed n bandwidth) =
    (if 0 < bandwidth \<and> 0 \<le> elapsed then max 0 (int n * 1000000 div bandwidth - elapsed) else 0)"
proof (cases "0 < bandwidth")
  case True
  note r = uint_rate_us [OF assms(3) True assms(4)] and e = uint_elapsed [OF assms(1,2)]
  show ?thesis
  proof (cases "(word_of_int elapsed :: u64) < rate_us n bandwidth")
    case less: True
    then have "elapsed \<ge> 0" using e r(2) assms(1) by (simp add: word_less_def split: if_splits)
    then have d: "uint (rate_us n bandwidth - word_of_int elapsed) = uint (rate_us n bandwidth) - elapsed"
      using less e uint_sub_lem [of "word_of_int elapsed :: u64" "rate_us n bandwidth"] by (simp add: word_less_def)
    have "uint (ucast (rate_us n bandwidth - word_of_int elapsed) :: u32) = uint (rate_us n bandwidth) - elapsed"
      using d r(2) \<open>elapsed \<ge> 0\<close> less e by (simp add: unsigned_ucast_eq take_bit_eq_mod word_less_def)
    then show ?thesis using True less \<open>elapsed \<ge> 0\<close> r(1) e by (simp add: pace_us_def word_less_def)
  next
    case False
    then show ?thesis using True r(1) e by (simp add: pace_us_def word_less_def max_def split: if_splits)
  qed
qed (simp add: pace_us_def)

section \<open>Schedules\<close>

datatype thread_turn = Up_Receives | Up_Sends | Down_Receives | Down_Sends

text \<open>\<open>now\<close> is the clock at the time of the turn.\<close>

fun bridge_turn :: "('a, 'o) os \<Rightarrow> int \<times> int \<Rightarrow> thread_turn \<Rightarrow> 'o bridge \<Rightarrow> 'o bridge" where
  "bridge_turn os now Up_Receives b =
     (let (a, t, s) = receiver_step os (up_adapt b) (uplink b) (bsys b)
      in b\<lparr>up_adapt := a, uplink := t, bsys := s\<rparr>)"
| "bridge_turn os now Up_Sends b =
     (let (a, t, s) = sender_step os now (down_adapt b) (uplink b) (bsys b)
      in b\<lparr>down_adapt := a, uplink := t, bsys := s\<rparr>)"
| "bridge_turn os now Down_Receives b =
     (let (a, t, s) = receiver_step os (down_adapt b) (downlink b) (bsys b)
      in b\<lparr>down_adapt := a, downlink := t, bsys := s\<rparr>)"
| "bridge_turn os now Down_Sends b =
     (let (a, t, s) = sender_step os now (up_adapt b) (downlink b) (bsys b)
      in b\<lparr>up_adapt := a, downlink := t, bsys := s\<rparr>)"

text \<open>With a clock that stands still.\<close>

fun bridge_run :: "('a, 'o) os \<Rightarrow> thread_turn list \<Rightarrow> 'o bridge \<Rightarrow> 'o bridge" where
  "bridge_run os [] b = b"
| "bridge_run os (x # xs) b = bridge_run os xs (bridge_turn os (0, 0) x b)"

lemma bridge_turn_step: "bridge_step os b (bridge_turn os now x b)"
proof (cases x)
  case Up_Receives
  then show ?thesis
    by (cases "receiver_step os (up_adapt b) (uplink b) (bsys b)") (auto intro: bridge_step.Up_Receiver)
next
  case Up_Sends
  then show ?thesis
    by (cases "sender_step os now (down_adapt b) (uplink b) (bsys b)") (auto intro: bridge_step.Up_Sender)
next
  case Down_Receives
  then show ?thesis
    by (cases "receiver_step os (down_adapt b) (downlink b) (bsys b)") (auto intro: bridge_step.Down_Receiver)
next
  case Down_Sends
  then show ?thesis
    by (cases "sender_step os now (up_adapt b) (downlink b) (bsys b)") (auto intro: bridge_step.Down_Sender)
qed

lemma bridge_run_reachable: "bridge_reachable os b \<Longrightarrow> bridge_reachable os (bridge_run os xs b)"
  by (induction xs arbitrary: b) (auto intro: bridge_reachable.Step bridge_turn_step)

definition demo_bridge :: "u8 list list \<Rightarrow> thread_turn list \<Rightarrow> demo_sys bridge" where
  "demo_bridge chunks xs = bridge_run demo_os xs (bridge_main demo_os [] (chunks, [], 0))"

lemma demo_bridge_reachable: "bridge_reachable demo_os (demo_bridge chunks xs)"
  unfolding demo_bridge_def by (intro bridge_run_reachable bridge_reachable.Start)

lemmas demo_bridge_eval = demo_bridge_def bridge_main_def bridge_start_def tunnel_start_def tcp_bridge_new_def bridge_new_def
  tunnel_new_def tcp_adapter_new_def set_max_queue_size_def receiver_step_def sender_step_def demo_os_def
  demo_receive_def demo_send_def tcp_do_send_def adapter_is_connected_def count_received_def count_sent_def Let_def

text \<open>
  \<^verbatim>\<open>connect\<close> publishes the descriptor before it has connected it: the other tunnel's sender
  can send on a socket that is not connected.
\<close>

lemma send_before_connect:
  "let b = demo_bridge [[1]] (replicate 12 Down_Receives @ replicate 6 Down_Sends @ replicate 3 Up_Receives
     @ replicate 2 Down_Sends)
   in rc_pc (uplink b) = Rc_Option \<and> wire (downlink b) = [[1]]"
  by (simp add: demo_bridge_eval numeral_eq_Suc)

section \<open>Properties\<close>

text \<open>
  C39. The bridge carries each direction in order. In every interleaving of the threads,
  for either tunnel: the threads do not hold its lock together; the packets passed to the
  socket are a subsequence of the packets received, so none is repeated, reordered or
  altered, and the packets received are those taken, those waiting and those discarded;
  the downlink, which has no limit, discards nothing. Every packet allocated has been
  freed once, is in use, or was lost by a receive that gave no bytes. The statistics of the
  adapter it reads are the number and the sum of the results of the receives, a failed one
  counting as -1, that is as 2^64 - 1 bytes.
\<close>

theorem bridge_carries_in_order:
  assumes "bridge_reachable os b"
  shows "\<forall>(t, a) \<in> {(uplink b, up_adapt b), (downlink b, down_adapt b)}.
      \<not> (receiver_has_lock (rc_pc t) \<and> sender_has_lock (sn_pc t))
      \<and> subseq (wire t) (queued t)
      \<and> subseq (taken t @ live_queue t) (queued t)
      \<and> length (queued t) = length (taken t) + length (live_queue t) + discarded t
      \<and> (t = downlink b \<longrightarrow> queued t = taken t @ tn_queue t)
      \<and> allocated t = deleted t + length (live_queue t) + in_receiver (rc_pc t) + in_sender (sn_pc t)
          + failed_receives t
      \<and> packets_received (ad_metrics a) = of_nat (length (results t))
      \<and> bytes_received (ad_metrics a) = word_of_int (sum_list (results t))"
proof -
  have inv: "bridge_inv b" by (rule bridge_reachable_inv [OF assms])
  then show ?thesis
    using tunnel_facts [of "uplink b"] tunnel_facts [of "downlink b"] unlimited_facts [of "downlink b"]
    by (auto simp: bridge_inv_def received_counted_def)
qed

theorem bridge_carries_in_order_witness:
  "let b = demo_bridge [[1, 2], []] (replicate 6 Down_Receives @ replicate 12 Up_Receives @ replicate 8 Up_Sends
       @ replicate 6 Up_Receives)
   in wire (uplink b) = [[1, 2]] \<and> queued (uplink b) = [[1, 2]] \<and> results (uplink b) = [2, 0]
     \<and> failed_receives (uplink b) = 1 \<and> bytes_received (ad_metrics (up_adapt b)) = 2"
proof -
  let ?b = "demo_bridge [[1, 2], []] (replicate 6 Down_Receives @ replicate 12 Up_Receives @ replicate 8 Up_Sends
       @ replicate 6 Up_Receives)"
  have "bytes_received (ad_metrics (up_adapt ?b)) = word_of_int (sum_list (results (uplink ?b)))"
    using bridge_carries_in_order [OF demo_bridge_reachable, of "[[1, 2], []]"] by blast
  moreover have "wire (uplink ?b) = [[1, 2]] \<and> queued (uplink ?b) = [[1, 2]] \<and> results (uplink ?b) = [2, 0]"
    by (simp add: demo_bridge_eval numeral_eq_Suc)
  ultimately show ?thesis by (simp add: Let_def failed_receives_def)
qed

text \<open>
  C26. How long the sender sleeps. After a packet of at most 1024 bytes it sleeps exactly what
  is left, after the time elapsed since it started on the packet, of the packet's share of
  the bandwidth in microseconds, rounded down: nothing if the share is used up, if no
  bandwidth is set, or if the clock has run backwards. The conversions between signed and
  unsigned and to the 32 bits of \<^verbatim>\<open>useconds_t\<close> lose nothing. Then it starts over.
\<close>

theorem tunnel_keeps_pace:
  assumes "sender_step os now a t s = (a', t', s')" "sn_pc t = Sn_Pace"
    and "- (2 ^ 63) \<le> elapsed_us (sn_start t) now" "elapsed_us (sn_start t) now < 2 ^ 63"
    and "length (sn_packet t) \<le> 1024" "tn_bandwidth t < 2 ^ 31"
  shows "uint (sn_slept t') =
      (if 0 < tn_bandwidth t \<and> 0 \<le> elapsed_us (sn_start t) now
       then max 0 (int (length (sn_packet t)) * 1000000 div tn_bandwidth t - elapsed_us (sn_start t) now) else 0)
    \<and> sn_pc t' = Sn_Check"
  using assms(1,2) uint_pace_us [OF assms(3-6)] by (auto simp: sender_step_def)

theorem tunnel_keeps_pace_witness:
  "let t = (tunnel_new 4000)\<lparr>sn_pc := Sn_Pace, sn_packet := replicate 1000 0\<rparr>;
       t' = fst (snd (sender_step demo_os (0, 100000000) (tcp_adapter_new [] 0) t ([], [], 0)))
   in sn_pc t' = Sn_Check \<and> uint (sn_slept t') = 150000"
proof -
  let ?t = "(tunnel_new 4000)\<lparr>sn_pc := Sn_Pace, sn_packet := replicate 1000 (0 :: u8)\<rparr>"
  obtain a' t' s' where step:
      "sender_step demo_os (0, 100000000) (tcp_adapter_new [] 0) ?t ([], [], 0) = (a', t', s')"
    by (metis prod_cases3)
  have e: "elapsed_us (sn_start ?t) (0, 100000000) = 100000"
    by (simp add: elapsed_us_def tunnel_new_def signed_divide_int_def)
  show ?thesis
    using tunnel_keeps_pace [OF step, unfolded e] step by (simp add: tunnel_new_def Let_def)
qed

end
