(* ===== verification/Bridge_Teardown.thy ===== *)
theory Bridge_Teardown
  imports Bridge_Threads
begin

text \<open>
  The end of a bridge of \<^verbatim>\<open>tools/tcp_bridge.cc\<close>: \<^verbatim>\<open>Bridge::join\<close> and the destructors of the
  tunnels and of the bridge, interleaved with the threads they wait for. The destructor of
  the bridge deletes the adapters before it stops the threads that use them; a thread that
  touches a deleted adapter is a fault. \<^verbatim>\<open>main\<close> runs none of this: its monitor loop is endless.
\<close>

section \<open>Names\<close>

fun decimal :: "nat \<Rightarrow> string" where
  "decimal n = (if n < 10 then [] else decimal (n div 10)) @ [char_of (48 + n mod 10)]"

declare decimal.simps [simp del]

definition decimal_int :: "int \<Rightarrow> string" where
  "decimal_int n = (if n < 0 then CHR ''-'' # decimal (nat (- n)) else decimal (nat n))"

text \<open>
  \<^verbatim>\<open>snprintf\<close> writes at most 31 characters. An address of 16 characters has no terminating
  zero, and \<^verbatim>\<open>%s\<close> reads on behind the array.
\<close>

definition tcp_adapter_to_string :: "tcp_adapter \<Rightarrow> string res" where
  "tcp_adapter_to_string a =
     (if length (ad_ip a) \<ge> 16 then Inl Out_Of_Bounds
      else Inr (take 31 (ad_ip a @ '':'' @ decimal_int (ad_port a))))"

lemma length_decimal: "n < 10 ^ k \<Longrightarrow> 0 < k \<Longrightarrow> length (decimal n) \<le> k"
proof (induction k arbitrary: n)
  case (Suc k)
  show ?case
  proof (cases "n < 10")
    case False
    then have "0 < k" "n div 10 < 10 ^ k" using Suc.prems by (cases k; auto)+
    with Suc.IH have "length (decimal (n div 10)) \<le> k" by blast
    with False show ?thesis by (subst decimal.simps) simp
  qed (subst decimal.simps, simp)
qed simp

text \<open>A name is never cut off.\<close>

lemma to_string_complete:
  assumes "length (ad_ip a) < 16" "\<bar>ad_port a\<bar> < 2 ^ 31"
  shows "tcp_adapter_to_string a = Inr (ad_ip a @ '':'' @ decimal_int (ad_port a))"
proof -
  have "length (decimal (nat \<bar>ad_port a\<bar>)) \<le> 10" by (rule length_decimal) (use assms(2) in simp_all)
  then have "length (decimal_int (ad_port a)) \<le> 11" by (auto simp: decimal_int_def split: if_splits)
  with assms(1) show ?thesis by (simp add: tcp_adapter_to_string_def)
qed

section \<open>Joining\<close>

text \<open>Which of a tunnel's two threads are still running; a join returns when they have ended.\<close>

definition all_threads :: "tunnel \<Rightarrow> bool list" where
  "all_threads t = [rc_pc t \<noteq> Rc_Off, sn_pc t \<noteq> Sn_Off]"

definition bridge_join_returns :: "'o bridge \<Rightarrow> bool" where
  "bridge_join_returns b \<longleftrightarrow> list_all Not (all_threads (uplink b) @ all_threads (downlink b))"

section \<open>The destructors\<close>

datatype tunnel_del_pc =
    Td_Terminate
  | Td_Signal
  | Td_Join_Receiver
  | Td_Join_Sender
  | Td_Destroy
  | Td_Done

text \<open>A signal wakes a waiting sender, which may wake at any time as it is.\<close>

fun tunnel_delete_at :: "tunnel_del_pc \<Rightarrow> tunnel \<Rightarrow> tunnel_del_pc \<times> tunnel" where
  "tunnel_delete_at Td_Terminate t = (Td_Signal, t\<lparr>tn_terminate := True\<rparr>)"
| "tunnel_delete_at Td_Signal t = (Td_Join_Receiver, t)"
| "tunnel_delete_at Td_Join_Receiver t = (if rc_pc t = Rc_Off then Td_Join_Sender else Td_Join_Receiver, t)"
| "tunnel_delete_at Td_Join_Sender t = (if sn_pc t = Sn_Off then Td_Destroy else Td_Join_Sender, t)"
| "tunnel_delete_at Td_Destroy t = (Td_Done, t)"
| "tunnel_delete_at Td_Done t = (Td_Done, t)"

datatype bridge_del_pc =
    Bd_Disconnect_Up
  | Bd_Disconnect_Down
  | Bd_Delete_Up
  | Bd_Delete_Down
  | Bd_Uplink tunnel_del_pc
  | Bd_Downlink tunnel_del_pc
  | Bd_Done

fun bridge_delete_at :: "('a, 'o) os \<Rightarrow> bridge_del_pc \<Rightarrow> 'o bridge \<Rightarrow> bridge_del_pc \<times> 'o bridge" where
  "bridge_delete_at os Bd_Disconnect_Up b =
     (let (a, s) = tcp_adapter_disconnect os (up_adapt b) (bsys b)
      in (Bd_Disconnect_Down, b\<lparr>up_adapt := a, bsys := s\<rparr>))"
| "bridge_delete_at os Bd_Disconnect_Down b =
     (let (a, s) = tcp_adapter_disconnect os (down_adapt b) (bsys b)
      in (Bd_Delete_Up, b\<lparr>down_adapt := a, bsys := s\<rparr>))"
| "bridge_delete_at os Bd_Delete_Up b = (Bd_Delete_Down, b\<lparr>bsys := tcp_adapter_delete os (up_adapt b) (bsys b)\<rparr>)"
| "bridge_delete_at os Bd_Delete_Down b =
     (Bd_Uplink Td_Terminate, b\<lparr>bsys := tcp_adapter_delete os (down_adapt b) (bsys b)\<rparr>)"
| "bridge_delete_at os (Bd_Uplink td) b =
     (let (td', t) = tunnel_delete_at td (uplink b)
      in (if td' = Td_Done then Bd_Downlink Td_Terminate else Bd_Uplink td', b\<lparr>uplink := t\<rparr>))"
| "bridge_delete_at os (Bd_Downlink td) b =
     (let (td', t) = tunnel_delete_at td (downlink b)
      in (if td' = Td_Done then Bd_Done else Bd_Downlink td', b\<lparr>downlink := t\<rparr>))"
| "bridge_delete_at os Bd_Done b = (Bd_Done, b)"

text \<open>Which adapters are gone, and whether a thread's next step uses one of them.\<close>

definition up_deleted :: "bridge_del_pc \<Rightarrow> bool" where
  "up_deleted pc \<longleftrightarrow> pc \<notin> {Bd_Disconnect_Up, Bd_Disconnect_Down, Bd_Delete_Up}"

definition down_deleted :: "bridge_del_pc \<Rightarrow> bool" where
  "down_deleted pc \<longleftrightarrow> up_deleted pc \<and> pc \<noteq> Bd_Delete_Down"

definition receiver_uses :: "receiver_pc \<Rightarrow> bool" where
  "receiver_uses pc \<longleftrightarrow> pc \<notin> {Rc_Off, Rc_Check, Rc_Lock, Rc_Push, Rc_Unlock}"

definition sender_uses :: "sender_pc \<Rightarrow> bool" where
  "sender_uses pc \<longleftrightarrow> pc \<in> {Sn_Test, Sn_Send, Sn_Count}"

fun touches_deleted :: "bridge_del_pc \<Rightarrow> thread_turn \<Rightarrow> 'o bridge \<Rightarrow> bool" where
  "touches_deleted pc Up_Receives b \<longleftrightarrow> up_deleted pc \<and> receiver_uses (rc_pc (uplink b))"
| "touches_deleted pc Up_Sends b \<longleftrightarrow> down_deleted pc \<and> sender_uses (sn_pc (uplink b))"
| "touches_deleted pc Down_Receives b \<longleftrightarrow> down_deleted pc \<and> receiver_uses (rc_pc (downlink b))"
| "touches_deleted pc Down_Sends b \<longleftrightarrow> up_deleted pc \<and> sender_uses (sn_pc (downlink b))"

inductive teardown_step ::
  "('a, 'o) os \<Rightarrow> bridge_del_pc \<times> 'o bridge \<Rightarrow> (bridge_del_pc \<times> 'o bridge) res \<Rightarrow> bool" for os where
  Destructor: "teardown_step os (pc, b) (Inr (bridge_delete_at os pc b))"
| Thread: "\<not> touches_deleted pc x b \<Longrightarrow> teardown_step os (pc, b) (Inr (pc, bridge_turn os now x b))"
| Fault: "touches_deleted pc x b \<Longrightarrow> teardown_step os (pc, b) (Inl Use_After_Free)"

inductive_cases teardown_stepE: "teardown_step os (pc, b) (Inr c)"

inductive teardown_reaches ::
  "('a, 'o) os \<Rightarrow> bridge_del_pc \<times> 'o bridge \<Rightarrow> bridge_del_pc \<times> 'o bridge \<Rightarrow> bool" for os where
  Here: "teardown_reaches os c c"
| Next: "teardown_reaches os c c' \<Longrightarrow> teardown_step os c' (Inr c'') \<Longrightarrow> teardown_reaches os c c''"

section \<open>Sequential runs\<close>

text \<open>The destructor alone, when no thread was started: it comes to its end.\<close>

fun destructor_run :: "('a, 'o) os \<Rightarrow> nat \<Rightarrow> bridge_del_pc \<times> 'o bridge \<Rightarrow> bridge_del_pc \<times> 'o bridge" where
  "destructor_run os 0 c = c"
| "destructor_run os (Suc n) c = destructor_run os n (bridge_delete_at os (fst c) (snd c))"

lemma destructor_run_reaches: "teardown_reaches os c0 c \<Longrightarrow> teardown_reaches os c0 (destructor_run os n c)"
proof (induction n arbitrary: c)
  case (Suc n)
  have "teardown_step os c (Inr (bridge_delete_at os (fst c) (snd c)))"
    using teardown_step.Destructor [of os "fst c" "snd c"] by simp
  from Suc.IH [OF teardown_reaches.Next [OF Suc.prems this]] show ?case by simp
qed simp

lemma destructor_ends_without_threads:
  assumes "bridge_join_returns b"
  shows "\<exists>b'. teardown_reaches os (Bd_Disconnect_Up, b) (Bd_Done, b')"
proof -
  have off: "rc_pc (uplink b) = Rc_Off" "sn_pc (uplink b) = Sn_Off" "rc_pc (downlink b) = Rc_Off" "sn_pc (downlink b) = Sn_Off"
    using assms by (simp_all add: bridge_join_returns_def all_threads_def)
  have "fst (destructor_run os 14 (Bd_Disconnect_Up, b)) = Bd_Done"
    by (simp add: numeral_eq_Suc off case_prod_beta Let_def)
  then show ?thesis
    using destructor_run_reaches [OF teardown_reaches.Here, of os "(Bd_Disconnect_Up, b)" 14] by (metis prod.collapse)
qed

section \<open>When the destructor of the bridge cannot end\<close>

definition sender_waits :: "sender_pc \<Rightarrow> bool" where
  "sender_waits pc \<longleftrightarrow> pc \<in> {Sn_Lock, Sn_Empty, Sn_Waiting, Sn_Relock}"

lemma teardown_invariant:
  assumes "teardown_reaches os c c'" "P c"
    and "\<And>pc b now x. P (pc, b) \<Longrightarrow> \<not> touches_deleted pc x b \<Longrightarrow> P (pc, bridge_turn os now x b)"
    and "\<And>pc b. P (pc, b) \<Longrightarrow> P (bridge_delete_at os pc b)"
  shows "P c'"
  using assms(1,2)
proof (induction rule: teardown_reaches.induct)
  case (Next c c' c'')
  then show ?case
    by (cases c') (auto elim!: teardown_stepE intro: assms(3,4))
qed

definition before_join :: "bridge_del_pc \<Rightarrow> bool" where
  "before_join pc \<longleftrightarrow> pc \<in> {Bd_Uplink Td_Terminate, Bd_Uplink Td_Signal, Bd_Uplink Td_Join_Receiver}"

text \<open>The uplink's receiver is inside its adapter: its own turn is the fault.\<close>

definition caught :: "bridge_del_pc \<times> 'o bridge \<Rightarrow> bool" where
  "caught c \<longleftrightarrow> (case c of (pc, b) \<Rightarrow> before_join pc \<and> receiver_uses (rc_pc (uplink b)))"

lemma sender_keeps_receiver: "sender_at os now pc a t s = (a', t', s') \<Longrightarrow> rc_pc t' = rc_pc t"
  by (cases pc) (auto simp: Let_def split: if_splits)

lemma caught_turn:
  assumes "caught (pc, b)" "\<not> touches_deleted pc x b"
  shows "caught (pc, bridge_turn os now x b)"
proof (cases x)
  case Up_Sends
  obtain a t s where *: "sender_step os now (down_adapt b) (uplink b) (bsys b) = (a, t, s)" by (metis prod_cases3)
  then have "rc_pc t = rc_pc (uplink b)" unfolding sender_step_def by (rule sender_keeps_receiver)
  with assms(1) Up_Sends * show ?thesis by (simp add: caught_def)
qed (use assms in \<open>auto simp: caught_def before_join_def up_deleted_def split: prod.splits\<close>)

lemma caught_destructor: "caught (pc, b) \<Longrightarrow> caught (bridge_delete_at os pc b)"
  by (auto simp: caught_def before_join_def receiver_uses_def)

text \<open>The receiver has ended, and the sender waits on the empty queue.\<close>

definition starved :: "bridge_del_pc \<times> 'o bridge \<Rightarrow> bool" where
  "starved c \<longleftrightarrow> (case c of (pc, b) \<Rightarrow> (before_join pc \<or> pc = Bd_Uplink Td_Join_Sender)
     \<and> rc_pc (uplink b) = Rc_Off \<and> tn_queue (uplink b) = [] \<and> sender_waits (sn_pc (uplink b)))"

lemma sender_keeps_waiting:
  "sender_at os now (sn_pc t) a t s = (a', t', s') \<Longrightarrow> tn_queue t = [] \<Longrightarrow> sender_waits (sn_pc t) \<Longrightarrow>
     tn_queue t' = [] \<and> sender_waits (sn_pc t')"
  by (cases "sn_pc t") (auto simp: sender_waits_def split: if_splits)

lemma starved_turn:
  assumes "starved (pc, b)"
  shows "starved (pc, bridge_turn os now x b)"
proof (cases x)
  case Up_Sends
  obtain a t s where *: "sender_step os now (down_adapt b) (uplink b) (bsys b) = (a, t, s)" by (metis prod_cases3)
  note step = *[unfolded sender_step_def]
  from assms(1) Up_Sends * sender_keeps_receiver [OF step] sender_keeps_waiting [OF step] show ?thesis
    by (simp add: starved_def)
qed (use assms in \<open>auto simp: starved_def receiver_step_def split: prod.splits\<close>)

lemma starved_destructor: "starved (pc, b) \<Longrightarrow> starved (bridge_delete_at os pc b)"
  by (auto simp: starved_def before_join_def sender_waits_def)

section \<open>Property\<close>

text \<open>
  C40. The destructor of the bridge can hang and can crash. Take any state in which both
  adapters have been deleted, and any interleaving from there. If the uplink's receiver
  was inside its adapter, the destructor never gets past joining it, and the receiver's
  next step uses the deleted adapter. If the receiver had ended and the sender was waiting
  on the empty queue, the destructor never gets past joining the sender, though it has set
  \<^verbatim>\<open>terminate\<close> and signalled: the waiting loop looks at the queue only.
\<close>

theorem bridge_destructor_stuck:
  assumes "teardown_reaches os (Bd_Uplink Td_Terminate, b) (pc, b')"
    and "receiver_uses (rc_pc (uplink b))
         \<or> (rc_pc (uplink b) = Rc_Off \<and> tn_queue (uplink b) = [] \<and> sender_waits (sn_pc (uplink b)))"
  shows "pc \<noteq> Bd_Done
    \<and> (receiver_uses (rc_pc (uplink b)) \<longrightarrow> teardown_step os (pc, b') (Inl Use_After_Free))"
proof -
  have in_recv: "caught (pc, b')" if "receiver_uses (rc_pc (uplink b))"
  proof (rule teardown_invariant [OF assms(1)])
    show "caught (Bd_Uplink Td_Terminate, b)" using that by (simp add: caught_def before_join_def)
  qed (erule caught_turn caught_destructor, assumption?)+
  have waiting: "starved (pc, b')" if "\<not> receiver_uses (rc_pc (uplink b))"
  proof (rule teardown_invariant [OF assms(1)])
    show "starved (Bd_Uplink Td_Terminate, b)" using that assms(2) by (simp add: starved_def before_join_def)
  qed (erule starved_turn starved_destructor)+
  have "pc \<noteq> Bd_Done"
    using in_recv waiting by (auto simp: caught_def starved_def before_join_def)
  moreover have "touches_deleted pc Up_Receives b'" if "receiver_uses (rc_pc (uplink b))"
    using in_recv [OF that] by (auto simp: caught_def before_join_def up_deleted_def)
  ultimately show ?thesis by (blast intro: teardown_step.Fault)
qed

text \<open>A bridge whose uplink waits for its first packet, torn down as far as the joins.\<close>

definition idle_bridge :: "demo_sys bridge" where
  "idle_bridge = demo_bridge [] (replicate 7 Up_Receives @ replicate 3 Up_Sends)"

theorem bridge_destructor_stuck_witness:
  "rc_pc (uplink idle_bridge) = Rc_Receive \<and> sn_pc (uplink idle_bridge) = Sn_Waiting
   \<and> (let (pc, b') = destructor_run demo_os 5 (Bd_Uplink Td_Terminate, idle_bridge)
      in pc = Bd_Uplink Td_Join_Receiver \<and> teardown_step demo_os (pc, b') (Inl Use_After_Free))"
proof -
  have idle: "rc_pc (uplink idle_bridge) = Rc_Receive \<and> sn_pc (uplink idle_bridge) = Sn_Waiting"
    by (simp add: idle_bridge_def demo_bridge_eval numeral_eq_Suc)
  obtain pc b' where c: "destructor_run demo_os 5 (Bd_Uplink Td_Terminate, idle_bridge) = (pc, b')" by (rule prod.exhaust)
  have "teardown_reaches demo_os (Bd_Uplink Td_Terminate, idle_bridge) (pc, b')"
    using destructor_run_reaches [OF teardown_reaches.Here, of demo_os "(Bd_Uplink Td_Terminate, idle_bridge)" 5] c by simp
  from bridge_destructor_stuck [OF this] idle have "teardown_step demo_os (pc, b') (Inl Use_After_Free)"
    by (simp add: receiver_uses_def)
  moreover have "pc = Bd_Uplink Td_Join_Receiver"
    using c idle by (auto simp: numeral_eq_Suc)
  ultimately show ?thesis using c idle by simp
qed

end
