(* ===== verification/Spec2Isabelle.thy ===== *)
theory Spec2Isabelle
  imports Source_Uart Source_Stdio Source_Udp Source_Tcp Source_Tcpout Certikos_Ports Source_Ringleader Log_Ringleader
    Gateway_Main Gateway_Program Program_Types Program_Runs Network_Service Handoff Bridge_Threads Bridge_Teardown
begin

text \<open>
  A verification library for the secure MAVLink gateway.

  \<^bold>\<open>The program.\<close> The gateway (\<^verbatim>\<open>main.c\<close>, \<^verbatim>\<open>lib/\<close>) stands between the computers of a vehicle. A
  port is a source and a sink over one device: a serial line, a UDP or TCP socket, a topic
  of CertiKOS, an \<^verbatim>\<open>io_uring\<close> socket. The main loop (\<^verbatim>\<open>pipeline_spin\<close>) asks each connected
  source for bytes, feeds them to the MAVLink parser, and pushes each finished message:
  the route table gives the sinks for its source, the policies may mark it for discarding,
  and it is delivered to the sinks that are left. Counters and a console run beside. Most
  devices have a thread that receives into a buffer the main loop reads. The tool
  \<^verbatim>\<open>tools/tcp_bridge.cc\<close> is a program of its own: it joins two TCP servers with a queue and
  two threads for each direction.

  \<^bold>\<open>Conventions\<close> (\<open>Gateway_Prelude\<close>). Structs are records, enumerations datatypes, machine
  integers words of their width. Every operation that can fail returns \<open>fault + 'a\<close>: \<open>Inl\<close> is
  an execution the C program does not survive or define, and error codes are ordinary
  results. A loop that need not end is a \<open>partial_function (option)\<close> whose \<open>None\<close> means that it
  does not. \<open>'w\<close> is the world behind the ports, \<open>'x\<close> the unused part of a MAVLink message,
  \<open>'s\<close> and \<open>'c\<close> the parser's states.

  \<^bold>\<open>Theories, in the order of their imports.\<close>
  \<^item> \<open>Bitmap\<close>, \<open>Ports\<close>, \<open>Message\<close>: bitmap, enumerations, error codes and messages of
    \<^verbatim>\<open>secure_gateway.h\<close>. The bitmap refines a set of indices.
  \<^item> \<open>Ring_Buffer\<close> (\<^verbatim>\<open>ring_buffer.h\<close>): refines a bounded queue; copying in keeps the last bytes.
  \<^item> \<open>Transformer\<close> (\<^verbatim>\<open>transformer_xor.c\<close>, \<^verbatim>\<open>transformer_none.c\<close>): round trips.
  \<^item> \<open>Perf\<close> (the \<^verbatim>\<open>perf_*\<close> functions of \<^verbatim>\<open>secure_gateway.c\<close>): counters against sequence numbers,
    safety of the report.
  \<^item> \<open>Pipeline\<close>, \<open>Security_Policies\<close>: the pipeline's data, registration and connection; the
    policies of \<^verbatim>\<open>security_policies.c\<close>.
  \<^item> \<open>Pipeline_Push\<close> (\<^verbatim>\<open>route_table.c\<close>, \<^verbatim>\<open>pipeline_init\<close>, \<^verbatim>\<open>pipeline_push\<close>): refinement of a reference
    monitor, which messages are delivered where, isolation, absence of faults.
  \<^item> \<open>Console\<close> (\<^verbatim>\<open>plugins/console.c\<close>, \<^verbatim>\<open>context.h\<close>).
  \<^item> \<open>Pipeline_Spin\<close>: the main loop's body, and the interface \<open>byte_source\<close> a source must meet for
    a spin to return and to read every pending byte once.
  \<^item> \<open>Devices\<close>: the heap of device structs, the calls of the operating system, and the
    interfaces \<open>rx_port\<close> and \<open>network_port\<close>; \<open>Handoff\<close>: the receive buffer between a thread and the
    main loop in every interleaving.
  \<^item> \<open>Source_Uart\<close>, \<open>Source_Udp\<close>, \<open>Source_Tcp\<close>, \<open>Source_Tcpout\<close>, \<open>Source_Stdio\<close>: one theory per file
    \<^verbatim>\<open>source_*.c\<close> of the Linux build, with the interpretations of these interfaces.
  \<^item> \<open>Certikos_Devices\<close>, \<open>Source_Certikos_Uart\<close>, \<open>Source_Partee\<close>, \<open>Source_Thinros\<close>, \<open>Certikos_Ports\<close>: the
    ports of the CertiKOS build over the interfaces \<open>inbox_port\<close> and \<open>inbox_source\<close>, and their
    comparison.
  \<^item> \<open>Source_Ringleader\<close> (\<^verbatim>\<open>source_ringleader.c\<close>, \<^verbatim>\<open>get_rl\<close> of \<^verbatim>\<open>log_ringleader.c\<close>): the completions of
    the ring as explicit values run by the tick. \<open>Log_Ringleader\<close> (the rest of \<^verbatim>\<open>log_ringleader.c\<close>):
    what a sequence of log messages does to the system, and when it hangs.
  \<^item> \<open>Device_Ports\<close>, \<open>Network_Gateway\<close>: composition. No sequence of port operations confuses the
    types of the devices, and a gateway over network ports meets what a spin needs.
    \<open>Network_Service\<close>: with the passes of the ports' threads before every spin, such a gateway
    completes any number of rounds. \<open>Port_Threads\<close>: the threads of any pipeline, with passes
    between the turns of the main loop or before every operation of a port.
  \<^item> \<open>Gateway_Main\<close>, \<open>Xor_Build\<close>, \<open>Gateway_Program\<close> (\<^verbatim>\<open>main.c\<close>): set-up and main loop; the program never
    returns; the build with the XOR transformers behaves as the one without; the default
    routes and policies stay in force for as long as the program runs.
  \<^item> \<open>Safe_Runs\<close>, \<open>Program_Types\<close>: rules of partial correctness for the main loop, generic in the
    invariant of the world (locale \<open>safe_run\<close>), and their use: what the set-up wires to what,
    and that no run of the program, its ports' threads included, confuses or outlives a
    device's struct or calls a null pointer.
  \<^item> \<open>Running_Gateway\<close>, \<open>Lazy_Ports\<close>, \<open>Program_Runs\<close>: total correctness of the running program. When
    every source's bytes are counted down a spin returns; a port that opens on first use
    (locale \<open>lazy_port\<close>, interpreted on the TCP server and the serial port) meets this in every
    state and whichever of the system's calls fail; so, between any passes of the two threads,
    every turn of \<^verbatim>\<open>main\<close>'s loop completes without a fault, for ever. The premises say what is
    asked of the system: bounded receives, and no empty read of the serial line.
  \<^item> \<open>Tcp_Bridge\<close>, \<open>Bridge_Threads\<close> (\<^verbatim>\<open>tools/tcp_bridge.cc\<close>): the threads as program counters; order,
    locking, memory and statistics in every interleaving, and the pace of the sender.
    \<open>Bridge_Teardown\<close>: the destructors interleaved with the threads they wait for.

  \<^bold>\<open>Parameters.\<close> The MAVLink library, the operating system, CertiKOS, ParTEE, ThinROS and the
  ringleader library are not part of the repository; they are records of functions
  (\<open>mavlink_lib\<close>, \<open>os\<close>, \<open>certikos\<close>, \<open>ringleader\<close>). What a theorem needs of them is a premise, such as
  \<open>parser_overwrites\<close> or \<open>frame_fits\<close>, and its witness discharges it on a concrete instance.

  \<^bold>\<open>Bounds.\<close> Tables and buffers have the sizes of the source: 4 sources, 4 sinks, 16
  policies, the buffers' \<open>BUFFER_BYTES\<close>. No fuel is used; a spin's return is proved as
  \<open>Some (Inr ...)\<close>.

  \<^bold>\<open>Not modelled.\<close> What is printed: the gateway's reports are values (\<open>Perf\<close>, \<open>Source_Stdio\<close>),
  other messages are dropped, and formatting is a parameter of \<open>Log_Ringleader\<close>. Signals:
  \<^verbatim>\<open>SIGPIPE\<close> is taken to be ignored, so that a send to a peer that is gone returns an error. Locks,
  condition variables and threads appear where they are the subject (\<open>Handoff\<close>, \<open>Tcp_Bridge\<close>);
  the other theories take the main thread's view and treat a pass of a port's thread as one
  step. The programs under \<^verbatim>\<open>test/\<close> are variants of \<^verbatim>\<open>main.c\<close>; the Python scripts are clients of
  the gateway.
\<close>

end
